(* ===== verification/Prelude.thy ===== *)
theory Prelude
  imports Main "HOL-Library.Monad_Syntax"
begin

text \<open>
  What every component shares.  A Go function of the repository is translated into a HOL
  function with two layers of failure:

  \<^item> a returned \<^verbatim>\<open>error\<close> is a value: the result type is \<open>err + 'a\<close>, with \<open>Inl\<close> for the
    non-nil error;
  \<^item> a run-time panic (a nil dereference, an index out of range) ends the process: the
    result type is \<open>'a option\<close>, with \<open>None\<close> for the panic, threaded by the option monad.

  A \<^verbatim>\<open>for ... range\<close> loop over a slice whose body updates the state is \<open>foreach\<close> (or
  \<open>fold\<close> where the body cannot panic); \<^verbatim>\<open>continue\<close> is the body returning its state.
\<close>

section \<open>Go errors\<close>

datatype err =
    ErrSyntax                     \<comment> \<open>\<^verbatim>\<open>strconv\<close>: not a number\<close>
  | ErrRange                      \<comment> \<open>\<^verbatim>\<open>strconv\<close>: a number outside the type's range\<close>
  | ParseError string             \<comment> \<open>\<^verbatim>\<open>net\<close>: the text that is no address\<close>
  | JsonError                     \<comment> \<open>\<^verbatim>\<open>encoding/json\<close>\<close>
  | ExecError string              \<comment> \<open>\<^verbatim>\<open>os/exec\<close>: the command that failed\<close>
  | NotFound string               \<comment> \<open>\<^verbatim>\<open>apierr.IsNotFound\<close> holds of it\<close>
  | ApiError string               \<comment> \<open>any other error of the API or a lister\<close>
  | ErrorMsg string               \<comment> \<open>\<^verbatim>\<open>errors.New\<close>, \<^verbatim>\<open>fmt.Errorf\<close> with nothing wrapped\<close>
  | Errorf string err             \<comment> \<open>\<^verbatim>\<open>fmt.Errorf\<close> around another error\<close>

section \<open>Loops\<close>

primrec foreach :: "('a \<Rightarrow> 's \<Rightarrow> 's option) \<Rightarrow> 'a list \<Rightarrow> 's \<Rightarrow> 's option" where
  "foreach body [] s = Some s"
| "foreach body (x # xs) s = do { s' \<leftarrow> body x s; foreach body xs s' }"

lemma foreach_append:
  "foreach body (xs @ ys) s = do { s' \<leftarrow> foreach body xs s; foreach body ys s' }"
proof (induction xs arbitrary: s)
  case (Cons x xs)
  then show ?case by (cases "body x s") simp_all
qed simp

lemma foreach_cong [fundef_cong]:
  assumes "xs = ys" and "s = t" and "\<And>x s. x \<in> set ys \<Longrightarrow> f x s = g x s"
  shows "foreach f xs s = foreach g ys t"
  using assms(3) unfolding assms(1,2)
proof (induction ys arbitrary: t)
  case (Cons y ys)
  then show ?case by (cases "g y t") simp_all
qed simp

text \<open>A loop whose body never panics is a \<open>fold\<close>.\<close>

lemma foreach_total:
  "(\<And>x s. x \<in> set xs \<Longrightarrow> body x s = Some (step x s)) \<Longrightarrow> foreach body xs s = Some (fold step xs s)"
  by (induction xs arbitrary: s) simp_all

lemma foreach_panic:
  assumes "x \<in> set xs" and "\<And>s. body x s = None"
  shows "foreach body xs s = None"
  using assms(1)
proof (induction xs arbitrary: s)
  case (Cons y ys)
  show ?case
  proof (cases "x = y")
    case True
    with assms(2) show ?thesis by simp
  next
    case False
    with Cons show ?thesis by (cases "body y s") simp_all
  qed
qed simp

lemma foreach_invariant:
  assumes "\<And>x s s'. x \<in> set xs \<Longrightarrow> P s \<Longrightarrow> body x s = Some s' \<Longrightarrow> P s'"
    and "P s" and "foreach body xs s = Some s'"
  shows "P s'"
  using assms
proof (induction xs arbitrary: s)
  case (Cons x xs)
  from Cons.prems(3) obtain t where t: "body x s = Some t" and rest: "foreach body xs t = Some s'"
    by (cases "body x s") simp_all
  show ?case
  proof (rule Cons.IH [OF _ _ rest])
    show "P t" using Cons.prems(1) [OF _ Cons.prems(2) t] by simp
  qed (use Cons.prems(1) in auto)
qed simp

section \<open>Code that only emits\<close>

named_theorems emits "an operation as the emission of a list of flows"

text \<open>
  Most of the controller's code appends to an output and changes nothing else.  Such code is
  described by the list it emits: \<open>collect g xs\<close> is what a loop over \<open>xs\<close> emits when the
  body emits \<open>g x\<close>, and \<open>None\<close> when a body panics.
\<close>

definition collect :: "('a \<Rightarrow> 'f list option) \<Rightarrow> 'a list \<Rightarrow> 'f list option" where
  "collect g xs = map_option concat (those (map g xs))"

lemma collect_Nil [simp]: "collect g [] = Some []"
  by (simp add: collect_def)

lemma collect_Cons [simp]:
  "collect g (x # xs) = do { fs \<leftarrow> g x; gs \<leftarrow> collect g xs; Some (fs @ gs) }"
  by (cases "g x"; cases "those (map g xs)") (simp_all add: collect_def)

lemma collect_total:
  "(\<And>x. x \<in> set xs \<Longrightarrow> g x = Some (h x)) \<Longrightarrow> collect g xs = Some (concat (map h xs))"
  by (induction xs) simp_all

lemma collect_cong [fundef_cong]:
  assumes "xs = ys" and "\<And>x. x \<in> set ys \<Longrightarrow> f x = g x"
  shows "collect f xs = collect g ys"
proof -
  have "map f xs = map g ys" using assms by simp
  then show ?thesis by (simp add: collect_def)
qed

lemma collect_None_iff: "collect g xs = None \<longleftrightarrow> (\<exists>x\<in>set xs. g x = None)"
  by (induction xs) (auto split: Option.bind_splits)

lemma collect_mem:
  "collect g xs = Some fs \<Longrightarrow> f \<in> set fs \<longleftrightarrow> (\<exists>x\<in>set xs. \<exists>gs. g x = Some gs \<and> f \<in> set gs)"
proof (induction xs arbitrary: fs)
  case (Cons x xs)
  then obtain hs ks where "g x = Some hs" "collect g xs = Some ks" "fs = hs @ ks"
    by (auto simp: Option.bind_eq_Some_conv)
  with Cons.IH [of ks] show ?case by auto
qed simp

text \<open>
  The interface of an output: emitting a list is emitting its parts one after the other.
  Its client is every loop of the controller: a loop of emitting bodies emits the
  collected list.
\<close>

locale output_sink =
  fixes emit :: "'f list \<Rightarrow> 's \<Rightarrow> 's"
  assumes emit_Nil: "emit [] s = s"
    and emit_append: "emit (fs @ gs) s = emit gs (emit fs s)"
begin

lemma emit_Cons: "emit (f # fs) s = emit fs (emit [f] s)"
  using emit_append [of "[f]" fs s] by simp

lemma emit_then:
  "do { s' \<leftarrow> map_option (\<lambda>fs. emit fs s) a; map_option (\<lambda>fs. emit fs s') b } =
     map_option (\<lambda>fs. emit fs s) (do { fs \<leftarrow> a; gs \<leftarrow> b; Some (fs @ gs) })"
  by (cases a; cases b) (simp_all add: emit_append)

lemma foreach_emits:
  assumes "\<And>x s. x \<in> set xs \<Longrightarrow> body x s = map_option (\<lambda>fs. emit fs s) (g x)"
  shows "foreach body xs s = map_option (\<lambda>fs. emit fs s) (collect g xs)"
  using assms
proof (induction xs arbitrary: s)
  case Nil
  then show ?case by (simp add: emit_Nil)
next
  case (Cons x xs)
  have step: "body x s = map_option (\<lambda>fs. emit fs s) (g x)" using Cons.prems by simp
  have rest: "foreach body xs t = map_option (\<lambda>fs. emit fs t) (collect g xs)" for t
    by (rule Cons.IH) (use Cons.prems in simp)
  show ?case by (simp add: step rest emit_then)
qed

lemma fold_emits:
  assumes "\<And>x s. x \<in> set xs \<Longrightarrow> step x s = emit (g x) s"
  shows "fold step xs s = emit (concat (map g xs)) s"
  using assms by (induction xs arbitrary: s) (simp_all add: emit_Nil emit_append)

end

section \<open>Lists\<close>

lemma fold_snoc: "fold (\<lambda>x acc. acc @ [f x]) xs acc = acc @ map f xs"
  by (induction xs arbitrary: acc) simp_all

lemma last_mem_filter: "filter P xs \<noteq> [] \<Longrightarrow> last (filter P xs) \<in> set xs \<and> P (last (filter P xs))"
  using last_in_set [of "filter P xs"] by simp

end
