(* ===== verification/GoStrings.thy ===== *)
theory GoStrings
  imports Prelude
begin

text \<open>
  The parts of Go's \<^verbatim>\<open>strings\<close>, \<^verbatim>\<open>strconv\<close> and \<^verbatim>\<open>fmt\<close> that the repository uses.  A Go string
  is a sequence of bytes, and so is \<^typ>\<open>string\<close> here.  \<open>itoa\<close> is what \<^verbatim>\<open>%d\<close> prints for an
  \<^verbatim>\<open>int\<close>; \<open>Atoi\<close> keeps \<^verbatim>\<open>strconv.Atoi\<close>'s value also where it fails, because
  \<^verbatim>\<open>IntOrString.IntValue\<close> drops the error and uses that value.  \<open>ToLower\<close> and \<open>TrimSpace\<close> are
  Go's functions on ASCII text.
\<close>

section \<open>Bytes\<close>

abbreviation byte :: "char \<Rightarrow> nat" where
  "byte c \<equiv> of_char c"

definition is_digit :: "char \<Rightarrow> bool" where
  "is_digit c \<longleftrightarrow> 48 \<le> byte c \<and> byte c \<le> 57"

definition digit_val :: "char \<Rightarrow> nat" where
  "digit_val c = byte c - 48"

definition digit_char :: "nat \<Rightarrow> char" where
  "digit_char d = char_of (48 + d)"

lemma byte_digit_char [simp]: "d < 10 \<Longrightarrow> byte (digit_char d) = 48 + d"
  by (simp add: digit_char_def)

lemma is_digit_digit_char [simp]: "d < 10 \<Longrightarrow> is_digit (digit_char d)"
  by (simp add: is_digit_def)

lemma digit_val_digit_char [simp]: "d < 10 \<Longrightarrow> digit_val (digit_char d) = d"
  by (simp add: digit_val_def)

lemma digit_val_less: "is_digit c \<Longrightarrow> digit_val c < 10"
  unfolding is_digit_def digit_val_def by linarith

section \<open>Decimal numbers\<close>

function utoa :: "nat \<Rightarrow> string" where
  "utoa n = (if n < 10 then [] else utoa (n div 10)) @ [digit_char (n mod 10)]"
  by pat_completeness auto
termination
  by (relation "measure id") auto

declare utoa.simps [simp del]

definition itoa :: "int \<Rightarrow> string" where
  "itoa i = (if i < 0 then CHR ''-'' # utoa (nat (- i)) else utoa (nat i))"

lemma utoa_digits: "c \<in> set (utoa n) \<Longrightarrow> is_digit c"
proof (induction n rule: utoa.induct)
  case (1 n)
  then show ?case
    by (subst (asm) utoa.simps [of n]) (auto split: if_splits)
qed

lemma utoa_nonempty [simp]: "utoa n \<noteq> []"
  by (subst utoa.simps) simp

definition digits_val :: "nat \<Rightarrow> string \<Rightarrow> nat" where
  "digits_val acc s = foldl (\<lambda>n c. 10 * n + digit_val c) acc s"

lemma digits_val_Nil [simp]: "digits_val acc [] = acc"
  by (simp add: digits_val_def)

lemma digits_val_Cons [simp]: "digits_val acc (c # s) = digits_val (10 * acc + digit_val c) s"
  by (simp add: digits_val_def)

lemma digits_val_append [simp]: "digits_val acc (s @ t) = digits_val (digits_val acc s) t"
  by (simp add: digits_val_def)

lemma digits_val_mono: "acc \<le> digits_val acc s"
proof (induction s arbitrary: acc)
  case (Cons c s)
  have "acc \<le> 10 * acc + digit_val c" by simp
  also have "\<dots> \<le> digits_val (10 * acc + digit_val c) s" by (rule Cons.IH)
  finally show ?case by simp
qed simp

lemma digits_val_utoa [simp]: "digits_val 0 (utoa n) = n"
proof (induction n rule: utoa.induct)
  case (1 n)
  show ?case
  proof (cases "n < 10")
    case True
    then show ?thesis by (simp add: utoa.simps [of n])
  next
    case False
    with "1.IH" show ?thesis by (simp add: utoa.simps [of n])
  qed
qed

lemma utoa_inject [simp]: "utoa m = utoa n \<longleftrightarrow> m = n"
  using digits_val_utoa by metis

lemma utoa_no: "\<not> is_digit c \<Longrightarrow> c \<notin> set (utoa n)"
  using utoa_digits by blast

lemma itoa_no: "\<not> is_digit c \<Longrightarrow> c \<noteq> CHR ''-'' \<Longrightarrow> c \<notin> set (itoa i)"
  by (auto simp: itoa_def dest: utoa_digits)

lemma itoa_nonempty [simp]: "itoa i \<noteq> []"
  by (simp add: itoa_def)

lemma hd_utoa_digit: "is_digit (hd (utoa n))"
  using utoa_digits [OF hd_in_set [OF utoa_nonempty]] .

section \<open>\<^verbatim>\<open>strconv.Atoi\<close>\<close>

abbreviation max_uint64 :: nat where
  "max_uint64 \<equiv> 18446744073709551615"

abbreviation max_int64 :: int where
  "max_int64 \<equiv> 9223372036854775807"

text \<open>
  The digit loop of \<^verbatim>\<open>ParseUint\<close> in base 10: a byte that is no digit is a syntax error, and the
  first step whose value leaves 64 bits a range error, whatever bytes follow.
\<close>

fun parse_uint_loop :: "nat \<Rightarrow> string \<Rightarrow> err + nat" where
  "parse_uint_loop n [] = Inr n"
| "parse_uint_loop n (c # s) =
     (if \<not> is_digit c then Inl ErrSyntax
      else if 10 * n + digit_val c > max_uint64 then Inl ErrRange
      else parse_uint_loop (10 * n + digit_val c) s)"

definition parse_uint :: "string \<Rightarrow> err + nat" where
  "parse_uint s = (if s = [] then Inl ErrSyntax else parse_uint_loop 0 s)"

text \<open>
  The pair holds the value the caller sees and the error.  A syntax error gives value 0, a
  range error the nearest \<^verbatim>\<open>int64\<close>.
\<close>

definition atoi_signed :: "bool \<Rightarrow> string \<Rightarrow> int \<times> err option" where
  "atoi_signed neg s =
     (case parse_uint s of
        Inl ErrRange \<Rightarrow> (if neg then - max_int64 - 1 else max_int64, Some ErrRange)
      | Inl e \<Rightarrow> (0, Some e)
      | Inr n \<Rightarrow>
          (if \<not> neg \<and> int n > max_int64 then (max_int64, Some ErrRange)
           else if neg \<and> int n > max_int64 + 1 then (- max_int64 - 1, Some ErrRange)
           else (if neg then - int n else int n, None)))"

definition Atoi :: "string \<Rightarrow> int \<times> err option" where
  "Atoi s =
     (case s of
        [] \<Rightarrow> (0, Some ErrSyntax)
      | c # t \<Rightarrow>
          if c = CHR ''-'' then atoi_signed True t
          else if c = CHR ''+'' then atoi_signed False t
          else atoi_signed False s)"

lemma Atoi_syntax_zero: "snd (Atoi s) = Some ErrSyntax \<Longrightarrow> fst (Atoi s) = 0"
  by (auto simp: Atoi_def atoi_signed_def split: list.splits sum.splits err.splits if_splits)

lemma parse_uint_loop_digits:
  "(\<And>c. c \<in> set s \<Longrightarrow> is_digit c) \<Longrightarrow> digits_val n s \<le> max_uint64 \<Longrightarrow>
     parse_uint_loop n s = Inr (digits_val n s)"
proof (induction s arbitrary: n)
  case (Cons c s)
  have "10 * n + digit_val c \<le> digits_val n (c # s)"
    by (simp add: digits_val_mono)
  with Cons.prems have "10 * n + digit_val c \<le> max_uint64"
    by (rule_tac order_trans) simp_all
  with Cons show ?case by simp
qed simp

lemma parse_uint_utoa: "n \<le> max_uint64 \<Longrightarrow> parse_uint (utoa n) = Inr n"
  using parse_uint_loop_digits [of "utoa n" 0] by (simp add: parse_uint_def utoa_digits)

lemma Atoi_utoa: "int n \<le> max_int64 \<Longrightarrow> Atoi (utoa n) = (int n, None)"
proof -
  assume n: "int n \<le> max_int64"
  then have "n \<le> max_uint64" by linarith
  then have u: "parse_uint (utoa n) = Inr n" by (rule parse_uint_utoa)
  obtain c t where ct: "utoa n = c # t" by (cases "utoa n") simp_all
  have "is_digit c" using hd_utoa_digit [of n] by (simp add: ct)
  then have "c \<noteq> CHR ''-''" "c \<noteq> CHR ''+''" by (auto simp: is_digit_def)
  then have "Atoi (utoa n) = atoi_signed False (utoa n)" by (simp add: Atoi_def ct)
  then show ?thesis using n by (simp add: atoi_signed_def u)
qed

text \<open>What \<^verbatim>\<open>Atoi\<close> returns, also with an error, fits an \<^verbatim>\<open>int64\<close>.\<close>

lemma atoi_signed_range: "- max_int64 - 1 \<le> fst (atoi_signed neg s) \<and> fst (atoi_signed neg s) \<le> max_int64"
  by (auto simp: atoi_signed_def split: sum.split err.split)

lemma Atoi_range: "- max_int64 - 1 \<le> fst (Atoi s) \<and> fst (Atoi s) \<le> max_int64"
  using atoi_signed_range by (simp add: Atoi_def split: list.split)

lemma Atoi_itoa:
  assumes "- max_int64 - 1 \<le> i" and "i \<le> max_int64"
  shows "Atoi (itoa i) = (i, None)"
proof (cases "i < 0")
  case True
  with assms have "nat (- i) \<le> max_uint64" by linarith
  then have "parse_uint (utoa (nat (- i))) = Inr (nat (- i))" by (rule parse_uint_utoa)
  with True assms show ?thesis by (simp add: itoa_def Atoi_def atoi_signed_def)
next
  case False
  with assms show ?thesis using Atoi_utoa [of "nat i"] by (simp add: itoa_def)
qed

section \<open>\<^verbatim>\<open>strings\<close>\<close>

definition HasPrefix :: "string \<Rightarrow> string \<Rightarrow> bool" where
  "HasPrefix s p \<longleftrightarrow> take (length p) s = p"

definition TrimPrefix :: "string \<Rightarrow> string \<Rightarrow> string" where
  "TrimPrefix s p = (if HasPrefix s p then drop (length p) s else s)"

definition HasSuffix :: "string \<Rightarrow> string \<Rightarrow> bool" where
  "HasSuffix s p \<longleftrightarrow> HasPrefix (rev s) (rev p)"

definition TrimSuffix :: "string \<Rightarrow> string \<Rightarrow> string" where
  "TrimSuffix s p = (if HasSuffix s p then take (length s - length p) s else s)"

primrec Contains :: "string \<Rightarrow> string \<Rightarrow> bool" where
  "Contains [] sub \<longleftrightarrow> sub = []"
| "Contains (c # s) sub \<longleftrightarrow> HasPrefix (c # s) sub \<or> Contains s sub"

definition is_space :: "char \<Rightarrow> bool" where
  "is_space c \<longleftrightarrow> (9 \<le> byte c \<and> byte c \<le> 13) \<or> byte c = 32"

definition TrimSpace :: "string \<Rightarrow> string" where
  "TrimSpace s = rev (dropWhile is_space (rev (dropWhile is_space s)))"

definition ToLower_byte :: "char \<Rightarrow> char" where
  "ToLower_byte c = (if 65 \<le> byte c \<and> byte c \<le> 90 then char_of (byte c + 32) else c)"

definition ToLower :: "string \<Rightarrow> string" where
  "ToLower s = map ToLower_byte s"

fun Join :: "string list \<Rightarrow> string \<Rightarrow> string" where
  "Join [] sep = []"
| "Join [s] sep = s"
| "Join (s # t # ss) sep = s @ sep @ Join (t # ss) sep"

text \<open>\<^verbatim>\<open>strings.Split\<close> with a separator of one byte.\<close>

primrec Split :: "string \<Rightarrow> char \<Rightarrow> string list" where
  "Split [] sep = [[]]"
| "Split (c # s) sep =
     (if c = sep then [] # Split s sep
      else (case Split s sep of [] \<Rightarrow> [[c]] | p # ps \<Rightarrow> (c # p) # ps))"

text \<open>\<^verbatim>\<open>strings.IndexByte\<close>, as the text before and after the first such byte.\<close>

primrec cut_byte :: "char \<Rightarrow> string \<Rightarrow> (string \<times> string) option" where
  "cut_byte sep [] = None"
| "cut_byte sep (c # s) =
     (if c = sep then Some ([], s) else map_option (\<lambda>(a, b). (c # a, b)) (cut_byte sep s))"

lemma HasPrefix_append [simp]: "HasPrefix (p @ s) p"
  by (simp add: HasPrefix_def)

lemma HasPrefix_iff: "HasPrefix s p \<longleftrightarrow> (\<exists>t. s = p @ t)"
  by (metis HasPrefix_def append_take_drop_id append_eq_conv_conj)

lemma TrimPrefix_append [simp]: "TrimPrefix (p @ s) p = s"
  by (simp add: TrimPrefix_def)

lemma Split_nonempty [simp]: "Split s sep \<noteq> []"
  by (induction s) (auto split: list.split)

lemma Split_no_sep: "sep \<notin> set s \<Longrightarrow> Split s sep = [s]"
  by (induction s) auto

lemma Split_append: "sep \<notin> set s \<Longrightarrow> Split (s @ sep # t) sep = s # Split t sep"
  by (induction s) auto

lemma Split_sep: "Split (s @ sep # t) sep = Split s sep @ Split t sep"
proof (induction s)
  case (Cons c s)
  show ?case by (cases "Split s sep") (simp_all add: Cons)
qed simp

lemma Split_Join_concat: "ts \<noteq> [] \<Longrightarrow> Split (Join ts [sep]) sep = concat (map (\<lambda>t. Split t sep) ts)"
  by (induction ts "[sep]" rule: Join.induct) (simp_all add: Split_sep)

lemma Split_Join:
  "ps \<noteq> [] \<Longrightarrow> (\<And>p. p \<in> set ps \<Longrightarrow> sep \<notin> set p) \<Longrightarrow> Split (Join ps [sep]) sep = ps"
  by (induction ps "[sep]" rule: Join.induct) (simp_all add: Split_no_sep Split_append)

lemma cut_byte_append: "sep \<notin> set a \<Longrightarrow> cut_byte sep (a @ sep # b) = Some (a, b)"
  by (induction a) auto

lemma cut_byte_None: "sep \<notin> set a \<Longrightarrow> cut_byte sep a = None"
  by (induction a) auto

lemma ToLower_idem: "ToLower (ToLower s) = ToLower s"
proof -
  have "ToLower_byte (ToLower_byte c) = ToLower_byte c" for c
    by (auto simp: ToLower_byte_def)
  then show ?thesis by (simp add: ToLower_def)
qed

end
