(* ===== verification/FlowEntry.thy ===== *)
theory FlowEntry
  imports GoStrings
begin

text \<open>
  \<^verbatim>\<open>flows/flows.go\<close>: a flow entry, its builder methods and the text \<^verbatim>\<open>ovs-ofctl\<close> reads.  The builder
  methods mutate the receiver and return it; every chain in the repository starts from a fresh
  \<^verbatim>\<open>NewFlow()\<close> that nothing else refers to, so they are functions on the record here.

  The text determines the flow: \<open>parse_flow\<close>, which reads the tokens back, inverts \<open>Flow_String\<close> on
  every flow whose fields hold no separator (\<open>flow_wf\<close>).
\<close>

section \<open>The entry and its builder\<close>

record Flow =
  table :: int
  priority :: int
  protocol :: string
  ipDest :: string
  ipSrc :: string
  arpDest :: string
  arpSrc :: string
  tcpDestPort :: int
  tcpSrcPort :: int
  udpDestPort :: int
  udpSrcPort :: int
  tunDest :: string
  modDlDest :: string
  outPort :: int
  resubmit :: int
  drop_act :: bool
  local_act :: bool
  raw :: string

definition NewFlow :: Flow where
  "NewFlow =
     \<lparr>table = 0, priority = 0, protocol = [], ipDest = [], ipSrc = [], arpDest = [], arpSrc = [],
      tcpDestPort = 0, tcpSrcPort = 0, udpDestPort = 0, udpSrcPort = 0, tunDest = [], modDlDest = [],
      outPort = 0, resubmit = 0, drop_act = False, local_act = False, raw = []\<rparr>"

definition Validate :: "Flow \<Rightarrow> err option" where
  "Validate f = None"

definition WithTable :: "int \<Rightarrow> Flow \<Rightarrow> Flow" where
  "WithTable t f = f\<lparr>table := t\<rparr>"

definition WithPriority :: "int \<Rightarrow> Flow \<Rightarrow> Flow" where
  "WithPriority p f = f\<lparr>priority := p\<rparr>"

definition WithProtocol :: "string \<Rightarrow> Flow \<Rightarrow> Flow" where
  "WithProtocol p f = f\<lparr>protocol := p\<rparr>"

definition WithIPDest :: "string \<Rightarrow> Flow \<Rightarrow> Flow" where
  "WithIPDest ip f = f\<lparr>ipDest := ip\<rparr>"

definition WithIPSrc :: "string \<Rightarrow> Flow \<Rightarrow> Flow" where
  "WithIPSrc ip f = f\<lparr>ipSrc := ip\<rparr>"

definition WithArpDest :: "string \<Rightarrow> Flow \<Rightarrow> Flow" where
  "WithArpDest ip f = f\<lparr>arpDest := ip\<rparr>"

definition WithArpSrc :: "string \<Rightarrow> Flow \<Rightarrow> Flow" where
  "WithArpSrc ip f = f\<lparr>arpSrc := ip\<rparr>"

definition WithTCPSrcPort :: "int \<Rightarrow> Flow \<Rightarrow> Flow" where
  "WithTCPSrcPort p f = f\<lparr>tcpSrcPort := p\<rparr>"

definition WithTCPDestPort :: "int \<Rightarrow> Flow \<Rightarrow> Flow" where
  "WithTCPDestPort p f = f\<lparr>tcpDestPort := p\<rparr>"

definition WithUDPSrcPort :: "int \<Rightarrow> Flow \<Rightarrow> Flow" where
  "WithUDPSrcPort p f = f\<lparr>udpSrcPort := p\<rparr>"

definition WithUDPDestPort :: "int \<Rightarrow> Flow \<Rightarrow> Flow" where
  "WithUDPDestPort p f = f\<lparr>udpDestPort := p\<rparr>"

definition WithRaw :: "string \<Rightarrow> Flow \<Rightarrow> Flow" where
  "WithRaw r f = f\<lparr>raw := r\<rparr>"

definition WithActionModDlDest :: "string \<Rightarrow> Flow \<Rightarrow> Flow" where
  "WithActionModDlDest m f = f\<lparr>modDlDest := m\<rparr>"

definition WithActionTunnelDest :: "string \<Rightarrow> Flow \<Rightarrow> Flow" where
  "WithActionTunnelDest t f = f\<lparr>tunDest := t\<rparr>"

definition WithActionOutputPort :: "int \<Rightarrow> Flow \<Rightarrow> Flow" where
  "WithActionOutputPort p f = f\<lparr>outPort := p\<rparr>"

definition WithActionDrop :: "Flow \<Rightarrow> Flow" where
  "WithActionDrop f = f\<lparr>drop_act := True\<rparr>"

definition WithActionResubmit :: "int \<Rightarrow> Flow \<Rightarrow> Flow" where
  "WithActionResubmit t f = f\<lparr>resubmit := t\<rparr>"

definition WithActionLocal :: "Flow \<Rightarrow> Flow" where
  "WithActionLocal f = f\<lparr>local_act := True\<rparr>"

lemmas builder_defs =
  NewFlow_def WithTable_def WithPriority_def WithProtocol_def WithIPDest_def WithIPSrc_def
  WithArpDest_def WithArpSrc_def WithTCPSrcPort_def WithTCPDestPort_def WithUDPSrcPort_def
  WithUDPDestPort_def WithRaw_def WithActionModDlDest_def WithActionTunnelDest_def
  WithActionOutputPort_def WithActionDrop_def WithActionResubmit_def WithActionLocal_def

section \<open>The text\<close>

definition Flow_String :: "Flow \<Rightarrow> string" where
  "Flow_String f =
     (if raw f \<noteq> [] then raw f
      else
        let flow = ''table='' @ itoa (table f) @ '' '' @ ''priority='' @ itoa (priority f);
            flow = (if protocol f \<noteq> [] then flow @ '' '' @ protocol f else flow);
            flow = (if ipDest f \<noteq> [] then flow @ '' '' @ (''nw_dst='' @ ipDest f) else flow);
            flow = (if ipSrc f \<noteq> [] then flow @ '' '' @ (''nw_src='' @ ipSrc f) else flow);
            flow = (if arpDest f \<noteq> [] then flow @ '' '' @ (''arp_tpa='' @ arpDest f) else flow);
            flow = (if arpSrc f \<noteq> [] then flow @ '' '' @ (''arp_spa='' @ arpSrc f) else flow);
            flow = (if tcpDestPort f \<noteq> 0 then flow @ '' '' @ (''tcp_dst='' @ itoa (tcpDestPort f)) else flow);
            flow = (if tcpSrcPort f \<noteq> 0 then flow @ '' '' @ (''tcp_src='' @ itoa (tcpSrcPort f)) else flow);
            flow = (if udpDestPort f \<noteq> 0 then flow @ '' '' @ (''udp_dst='' @ itoa (udpDestPort f)) else flow);
            flow = (if udpSrcPort f \<noteq> 0 then flow @ '' '' @ (''udp_src='' @ itoa (udpSrcPort f)) else flow);
            actionSet = [];
            actionSet = (if modDlDest f \<noteq> [] then actionSet @ [''mod_dl_dst:'' @ modDlDest f] else actionSet);
            actionSet = (if tunDest f \<noteq> [] then actionSet @ [''set_field:'' @ tunDest f @ ''->tun_dst''] else actionSet);
            actionSet = (if outPort f \<noteq> 0 then actionSet @ [''output:'' @ itoa (outPort f)] else actionSet);
            actionSet = (if resubmit f \<noteq> 0 then actionSet @ [''resubmit(,'' @ itoa (resubmit f) @ '')''] else actionSet);
            actionSet = (if drop_act f then actionSet @ [''drop''] else actionSet);
            actionSet = (if local_act f then actionSet @ [''local''] else actionSet);
            actions = ''actions='' @ Join actionSet '',''
        in flow @ '' '' @ actions)"

section \<open>Reading the text back\<close>

definition parse_action :: "string \<Rightarrow> Flow \<Rightarrow> Flow" where
  "parse_action t f =
     (if HasPrefix t ''mod_dl_dst:'' then f\<lparr>modDlDest := TrimPrefix t ''mod_dl_dst:''\<rparr>
      else if HasPrefix t ''set_field:''
        then f\<lparr>tunDest := TrimSuffix (TrimPrefix t ''set_field:'') ''->tun_dst''\<rparr>
      else if HasPrefix t ''output:'' then f\<lparr>outPort := fst (Atoi (TrimPrefix t ''output:''))\<rparr>
      else if t = ''resubmit('' \<or> t = [] then f
      else if t = ''drop'' then f\<lparr>drop_act := True\<rparr>
      else if t = ''local'' then f\<lparr>local_act := True\<rparr>
      else f\<lparr>resubmit := fst (Atoi (butlast t))\<rparr>)"

definition parse_token :: "string \<Rightarrow> Flow \<Rightarrow> Flow" where
  "parse_token t f =
     (case cut_byte CHR ''='' t of
        None \<Rightarrow> f\<lparr>protocol := t\<rparr>
      | Some (k, v) \<Rightarrow>
          if k = ''table'' then f\<lparr>table := fst (Atoi v)\<rparr>
          else if k = ''priority'' then f\<lparr>priority := fst (Atoi v)\<rparr>
          else if k = ''nw_dst'' then f\<lparr>ipDest := v\<rparr>
          else if k = ''nw_src'' then f\<lparr>ipSrc := v\<rparr>
          else if k = ''arp_tpa'' then f\<lparr>arpDest := v\<rparr>
          else if k = ''arp_spa'' then f\<lparr>arpSrc := v\<rparr>
          else if k = ''tcp_dst'' then f\<lparr>tcpDestPort := fst (Atoi v)\<rparr>
          else if k = ''tcp_src'' then f\<lparr>tcpSrcPort := fst (Atoi v)\<rparr>
          else if k = ''udp_dst'' then f\<lparr>udpDestPort := fst (Atoi v)\<rparr>
          else if k = ''udp_src'' then f\<lparr>udpSrcPort := fst (Atoi v)\<rparr>
          else fold parse_action (Split v CHR '','') f)"

definition parse_flow :: "string \<Rightarrow> Flow" where
  "parse_flow s = fold parse_token (Split s CHR '' '') NewFlow"

definition int64 :: "int \<Rightarrow> bool" where
  "int64 i \<longleftrightarrow> - max_int64 - 1 \<le> i \<and> i \<le> max_int64"

definition plain :: "string \<Rightarrow> bool" where
  "plain s \<longleftrightarrow> CHR '' '' \<notin> set s \<and> CHR '','' \<notin> set s \<and> CHR 0x0A \<notin> set s"

definition flow_wf :: "Flow \<Rightarrow> bool" where
  "flow_wf f \<longleftrightarrow>
     raw f = [] \<and> (\<forall>i\<in>{table f, priority f, tcpDestPort f, tcpSrcPort f, udpDestPort f, udpSrcPort f,
       outPort f, resubmit f}. int64 i) \<and>
     (\<forall>s\<in>{protocol f, ipDest f, ipSrc f, arpDest f, arpSrc f, tunDest f, modDlDest f}. plain s) \<and>
     CHR ''='' \<notin> set (protocol f)"

section \<open>The text as tokens\<close>

definition opt_token :: "bool \<Rightarrow> string \<Rightarrow> string list" where
  "opt_token b t = (if b then [t] else [])"

definition match_tokens :: "Flow \<Rightarrow> string list" where
  "match_tokens f =
     (let ts = [''table='' @ itoa (table f), ''priority='' @ itoa (priority f)];
          ts = ts @ opt_token (protocol f \<noteq> []) (protocol f);
          ts = ts @ opt_token (ipDest f \<noteq> []) (''nw_dst='' @ ipDest f);
          ts = ts @ opt_token (ipSrc f \<noteq> []) (''nw_src='' @ ipSrc f);
          ts = ts @ opt_token (arpDest f \<noteq> []) (''arp_tpa='' @ arpDest f);
          ts = ts @ opt_token (arpSrc f \<noteq> []) (''arp_spa='' @ arpSrc f);
          ts = ts @ opt_token (tcpDestPort f \<noteq> 0) (''tcp_dst='' @ itoa (tcpDestPort f));
          ts = ts @ opt_token (tcpSrcPort f \<noteq> 0) (''tcp_src='' @ itoa (tcpSrcPort f));
          ts = ts @ opt_token (udpDestPort f \<noteq> 0) (''udp_dst='' @ itoa (udpDestPort f));
          ts = ts @ opt_token (udpSrcPort f \<noteq> 0) (''udp_src='' @ itoa (udpSrcPort f))
      in ts)"

definition action_tokens :: "Flow \<Rightarrow> string list" where
  "action_tokens f =
     (let ts = [];
          ts = ts @ opt_token (modDlDest f \<noteq> []) (''mod_dl_dst:'' @ modDlDest f);
          ts = ts @ opt_token (tunDest f \<noteq> []) (''set_field:'' @ tunDest f @ ''->tun_dst'');
          ts = ts @ opt_token (outPort f \<noteq> 0) (''output:'' @ itoa (outPort f));
          ts = ts @ opt_token (resubmit f \<noteq> 0) (''resubmit(,'' @ itoa (resubmit f) @ '')'');
          ts = ts @ opt_token (drop_act f) (''drop'');
          ts = ts @ opt_token (local_act f) (''local'')
      in ts)"

lemma Join_snoc: "ss \<noteq> [] \<Longrightarrow> Join (ss @ [t]) sep = Join ss sep @ sep @ t"
proof (induction ss sep rule: Join.induct)
  case (3 s t' ss sep)
  then show ?case by (cases ss) simp_all
qed simp_all

lemma Join_opt_token:
  "ss \<noteq> [] \<Longrightarrow> (if b then Join ss sep @ sep @ t else Join ss sep) = Join (ss @ opt_token b t) sep"
  by (simp add: opt_token_def Join_snoc)

lemma opt_token_if: "(if b then xs @ [t] else xs) = xs @ opt_token b t"
  by (simp add: opt_token_def)

lemma Flow_String_tokens:
  assumes "raw f = []"
  shows "Flow_String f = Join (match_tokens f @ [''actions='' @ Join (action_tokens f) '','']) '' ''"
proof -
  have start: "''table='' @ a @ '' '' @ ''priority='' @ b = Join [''table='' @ a, ''priority='' @ b] '' ''" for a b
    by simp
  show ?thesis
    using assms
    by (simp only: Flow_String_def match_tokens_def action_tokens_def Let_def start opt_token_if
        Join_opt_token Join_snoc list.distinct append_is_Nil_conv simp_thms if_False)
qed

text \<open>Reading one token sets one field.\<close>

definition parse_act_token :: "string \<Rightarrow> Flow \<Rightarrow> Flow" where
  "parse_act_token t = fold parse_action (Split t CHR '','')"

lemma parse_token_simps:
  "parse_token (''table='' @ v) g = g\<lparr>table := fst (Atoi v)\<rparr>"
  "parse_token (''priority='' @ v) g = g\<lparr>priority := fst (Atoi v)\<rparr>"
  "parse_token (''nw_dst='' @ v) g = g\<lparr>ipDest := v\<rparr>"
  "parse_token (''nw_src='' @ v) g = g\<lparr>ipSrc := v\<rparr>"
  "parse_token (''arp_tpa='' @ v) g = g\<lparr>arpDest := v\<rparr>"
  "parse_token (''arp_spa='' @ v) g = g\<lparr>arpSrc := v\<rparr>"
  "parse_token (''tcp_dst='' @ v) g = g\<lparr>tcpDestPort := fst (Atoi v)\<rparr>"
  "parse_token (''tcp_src='' @ v) g = g\<lparr>tcpSrcPort := fst (Atoi v)\<rparr>"
  "parse_token (''udp_dst='' @ v) g = g\<lparr>udpDestPort := fst (Atoi v)\<rparr>"
  "parse_token (''udp_src='' @ v) g = g\<lparr>udpSrcPort := fst (Atoi v)\<rparr>"
  "CHR ''='' \<notin> set p \<Longrightarrow> parse_token p g = g\<lparr>protocol := p\<rparr>"
  "parse_token (''actions='' @ v) g = fold parse_action (Split v CHR '','') g"
  by (simp_all add: parse_token_def cut_byte_None)

lemma Atoi_itoa_int64 [simp]: "int64 i \<Longrightarrow> fst (Atoi (itoa i)) = i"
  by (simp add: int64_def Atoi_itoa)

lemma hd_itoa: "hd (itoa i) = CHR ''-'' \<or> is_digit (hd (itoa i))"
  by (simp add: itoa_def hd_utoa_digit)

lemma parse_action_resubmit:
  assumes "int64 r"
  shows "parse_action (itoa r @ '')'') g = g\<lparr>resubmit := r\<rparr>"
proof -
  obtain c s where cs: "itoa r = c # s" using itoa_nonempty [of r] by (cases "itoa r") blast+
  then have c: "c = CHR ''-'' \<or> is_digit c" using hd_itoa [of r] by simp
  then have "c \<notin> {CHR ''m'', CHR ''s'', CHR ''o'', CHR ''r'', CHR ''d'', CHR ''l''}"
    by (auto simp: is_digit_def)
  then have "parse_action (c # (s @ '')'')) g = g\<lparr>resubmit := fst (Atoi (butlast (c # (s @ '')''))))\<rparr>"
    by (simp add: parse_action_def HasPrefix_def)
  also have "butlast (c # (s @ '')'')) = itoa r" by (simp add: cs butlast_append)
  finally show ?thesis using assms by (simp add: cs del: Atoi_itoa_int64) (simp add: cs [symmetric])
qed

lemma parse_act_token_simps:
  "plain m \<Longrightarrow> parse_act_token (''mod_dl_dst:'' @ m) g = g\<lparr>modDlDest := m\<rparr>"
  "plain m \<Longrightarrow> parse_act_token (''set_field:'' @ m @ ''->tun_dst'') g = g\<lparr>tunDest := m\<rparr>"
  "int64 i \<Longrightarrow> parse_act_token (''output:'' @ itoa i) g = g\<lparr>outPort := i\<rparr>"
  "int64 i \<Longrightarrow> parse_act_token (''resubmit(,'' @ itoa i @ '')'') g = g\<lparr>resubmit := i\<rparr>"
  "parse_act_token ''drop'' g = g\<lparr>drop_act := True\<rparr>"
  "parse_act_token ''local'' g = g\<lparr>local_act := True\<rparr>"
proof -
  have comma: "CHR '','' \<notin> set (itoa i)" for i by (simp add: itoa_no is_digit_def)
  show "plain m \<Longrightarrow> parse_act_token (''mod_dl_dst:'' @ m) g = g\<lparr>modDlDest := m\<rparr>"
    by (simp add: parse_act_token_def Split_no_sep plain_def parse_action_def HasPrefix_def TrimPrefix_def)
  have suffix: "TrimSuffix (m @ ''->tun_dst'') ''->tun_dst'' = m"
    by (simp add: TrimSuffix_def HasSuffix_def HasPrefix_def)
  show "plain m \<Longrightarrow> parse_act_token (''set_field:'' @ m @ ''->tun_dst'') g = g\<lparr>tunDest := m\<rparr>"
    using suffix
    by (simp add: parse_act_token_def Split_no_sep plain_def parse_action_def HasPrefix_def TrimPrefix_def)
  show "int64 i \<Longrightarrow> parse_act_token (''output:'' @ itoa i) g = g\<lparr>outPort := i\<rparr>"
    by (simp add: parse_act_token_def Split_no_sep comma parse_action_def HasPrefix_def TrimPrefix_def)
  have "Split (''resubmit(,'' @ itoa i @ '')'') CHR '','' = [''resubmit('', itoa i @ '')'']"
    by (simp add: Split_no_sep comma)
  then show "int64 i \<Longrightarrow> parse_act_token (''resubmit(,'' @ itoa i @ '')'') g = g\<lparr>resubmit := i\<rparr>"
    by (simp add: parse_act_token_def parse_action_resubmit)
      (simp add: parse_action_def HasPrefix_def)
qed (simp_all add: parse_act_token_def parse_action_def HasPrefix_def)

lemma itoa_plain [simp]: "plain (itoa i)"
  by (simp add: plain_def itoa_no is_digit_def)

lemma fold_opt_token: "fold f (opt_token b t) g = (if b then f t g else g)"
  by (simp add: opt_token_def)

lemma flow_wfD:
  assumes "flow_wf f"
  shows "raw f = []"
    and "int64 (table f)" "int64 (priority f)" "int64 (tcpDestPort f)" "int64 (tcpSrcPort f)"
      "int64 (udpDestPort f)" "int64 (udpSrcPort f)" "int64 (outPort f)" "int64 (resubmit f)"
    and "plain (protocol f)" "plain (ipDest f)" "plain (ipSrc f)" "plain (arpDest f)" "plain (arpSrc f)"
      "plain (tunDest f)" "plain (modDlDest f)" and "CHR ''='' \<notin> set (protocol f)"
  using assms by (simp_all add: flow_wf_def)

text \<open>An optional token that is left out is one whose field has its zero value.\<close>

lemma match_stages:
  assumes "flow_wf f"
  shows
  "protocol g = [] \<Longrightarrow> fold parse_token (opt_token (protocol f \<noteq> []) (protocol f)) g = g\<lparr>protocol := protocol f\<rparr>"
  "ipDest g = [] \<Longrightarrow> fold parse_token (opt_token (ipDest f \<noteq> []) (''nw_dst='' @ ipDest f)) g = g\<lparr>ipDest := ipDest f\<rparr>"
  "ipSrc g = [] \<Longrightarrow> fold parse_token (opt_token (ipSrc f \<noteq> []) (''nw_src='' @ ipSrc f)) g = g\<lparr>ipSrc := ipSrc f\<rparr>"
  "arpDest g = [] \<Longrightarrow> fold parse_token (opt_token (arpDest f \<noteq> []) (''arp_tpa='' @ arpDest f)) g = g\<lparr>arpDest := arpDest f\<rparr>"
  "arpSrc g = [] \<Longrightarrow> fold parse_token (opt_token (arpSrc f \<noteq> []) (''arp_spa='' @ arpSrc f)) g = g\<lparr>arpSrc := arpSrc f\<rparr>"
  "tcpDestPort g = 0 \<Longrightarrow> fold parse_token (opt_token (tcpDestPort f \<noteq> 0) (''tcp_dst='' @ itoa (tcpDestPort f))) g = g\<lparr>tcpDestPort := tcpDestPort f\<rparr>"
  "tcpSrcPort g = 0 \<Longrightarrow> fold parse_token (opt_token (tcpSrcPort f \<noteq> 0) (''tcp_src='' @ itoa (tcpSrcPort f))) g = g\<lparr>tcpSrcPort := tcpSrcPort f\<rparr>"
  "udpDestPort g = 0 \<Longrightarrow> fold parse_token (opt_token (udpDestPort f \<noteq> 0) (''udp_dst='' @ itoa (udpDestPort f))) g = g\<lparr>udpDestPort := udpDestPort f\<rparr>"
  "udpSrcPort g = 0 \<Longrightarrow> fold parse_token (opt_token (udpSrcPort f \<noteq> 0) (''udp_src='' @ itoa (udpSrcPort f))) g = g\<lparr>udpSrcPort := udpSrcPort f\<rparr>"
  by (cases g; use flow_wfD [OF assms] in \<open>simp add: fold_opt_token parse_token_simps del: append.append_Cons\<close>)+

lemma action_stages:
  assumes "flow_wf f"
  shows
  "modDlDest g = [] \<Longrightarrow> fold parse_act_token (opt_token (modDlDest f \<noteq> []) (''mod_dl_dst:'' @ modDlDest f)) g = g\<lparr>modDlDest := modDlDest f\<rparr>"
  "tunDest g = [] \<Longrightarrow> fold parse_act_token (opt_token (tunDest f \<noteq> []) (''set_field:'' @ tunDest f @ ''->tun_dst'')) g = g\<lparr>tunDest := tunDest f\<rparr>"
  "outPort g = 0 \<Longrightarrow> fold parse_act_token (opt_token (outPort f \<noteq> 0) (''output:'' @ itoa (outPort f))) g = g\<lparr>outPort := outPort f\<rparr>"
  "resubmit g = 0 \<Longrightarrow> fold parse_act_token (opt_token (resubmit f \<noteq> 0) (''resubmit(,'' @ itoa (resubmit f) @ '')'')) g = g\<lparr>resubmit := resubmit f\<rparr>"
  "\<not> drop_act g \<Longrightarrow> fold parse_act_token (opt_token (drop_act f) (''drop'')) g = g\<lparr>drop_act := drop_act f\<rparr>"
  "\<not> local_act g \<Longrightarrow> fold parse_act_token (opt_token (local_act f) (''local'')) g = g\<lparr>local_act := local_act f\<rparr>"
  by (cases g; use flow_wfD [OF assms] in \<open>simp add: fold_opt_token parse_act_token_simps del: append.append_Cons\<close>)+

lemma fold_match_tokens:
  assumes "flow_wf f"
  shows "fold parse_token (match_tokens f) NewFlow =
    NewFlow\<lparr>table := table f, priority := priority f, protocol := protocol f, ipDest := ipDest f,
      ipSrc := ipSrc f, arpDest := arpDest f, arpSrc := arpSrc f, tcpDestPort := tcpDestPort f,
      tcpSrcPort := tcpSrcPort f, udpDestPort := udpDestPort f, udpSrcPort := udpSrcPort f\<rparr>"
proof -
  have "fold parse_token [''table='' @ itoa (table f), ''priority='' @ itoa (priority f)] NewFlow =
      NewFlow\<lparr>table := table f, priority := priority f\<rparr>"
    using flow_wfD [OF assms] by (simp only: fold.simps comp_apply id_apply parse_token_simps Atoi_itoa_int64)
  then show ?thesis
    by (simp add: match_tokens_def Let_def match_stages [OF assms] NewFlow_def del: append.append_Cons fold.simps)
qed

lemma action_tokens_plain:
  assumes "flow_wf f" and "t \<in> set (match_tokens f) \<or> t \<in> set (action_tokens f)"
  shows "CHR '' '' \<notin> set t" "CHR 0x0A \<notin> set t"
  using assms(2) flow_wfD [OF assms(1)]
  by (auto simp: match_tokens_def action_tokens_def opt_token_def Let_def plain_def itoa_no is_digit_def
      split: if_splits)

lemma fold_action_tokens:
  assumes "flow_wf f" and "modDlDest g = []" "tunDest g = []" "outPort g = 0" "resubmit g = 0"
    "\<not> drop_act g" "\<not> local_act g"
  shows "fold parse_act_token (action_tokens f) g =
    g\<lparr>modDlDest := modDlDest f, tunDest := tunDest f, outPort := outPort f, resubmit := resubmit f,
      drop_act := drop_act f, local_act := local_act f\<rparr>"
  using assms(2-)
  by (simp add: action_tokens_def Let_def action_stages [OF assms(1)] del: append.append_Cons)

theorem parse_flow_Flow_String:
  assumes "flow_wf f"
  shows "parse_flow (Flow_String f) = f"
proof -
  let ?acts = "Join (action_tokens f) '',''"
  have clean: "CHR '' '' \<notin> set t" if "t \<in> set (match_tokens f @ [''actions='' @ ?acts])" for t
  proof -
    have "CHR '' '' \<notin> set (Join ts '','')" if "\<forall>t\<in>set ts. CHR '' '' \<notin> set t" for ts
      using that by (induction ts "'',''" rule: Join.induct) auto
    with action_tokens_plain [OF assms] have "CHR '' '' \<notin> set ?acts" by blast
    with that action_tokens_plain [OF assms] show ?thesis by auto
  qed
  have "Split (Flow_String f) CHR '' '' = match_tokens f @ [''actions='' @ ?acts]"
    unfolding Flow_String_tokens [OF flow_wfD(1) [OF assms]]
    by (rule Split_Join) (use clean in auto)
  then have "parse_flow (Flow_String f) =
      fold parse_action (Split ?acts CHR '','') (fold parse_token (match_tokens f) NewFlow)"
    by (simp only: parse_flow_def fold_append comp_apply fold.simps parse_token_simps id_apply)
  also have "\<dots> = fold parse_act_token (action_tokens f) (fold parse_token (match_tokens f) NewFlow)"
  proof (cases "action_tokens f = []")
    case True
    then show ?thesis by (simp add: parse_action_def HasPrefix_def)
  next
    case False
    then have "Split ?acts CHR '','' = concat (map (\<lambda>t. Split t CHR '','') (action_tokens f))"
      by (rule Split_Join_concat)
    moreover have "fold parse_action (concat (map (\<lambda>t. Split t CHR '','') ts)) g = fold parse_act_token ts g" for ts g
      by (induction ts arbitrary: g) (simp_all add: parse_act_token_def)
    ultimately show ?thesis by simp
  qed
  also have "\<dots> = f"
    unfolding fold_match_tokens [OF assms]
    by (subst fold_action_tokens [OF assms])
      (use flow_wfD(1) [OF assms] in \<open>cases f; simp add: NewFlow_def\<close>)+
  finally show ?thesis .
qed

lemma Flow_String_inject:
  "flow_wf f \<Longrightarrow> flow_wf g \<Longrightarrow> Flow_String f = Flow_String g \<Longrightarrow> f = g"
  using parse_flow_Flow_String by metis

lemma Join_free: "\<forall>t\<in>set ts. c \<notin> set t \<Longrightarrow> c \<notin> set sep \<Longrightarrow> c \<notin> set (Join ts sep)"
  by (induction ts sep rule: Join.induct) auto

lemma Flow_String_one_line:
  assumes "flow_wf f"
  shows "CHR 0x0A \<notin> set (Flow_String f)"
proof -
  have "CHR 0x0A \<notin> set (Join (action_tokens f) '','')"
    using action_tokens_plain(2) [OF assms] by (intro Join_free) auto
  then show ?thesis
    unfolding Flow_String_tokens [OF flow_wfD(1) [OF assms]]
    using action_tokens_plain(2) [OF assms] by (intro Join_free) auto
qed

end
