(* ===== verification/FlowTable.thy ===== *)
theory FlowTable
  imports FlowEntry
begin

text \<open>
  The meaning of flow entries, as far as the repository's flows use it: an OpenFlow 1.3 table picks,
  among the entries that match a packet, those of the highest priority.  A field whose text is
  omitted (see \<^const>\<open>Flow_String\<close>) matches everything.  How the switch reads the text of an address
  is not part of the repository: \<open>nw s a\<close> (the text \<open>s\<close> covers the address \<open>a\<close>) is a parameter.

  When several entries of the highest priority match, OpenFlow leaves open which one is taken;
  \<open>lookup\<close> returns them all, and the properties speak of each of them.
\<close>

section \<open>Packets and matching\<close>

datatype l4 = TCP int int | UDP int int | OtherIP

datatype 'a packet = IP (src: 'a) (dst: 'a) (l4_of: l4) | ARP 'a | OtherEth

definition field :: "(string \<Rightarrow> 'a \<Rightarrow> bool) \<Rightarrow> string \<Rightarrow> 'a \<Rightarrow> bool" where
  "field nw s a \<longleftrightarrow> s = [] \<or> nw s a"

definition port_match :: "int \<Rightarrow> int \<Rightarrow> bool" where
  "port_match p n \<longleftrightarrow> p = 0 \<or> p = n"

definition l4_match :: "Flow \<Rightarrow> l4 \<Rightarrow> bool" where
  "l4_match f l =
     (case l of
        TCP sp dp \<Rightarrow> protocol f \<noteq> ''udp'' \<and> port_match (tcpSrcPort f) sp \<and> port_match (tcpDestPort f) dp
          \<and> udpSrcPort f = 0 \<and> udpDestPort f = 0
      | UDP sp dp \<Rightarrow> protocol f \<noteq> ''tcp'' \<and> port_match (udpSrcPort f) sp \<and> port_match (udpDestPort f) dp
          \<and> tcpSrcPort f = 0 \<and> tcpDestPort f = 0
      | OtherIP \<Rightarrow> protocol f \<noteq> ''tcp'' \<and> protocol f \<noteq> ''udp'' \<and> tcpSrcPort f = 0 \<and> tcpDestPort f = 0
          \<and> udpSrcPort f = 0 \<and> udpDestPort f = 0)"

definition no_ip_fields :: "Flow \<Rightarrow> bool" where
  "no_ip_fields f \<longleftrightarrow> ipDest f = [] \<and> ipSrc f = [] \<and> tcpDestPort f = 0 \<and> tcpSrcPort f = 0
     \<and> udpDestPort f = 0 \<and> udpSrcPort f = 0"

text \<open>The raw entries are the ARP replies; they match no packet here.\<close>

definition flow_matches :: "(string \<Rightarrow> 'a \<Rightarrow> bool) \<Rightarrow> Flow \<Rightarrow> 'a packet \<Rightarrow> bool" where
  "flow_matches nw f pkt \<longleftrightarrow> raw f = [] \<and>
     (case pkt of
        IP s d l \<Rightarrow> protocol f \<noteq> ''arp'' \<and> field nw (ipSrc f) s \<and> field nw (ipDest f) d \<and> l4_match f l
          \<and> arpDest f = [] \<and> arpSrc f = []
      | ARP a \<Rightarrow> protocol f \<in> {'''', ''arp''} \<and> no_ip_fields f \<and> field nw (arpDest f) a \<and> arpSrc f = []
      | OtherEth \<Rightarrow> protocol f = '''' \<and> no_ip_fields f \<and> arpDest f = [] \<and> arpSrc f = [])"

section \<open>A table\<close>

definition hits :: "(string \<Rightarrow> 'a \<Rightarrow> bool) \<Rightarrow> Flow list \<Rightarrow> int \<Rightarrow> 'a packet \<Rightarrow> Flow list" where
  "hits nw fs t pkt = filter (\<lambda>f. table f = t \<and> flow_matches nw f pkt) fs"

definition lookup :: "(string \<Rightarrow> 'a \<Rightarrow> bool) \<Rightarrow> Flow list \<Rightarrow> int \<Rightarrow> 'a packet \<Rightarrow> Flow list" where
  "lookup nw fs t pkt =
     (let hs = hits nw fs t pkt in filter (\<lambda>f. list_all (\<lambda>g. priority g \<le> priority f) hs) hs)"

lemma hits_iff: "f \<in> set (hits nw fs t pkt) \<longleftrightarrow> f \<in> set fs \<and> table f = t \<and> flow_matches nw f pkt"
  by (simp add: hits_def)

lemma lookup_iff:
  "f \<in> set (lookup nw fs t pkt) \<longleftrightarrow>
     f \<in> set (hits nw fs t pkt) \<and> (\<forall>g\<in>set (hits nw fs t pkt). priority g \<le> priority f)"
  by (simp add: lookup_def Let_def list_all_iff)

lemma lookup_hit: "f \<in> set (lookup nw fs t pkt) \<Longrightarrow> f \<in> set fs \<and> table f = t \<and> flow_matches nw f pkt"
  by (simp add: lookup_iff hits_iff)

text \<open>A table with a matching entry answers.\<close>

lemma lookup_nonempty:
  assumes "hits nw fs t pkt \<noteq> []"
  shows "lookup nw fs t pkt \<noteq> []"
proof -
  let ?hs = "set (hits nw fs t pkt)"
  have fin: "finite (priority ` ?hs)" and ne: "priority ` ?hs \<noteq> {}" using assms by simp_all
  from Max_in [OF fin ne] obtain f where "f \<in> ?hs" "priority f = Max (priority ` ?hs)"
    by (metis imageE)
  with fin have "f \<in> set (lookup nw fs t pkt)"
    by (auto simp: lookup_iff)
  then show ?thesis by (metis list.distinct(1) list.set_cases)
qed

text \<open>The answer, from a matching entry that no matching entry exceeds.\<close>

lemma lookup_top:
  assumes "f \<in> set (hits nw fs t pkt)" and "\<And>g. g \<in> set (hits nw fs t pkt) \<Longrightarrow> priority g \<le> priority f"
  shows "g \<in> set (lookup nw fs t pkt) \<longleftrightarrow> g \<in> set (hits nw fs t pkt) \<and> priority g = priority f"
  using assms by (force simp: lookup_iff)

lemma lookup_at_least:
  assumes "f \<in> set (hits nw fs t pkt)" and "g \<in> set (lookup nw fs t pkt)"
  shows "priority f \<le> priority g"
  using assms by (simp add: lookup_iff)

end
