(* ===== verification/GoExec.thy ===== *)
theory GoExec
  imports Prelude
begin

text \<open>
  \<^verbatim>\<open>os/exec\<close> as the repository uses it.  The programs it starts (\<^verbatim>\<open>ovs-vsctl\<close>, \<^verbatim>\<open>ovs-ofctl\<close>) are not
  part of the repository: what they answer is a parameter \<open>os\<close> of every operation that starts one,
  and the operation returns the commands it started, in order, as the trace of its effects.
  \<^verbatim>\<open>Output\<close> yields standard output, \<^verbatim>\<open>CombinedOutput\<close> standard output and error.
\<close>

record command =
  program :: string
  args :: "string list"
  stdin :: string

record os =
  StdinPipe :: "err option"
  Output :: "command \<Rightarrow> err + string"
  CombinedOutput :: "command \<Rightarrow> err + string"

end
