(* ===== verification/FlowsBuffer.thy ===== *)
theory FlowsBuffer
  imports FlowEntry GoExec
begin

text \<open>
  \<^verbatim>\<open>flows/buffer.go\<close>: the text of all flows of one synchronisation and the command that replaces the
  bridge's flows by it.  Adding flows is an \<^const>\<open>output_sink\<close>; the lines of the text are the texts of
  the flows added since the last reset, in order, so for well-formed flows the flows themselves can
  be read back from it.
\<close>

section \<open>The buffer\<close>

record FlowsBuffer =
  buffer :: string

definition NewFlowsBuffer :: FlowsBuffer where
  "NewFlowsBuffer = \<lparr>buffer = []\<rparr>"

definition AddFlow :: "Flow \<Rightarrow> FlowsBuffer \<Rightarrow> FlowsBuffer" where
  "AddFlow flow b = b\<lparr>buffer := (buffer b @ Flow_String flow) @ [CHR 0x0A]\<rparr>"

definition Buffer_String :: "FlowsBuffer \<Rightarrow> string" where
  "Buffer_String b = buffer b"

definition Reset :: "FlowsBuffer \<Rightarrow> FlowsBuffer" where
  "Reset b = b\<lparr>buffer := []\<rparr>"

text \<open>
  \<^verbatim>\<open>SyncFlows\<close> pipes the buffer to \<^verbatim>\<open>ovs-ofctl replace-flows\<close>.  The second component is the trace of
  the commands it started.
\<close>

definition replace_flows :: "string \<Rightarrow> FlowsBuffer \<Rightarrow> command" where
  "replace_flows bridge b =
     \<lparr>program = ''ovs-ofctl'', args = [''-O'', ''OpenFlow13'', ''replace-flows'', bridge, ''-''],
      stdin = buffer b\<rparr>"

definition Buffer_SyncFlows :: "os \<Rightarrow> string \<Rightarrow> FlowsBuffer \<Rightarrow> (err + unit) \<times> command list" where
  "Buffer_SyncFlows env bridge b =
     (case StdinPipe env of
        Some e \<Rightarrow> (Inl (Errorf ''error creating stdin pipe'' e), [])
      | None \<Rightarrow>
          (case CombinedOutput env (replace_flows bridge b) of
             Inl e \<Rightarrow> (Inl (Errorf ''failed to sync flows'' e), [replace_flows bridge b])
           | Inr out \<Rightarrow> (Inr (), [replace_flows bridge b])))"

section \<open>The text is the lines of the flows\<close>

definition flow_line :: "Flow \<Rightarrow> string" where
  "flow_line f = Flow_String f @ [CHR 0x0A]"

definition add_flows :: "Flow list \<Rightarrow> FlowsBuffer \<Rightarrow> FlowsBuffer" where
  "add_flows fs b = fold AddFlow fs b"

interpretation buf: output_sink add_flows
  by unfold_locales (simp_all add: add_flows_def)

lemma add_flows_single [simp]: "add_flows [f] b = AddFlow f b"
  by (simp add: add_flows_def)

lemma buffer_add_flows: "buffer (add_flows fs b) = buffer b @ concat (map flow_line fs)"
  by (induction fs arbitrary: b) (simp_all add: add_flows_def AddFlow_def flow_line_def)

lemma Reset_forgets: "Reset b = NewFlowsBuffer"
  by (simp add: Reset_def NewFlowsBuffer_def)

lemma lines_of_flows:
  "(\<And>f. f \<in> set fs \<Longrightarrow> CHR 0x0A \<notin> set (Flow_String f)) \<Longrightarrow>
     Split (concat (map flow_line fs)) CHR 0x0A = map Flow_String fs @ [[]]"
  by (induction fs) (simp_all add: flow_line_def Split_append)

lemma buffer_lines:
  assumes "\<And>f. f \<in> set fs \<Longrightarrow> CHR 0x0A \<notin> set (Flow_String f)"
  shows "Split (Buffer_String (add_flows fs (Reset b))) CHR 0x0A = map Flow_String fs @ [[]]"
  using lines_of_flows [OF assms]
  by (simp add: Buffer_String_def buffer_add_flows Reset_forgets NewFlowsBuffer_def)

lemma Buffer_SyncFlows_command:
  "StdinPipe env = None \<Longrightarrow> snd (Buffer_SyncFlows env bridge b) = [replace_flows bridge b]"
  by (simp add: Buffer_SyncFlows_def split: sum.split)

theorem buffer_is_its_flows:
  assumes "\<And>f. f \<in> set fs \<Longrightarrow> flow_wf f"
  shows "Split (Buffer_String (fold AddFlow fs (Reset b))) CHR 0x0A = map Flow_String fs @ [[]] \<and>
    map parse_flow (butlast (Split (Buffer_String (fold AddFlow fs (Reset b))) CHR 0x0A)) = fs"
proof -
  have "Split (Buffer_String (add_flows fs (Reset b))) CHR 0x0A = map Flow_String fs @ [[]]"
    by (rule buffer_lines) (rule Flow_String_one_line [OF assms])
  moreover have "map (parse_flow \<circ> Flow_String) fs = fs"
    by (rule map_idI) (simp add: parse_flow_Flow_String [OF assms])
  ultimately show ?thesis by (simp add: add_flows_def)
qed

end
