(* ===== verification/GoJson.thy ===== *)
theory GoJson
  imports GoStrings
begin

text \<open>
  \<^verbatim>\<open>encoding/json\<close> as far as the answers of \<^verbatim>\<open>ovs-vsctl --format=json\<close> need it.  As Go's scanner does,
  the text is read once from left to right, with the open arrays and objects on a stack; so both
  passes are structural recursions and need no fuel.  \<open>Unmarshal_Data\<close> is \<^verbatim>\<open>json.Unmarshal\<close> into
  \<^verbatim>\<open>struct { Data [][]string }\<close>: the field is matched without case, \<^verbatim>\<open>null\<close> leaves the zero value, and
  a value of another type is an error.

  Not covered: bytes that are no UTF-8, which Go replaces by U+FFFD; and a second \<^verbatim>\<open>data\<close> field, whose
  \<^verbatim>\<open>null\<close> elements keep what the first one held.
\<close>

datatype json =
    JNull
  | JBool bool
  | JNum string
  | JStr string
  | JArr "json list"
  | JObj "(string \<times> json) list"

section \<open>Tokens\<close>

datatype token = LBrace | RBrace | LBrack | RBrack | Colon | Comma | TStr string | TLit string

datatype lexmode =
    Between
  | InLit string
  | InStr string
  | InEsc string
  | InHex string nat nat        \<comment> \<open>text so far, digits left, value so far\<close>

definition json_space :: "char \<Rightarrow> bool" where
  "json_space c \<longleftrightarrow> c = CHR '' '' \<or> c = CHR 0x09 \<or> c = CHR 0x0A \<or> c = CHR 0x0D"

definition punctuation :: "char \<Rightarrow> token option" where
  "punctuation c =
     (if c = CHR ''{'' then Some LBrace
      else if c = CHR ''}'' then Some RBrace
      else if c = CHR ''['' then Some LBrack
      else if c = CHR '']'' then Some RBrack
      else if c = CHR '':'' then Some Colon
      else if c = CHR '','' then Some Comma
      else None)"

definition hex_value :: "char \<Rightarrow> nat option" where
  "hex_value c =
     (if is_digit c then Some (byte c - 48)
      else if 97 \<le> byte c \<and> byte c \<le> 102 then Some (byte c - 87)
      else if 65 \<le> byte c \<and> byte c \<le> 70 then Some (byte c - 55)
      else None)"

text \<open>UTF-8 of a code point of a \<^verbatim>\<open>\uXXXX\<close> escape; a surrogate half becomes U+FFFD.\<close>

definition utf8 :: "nat \<Rightarrow> string" where
  "utf8 n =
     (if n < 0x80 then [char_of n]
      else if n < 0x800 then [char_of (0xC0 + n div 64), char_of (0x80 + n mod 64)]
      else if 0xD800 \<le> n \<and> n < 0xE000 then [char_of (0xEF::nat), char_of (0xBF::nat), char_of (0xBD::nat)]
      else [char_of (0xE0 + n div 4096), char_of (0x80 + n div 64 mod 64), char_of (0x80 + n mod 64)])"

definition simple_escape :: "char \<Rightarrow> char option" where
  "simple_escape c =
     (if c = CHR 0x22 \<or> c = CHR 0x5C \<or> c = CHR ''/'' then Some c
      else if c = CHR ''b'' then Some CHR 0x08
      else if c = CHR ''f'' then Some CHR 0x0C
      else if c = CHR ''n'' then Some CHR 0x0A
      else if c = CHR ''r'' then Some CHR 0x0D
      else if c = CHR ''t'' then Some CHR 0x09
      else None)"

fun lex :: "lexmode \<Rightarrow> string \<Rightarrow> token list option" where
  "lex Between [] = Some []"
| "lex (InLit l) [] = Some [TLit l]"
| "lex m [] = None"
| "lex Between (c # s) =
     (if json_space c then lex Between s
      else if c = CHR 0x22 then lex (InStr []) s
      else (case punctuation c of
              Some t \<Rightarrow> map_option ((#) t) (lex Between s)
            | None \<Rightarrow> lex (InLit [c]) s))"
| "lex (InLit l) (c # s) =
     (if json_space c then map_option ((#) (TLit l)) (lex Between s)
      else if c = CHR 0x22 then None
      else (case punctuation c of
              Some t \<Rightarrow> map_option (\<lambda>ts. TLit l # t # ts) (lex Between s)
            | None \<Rightarrow> lex (InLit (l @ [c])) s))"
| "lex (InStr a) (c # s) =
     (if c = CHR 0x22 then map_option ((#) (TStr a)) (lex Between s)
      else if c = CHR 0x5C then lex (InEsc a) s
      else if byte c < 32 then None
      else lex (InStr (a @ [c])) s)"
| "lex (InEsc a) (c # s) =
     (if c = CHR ''u'' then lex (InHex a 4 0) s
      else (case simple_escape c of Some d \<Rightarrow> lex (InStr (a @ [d])) s | None \<Rightarrow> None))"
| "lex (InHex a k n) (c # s) =
     (case hex_value c of
        None \<Rightarrow> None
      | Some d \<Rightarrow> if k \<le> 1 then lex (InStr (a @ utf8 (16 * n + d))) s else lex (InHex a (k - 1) (16 * n + d)) s)"

section \<open>Values\<close>

definition valid_exponent :: "string \<Rightarrow> bool" where
  "valid_exponent s =
     (s = [] \<or>
      (hd s = CHR ''e'' \<or> hd s = CHR ''E'') \<and>
      (let t = tl s; u = (if t \<noteq> [] \<and> (hd t = CHR ''+'' \<or> hd t = CHR ''-'') then tl t else t)
       in u \<noteq> [] \<and> list_all is_digit u))"

definition valid_fraction :: "string \<Rightarrow> bool" where
  "valid_fraction s =
     (if s \<noteq> [] \<and> hd s = CHR ''.''
      then takeWhile is_digit (tl s) \<noteq> [] \<and> valid_exponent (dropWhile is_digit (tl s))
      else valid_exponent s)"

definition valid_number :: "string \<Rightarrow> bool" where
  "valid_number s =
     (let t = (if s \<noteq> [] \<and> hd s = CHR ''-'' then tl s else s) in
      t \<noteq> [] \<and> is_digit (hd t) \<and>
      valid_fraction (if hd t = CHR ''0'' then tl t else dropWhile is_digit t))"

definition literal :: "string \<Rightarrow> json option" where
  "literal s =
     (if s = ''null'' then Some JNull
      else if s = ''true'' then Some (JBool True)
      else if s = ''false'' then Some (JBool False)
      else if valid_number s then Some (JNum s)
      else None)"

datatype frame =
    FArr "json list"
  | FObj "(string \<times> json) list"
  | FKey "(string \<times> json) list" string

datatype expect = Value | ValueOrClose | KeyOrClose | Key | KeyColon | Separator

text \<open>A value is complete: it goes into the innermost open frame.\<close>

fun complete :: "json \<Rightarrow> frame list \<Rightarrow> frame list option" where
  "complete v (FArr vs # st) = Some (FArr (vs @ [v]) # st)"
| "complete v (FKey ms k # st) = Some (FObj (ms @ [(k, v)]) # st)"
| "complete v st = None"

text \<open>The outermost array frame holds the one value of the text.\<close>

fun parse_tokens :: "frame list \<Rightarrow> expect \<Rightarrow> token list \<Rightarrow> json option" where
  "parse_tokens st ex [] = (case (st, ex) of ([FArr [v]], Separator) \<Rightarrow> Some v | _ \<Rightarrow> None)"
| "parse_tokens st ex (t # ts) =
     (if ex = Value \<or> ex = ValueOrClose then
        (case t of
           TStr s \<Rightarrow> (case complete (JStr s) st of Some st' \<Rightarrow> parse_tokens st' Separator ts | None \<Rightarrow> None)
         | TLit l \<Rightarrow>
             (case literal l of
                None \<Rightarrow> None
              | Some v \<Rightarrow> (case complete v st of Some st' \<Rightarrow> parse_tokens st' Separator ts | None \<Rightarrow> None))
         | LBrack \<Rightarrow> parse_tokens (FArr [] # st) ValueOrClose ts
         | LBrace \<Rightarrow> parse_tokens (FObj [] # st) KeyOrClose ts
         | RBrack \<Rightarrow>
             (case (ex, st) of
                (ValueOrClose, FArr vs # st') \<Rightarrow>
                  (case complete (JArr vs) st' of Some st'' \<Rightarrow> parse_tokens st'' Separator ts | None \<Rightarrow> None)
              | _ \<Rightarrow> None)
         | _ \<Rightarrow> None)
      else if ex = Key \<or> ex = KeyOrClose then
        (case (t, st) of
           (TStr s, FObj ms # st') \<Rightarrow> parse_tokens (FKey ms s # st') KeyColon ts
         | (RBrace, FObj ms # st') \<Rightarrow>
             (if ex = KeyOrClose
              then (case complete (JObj ms) st' of Some st'' \<Rightarrow> parse_tokens st'' Separator ts | None \<Rightarrow> None)
              else None)
         | _ \<Rightarrow> None)
      else if ex = KeyColon then (if t = Colon then parse_tokens st Value ts else None)
      else
        (case (t, st) of
           (Comma, FArr vs # f # st') \<Rightarrow> parse_tokens st Value ts
         | (Comma, FObj ms # st') \<Rightarrow> parse_tokens st Key ts
         | (RBrack, FArr vs # f # st') \<Rightarrow>
             (case complete (JArr vs) (f # st') of Some st'' \<Rightarrow> parse_tokens st'' Separator ts | None \<Rightarrow> None)
         | (RBrace, FObj ms # st') \<Rightarrow>
             (case complete (JObj ms) st' of Some st'' \<Rightarrow> parse_tokens st'' Separator ts | None \<Rightarrow> None)
         | _ \<Rightarrow> None))"

definition parse_json :: "string \<Rightarrow> json option" where
  "parse_json s = (case lex Between s of None \<Rightarrow> None | Some ts \<Rightarrow> parse_tokens [FArr []] Value ts)"

section \<open>Decoding into Go values\<close>

fun decode_string :: "json \<Rightarrow> err + string" where
  "decode_string JNull = Inr []"
| "decode_string (JStr s) = Inr s"
| "decode_string v = Inl JsonError"

primrec decode_list :: "(json \<Rightarrow> err + 'a) \<Rightarrow> json list \<Rightarrow> err + 'a list" where
  "decode_list f [] = Inr []"
| "decode_list f (v # vs) =
     (case (f v, decode_list f vs) of (Inr x, Inr xs) \<Rightarrow> Inr (x # xs) | _ \<Rightarrow> Inl JsonError)"

fun decode_slice :: "(json \<Rightarrow> err + 'a) \<Rightarrow> json \<Rightarrow> err + 'a list" where
  "decode_slice f JNull = Inr []"
| "decode_slice f (JArr vs) = decode_list f vs"
| "decode_slice f v = Inl JsonError"

fun decode_data_fields :: "(string \<times> json) list \<Rightarrow> string list list \<Rightarrow> err + string list list" where
  "decode_data_fields [] cur = Inr cur"
| "decode_data_fields ((k, v) # ms) cur =
     (if ToLower k = ''data'' then
        (case decode_slice (decode_slice decode_string) v of
           Inr d \<Rightarrow> decode_data_fields ms d
         | Inl e \<Rightarrow> Inl e)
      else decode_data_fields ms cur)"

definition Unmarshal_Data :: "string \<Rightarrow> err + string list list" where
  "Unmarshal_Data s =
     (case parse_json s of
        None \<Rightarrow> Inl JsonError
      | Some JNull \<Rightarrow> Inr []
      | Some (JObj ms) \<Rightarrow> decode_data_fields ms []
      | Some v \<Rightarrow> Inl JsonError)"

end
