(* ===== verification/Labels.thy ===== *)
theory Labels
  imports GoStrings "HOL-Library.List_Lexorder" "HOL-Library.Char_ord"
begin

text \<open>
  The label selectors of the vendored \<^verbatim>\<open>k8s.io/apimachinery\<close> that decide which pods and namespaces a
  network policy means.  A \<^verbatim>\<open>labels.Set\<close> is a Go map; here it is the list of its entries, with
  distinct keys, in the order of one iteration over it.

  \<open>SelectorFromSet\<close> drops every requirement when one of them is invalid, so the selector of an
  invalid set selects everything (\<open>SelectorFromSet_invalid\<close>); of a valid set it selects what has
  every entry of the set (\<open>SelectorFromSet_Matches\<close>).
\<close>

type_synonym labels = "(string \<times> string) list"

definition Labels_Has :: "labels \<Rightarrow> string \<Rightarrow> bool" where
  "Labels_Has ls k \<longleftrightarrow> map_of ls k \<noteq> None"

definition Labels_Get :: "labels \<Rightarrow> string \<Rightarrow> string" where
  "Labels_Get ls k = (case map_of ls k of Some v \<Rightarrow> v | None \<Rightarrow> [])"

section \<open>Validation\<close>

definition is_alnum :: "char \<Rightarrow> bool" where
  "is_alnum c \<longleftrightarrow> is_digit c \<or> (65 \<le> byte c \<and> byte c \<le> 90) \<or> (97 \<le> byte c \<and> byte c \<le> 122)"

definition is_lower_alnum :: "char \<Rightarrow> bool" where
  "is_lower_alnum c \<longleftrightarrow> is_digit c \<or> (97 \<le> byte c \<and> byte c \<le> 122)"

text \<open>\<^verbatim>\<open>^([A-Za-z0-9][-A-Za-z0-9_.]*)?[A-Za-z0-9]$\<close>\<close>

definition qualifiedNameRegexp :: "string \<Rightarrow> bool" where
  "qualifiedNameRegexp s \<longleftrightarrow>
     s \<noteq> [] \<and> is_alnum (hd s) \<and> is_alnum (last s) \<and>
     list_all (\<lambda>c. is_alnum c \<or> c = CHR ''-'' \<or> c = CHR ''_'' \<or> c = CHR ''.'') s"

text \<open>\<^verbatim>\<open>[a-z0-9]([-a-z0-9]*[a-z0-9])?\<close>, and such labels between dots.\<close>

definition dns1123Label :: "string \<Rightarrow> bool" where
  "dns1123Label s \<longleftrightarrow>
     s \<noteq> [] \<and> is_lower_alnum (hd s) \<and> is_lower_alnum (last s) \<and>
     list_all (\<lambda>c. is_lower_alnum c \<or> c = CHR ''-'') s"

definition IsDNS1123Subdomain :: "string \<Rightarrow> bool" where
  "IsDNS1123Subdomain s \<longleftrightarrow> length s \<le> 253 \<and> list_all dns1123Label (Split s CHR ''.'')"

text \<open>The validators return error messages in Go; here, whether they return none.\<close>

definition IsQualifiedName :: "string \<Rightarrow> bool" where
  "IsQualifiedName s =
     (case Split s CHR ''/'' of
        [name] \<Rightarrow> name \<noteq> [] \<and> length name \<le> 63 \<and> qualifiedNameRegexp name
      | [prefix, name] \<Rightarrow>
          prefix \<noteq> [] \<and> IsDNS1123Subdomain prefix \<and>
          name \<noteq> [] \<and> length name \<le> 63 \<and> qualifiedNameRegexp name
      | _ \<Rightarrow> False)"

definition IsValidLabelValue :: "string \<Rightarrow> bool" where
  "IsValidLabelValue s \<longleftrightarrow> length s \<le> 63 \<and> (s = [] \<or> qualifiedNameRegexp s)"

definition validateLabelKey :: "string \<Rightarrow> err option" where
  "validateLabelKey k = (if IsQualifiedName k then None else Some (ErrorMsg ''invalid label key''))"

definition validateLabelValue :: "string \<Rightarrow> err option" where
  "validateLabelValue v = (if IsValidLabelValue v then None else Some (ErrorMsg ''invalid label value''))"

section \<open>Requirements\<close>

datatype Operator =
    DoesNotExist | Equals | DoubleEquals | In | NotEquals | NotIn | Exists | GreaterThan | LessThan

record Requirement =
  key :: string
  operator :: Operator
  strValues :: "string list"

text \<open>\<^verbatim>\<open>strconv.ParseInt(s, 10, 64)\<close> is \<^const>\<open>Atoi\<close> where \<^verbatim>\<open>int\<close> has 64 bits.\<close>

definition NewRequirement :: "string \<Rightarrow> Operator \<Rightarrow> string list \<Rightarrow> err + Requirement" where
  "NewRequirement k op vals =
     (case validateLabelKey k of
        Some e \<Rightarrow> Inl e
      | None \<Rightarrow>
          if op \<in> {In, NotIn} \<and> length vals = 0
          then Inl (ErrorMsg ''for 'in', 'notin' operators, values set can't be empty'')
          else if op \<in> {Equals, DoubleEquals, NotEquals} \<and> length vals \<noteq> 1
          then Inl (ErrorMsg ''exact-match compatibility requires one single value'')
          else if op \<in> {Exists, DoesNotExist} \<and> length vals \<noteq> 0
          then Inl (ErrorMsg ''values set must be empty for exists and does not exist'')
          else if op \<in> {GreaterThan, LessThan} \<and> length vals \<noteq> 1
          then Inl (ErrorMsg ''for 'Gt', 'Lt' operators, exactly one value is required'')
          else if op \<in> {GreaterThan, LessThan} \<and> \<not> list_all (\<lambda>v. snd (Atoi v) = None) vals
          then Inl (ErrorMsg ''for 'Gt', 'Lt' operators, the value must be an integer'')
          else (case List.find (\<lambda>v. validateLabelValue v \<noteq> None) vals of
                  Some v \<Rightarrow> Inl (the (validateLabelValue v))
                | None \<Rightarrow> Inr \<lparr>key = k, operator = op, strValues = vals\<rparr>))"

definition hasValue :: "Requirement \<Rightarrow> string \<Rightarrow> bool" where
  "hasValue r v \<longleftrightarrow> List.member (strValues r) v"

definition compare_ints :: "Requirement \<Rightarrow> labels \<Rightarrow> bool" where
  "compare_ints r ls =
     (case (Atoi (Labels_Get ls (key r)), strValues r) of
        ((lsValue, None), [v]) \<Rightarrow>
          (case Atoi v of
             (rValue, None) \<Rightarrow>
               operator r = GreaterThan \<and> lsValue > rValue \<or> operator r = LessThan \<and> lsValue < rValue
           | _ \<Rightarrow> False)
      | _ \<Rightarrow> False)"

definition Requirement_Matches :: "Requirement \<Rightarrow> labels \<Rightarrow> bool" where
  "Requirement_Matches r ls =
     (case operator r of
        In \<Rightarrow> Labels_Has ls (key r) \<and> hasValue r (Labels_Get ls (key r))
      | Equals \<Rightarrow> Labels_Has ls (key r) \<and> hasValue r (Labels_Get ls (key r))
      | DoubleEquals \<Rightarrow> Labels_Has ls (key r) \<and> hasValue r (Labels_Get ls (key r))
      | NotIn \<Rightarrow> \<not> Labels_Has ls (key r) \<or> \<not> hasValue r (Labels_Get ls (key r))
      | NotEquals \<Rightarrow> \<not> Labels_Has ls (key r) \<or> \<not> hasValue r (Labels_Get ls (key r))
      | Exists \<Rightarrow> Labels_Has ls (key r)
      | DoesNotExist \<Rightarrow> \<not> Labels_Has ls (key r)
      | GreaterThan \<Rightarrow> Labels_Has ls (key r) \<and> compare_ints r ls
      | LessThan \<Rightarrow> Labels_Has ls (key r) \<and> compare_ints r ls)"

section \<open>Selectors\<close>

type_synonym selector = "Requirement list"

definition Everything :: selector where
  "Everything = []"

definition Selector_Empty :: "selector \<Rightarrow> bool" where
  "Selector_Empty s \<longleftrightarrow> length s = 0"

definition Selector_Matches :: "selector \<Rightarrow> labels \<Rightarrow> bool" where
  "Selector_Matches s ls \<longleftrightarrow> list_all (\<lambda>r. Requirement_Matches r ls) s"

text \<open>The loop over the map's entries; an invalid entry ends it with the empty selector.\<close>

fun requirements_loop :: "labels \<Rightarrow> selector \<Rightarrow> selector option" where
  "requirements_loop [] reqs = Some reqs"
| "requirements_loop ((label, value) # ls) reqs =
     (case NewRequirement label Equals [value] of
        Inr r \<Rightarrow> requirements_loop ls (reqs @ [r])
      | Inl e \<Rightarrow> None)"

definition SelectorFromSet :: "labels \<Rightarrow> selector" where
  "SelectorFromSet ls =
     (if length ls = 0 then []
      else (case requirements_loop ls [] of
              Some reqs \<Rightarrow> sort_key key reqs
            | None \<Rightarrow> []))"

definition AsSelector :: "labels \<Rightarrow> selector" where
  "AsSelector ls = SelectorFromSet ls"

section \<open>What a selector selects\<close>

definition valid_labels :: "labels \<Rightarrow> bool" where
  "valid_labels ls \<longleftrightarrow> (\<forall>(k, v)\<in>set ls. IsQualifiedName k \<and> IsValidLabelValue v)"

lemma NewRequirement_Equals:
  "NewRequirement k Equals [v] =
     (if \<not> IsQualifiedName k then Inl (ErrorMsg ''invalid label key'')
      else if \<not> IsValidLabelValue v then Inl (ErrorMsg ''invalid label value'')
      else Inr \<lparr>key = k, operator = Equals, strValues = [v]\<rparr>)"
  by (simp add: NewRequirement_def validateLabelKey_def validateLabelValue_def)

lemma requirements_loop_eq:
  "requirements_loop ls reqs =
     (if valid_labels ls
      then Some (reqs @ map (\<lambda>(k, v). \<lparr>key = k, operator = Equals, strValues = [v]\<rparr>) ls) else None)"
  by (induction ls reqs rule: requirements_loop.induct) (auto simp: NewRequirement_Equals valid_labels_def)

lemma Equals_Matches:
  "Requirement_Matches \<lparr>key = k, operator = Equals, strValues = [v]\<rparr> ls \<longleftrightarrow> map_of ls k = Some v"
  by (auto simp: Requirement_Matches_def Labels_Has_def Labels_Get_def hasValue_def split: option.split)

theorem SelectorFromSet_Matches:
  assumes "valid_labels sel"
  shows "Selector_Matches (SelectorFromSet sel) ls \<longleftrightarrow> (\<forall>(k, v)\<in>set sel. map_of ls k = Some v)"
  using assms
  by (auto simp: SelectorFromSet_def Selector_Matches_def requirements_loop_eq list_all_iff Equals_Matches)

lemma SelectorFromSet_invalid: "\<not> valid_labels sel \<Longrightarrow> SelectorFromSet sel = Everything"
  by (simp add: SelectorFromSet_def requirements_loop_eq Everything_def)

lemma SelectorFromSet_Nil [simp]: "SelectorFromSet [] = Everything"
  by (simp add: SelectorFromSet_def Everything_def)

lemma Everything_Matches [simp]: "Selector_Matches Everything ls"
  by (simp add: Everything_def Selector_Matches_def)

lemma Selector_Empty_Matches: "Selector_Empty s \<Longrightarrow> Selector_Matches s ls"
  by (simp add: Selector_Empty_def Selector_Matches_def)

end
