(* ===== verification/KubeApi.thy ===== *)
theory KubeApi
  imports Labels "HOL-Library.Word"
begin

text \<open>
  The API objects the controllers read, with the fields they read, the vendored
  \<^verbatim>\<open>IntOrString.IntValue\<close>, and the listers.  A pointer field that may be nil is an \<^typ>\<open>'a option\<close>.

  The listers are interfaces of the controllers, so an operation takes them as a record of functions,
  and every error branch behind a lister is reachable.  \<open>cache_listers\<close> is the implementation the
  binaries use: the informer's cache, listed in some order of its map.
\<close>

section \<open>Objects\<close>

record Pod =
  pod_Name :: string
  pod_Namespace :: string
  pod_Labels :: labels
  PodIP :: string

record Namespace =
  ns_Name :: string
  ns_Labels :: labels

record NodeAddress =
  addr_Type :: string
  Address :: string

record Node =
  node_Name :: string
  node_PodCIDR :: string
  Addresses :: "NodeAddress list"

record VSwitchConfigSpec =
  PodCIDR :: string
  ClusterCIDR :: string
  ServiceCIDR :: string
  OverlayIP :: string
  OverlayType :: string

record VSwitchConfig =
  vs_Name :: string
  vs_Labels :: labels
  Spec :: VSwitchConfigSpec

record LabelSelectorRequirement =
  lsr_Key :: string
  lsr_Operator :: string
  lsr_Values :: "string list"

record LabelSelector =
  MatchLabels :: labels
  MatchExpressions :: "LabelSelectorRequirement list"

datatype IntOrString_Type = IntType | StringType

record IntOrString =
  ios_Type :: IntOrString_Type
  IntVal :: "32 word"
  StrVal :: string

record NetworkPolicyPort =
  Protocol :: "string option"
  Port :: "IntOrString option"

record IPBlock =
  CIDR :: string
  Except :: "string list"

record NetworkPolicyPeer =
  PodSelector :: "LabelSelector option"
  NamespaceSelector :: "LabelSelector option"
  peer_IPBlock :: "IPBlock option"

record NetworkPolicyIngressRule =
  ing_Ports :: "NetworkPolicyPort list"
  From :: "NetworkPolicyPeer list"

record NetworkPolicyEgressRule =
  eg_Ports :: "NetworkPolicyPort list"
  To :: "NetworkPolicyPeer list"

record NetworkPolicySpec =
  np_PodSelector :: LabelSelector
  Ingress :: "NetworkPolicyIngressRule list"
  Egress :: "NetworkPolicyEgressRule list"
  PolicyTypes :: "string list"

record NetworkPolicy =
  np_Name :: string
  np_Namespace :: string
  np_Labels :: labels
  np_Spec :: NetworkPolicySpec

text \<open>
  \<^verbatim>\<open>(*IntOrString).IntValue\<close>: a nil receiver is dereferenced, and the error of \<^verbatim>\<open>strconv.Atoi\<close> is
  dropped, so a named port has the value 0.
\<close>

definition IntValue :: "IntOrString option \<Rightarrow> int option" where
  "IntValue p = do {
     intstr \<leftarrow> p;
     Some (if ios_Type intstr = StringType then fst (Atoi (StrVal intstr)) else sint (IntVal intstr)) }"

lemma sint_32_int64: "- 9223372036854775808 \<le> sint (w :: 32 word) \<and> sint w \<le> 9223372036854775807"
  using sint_ge [of w] sint_lt [of w] by simp

lemma IntValue_range:
  "IntValue p = Some n \<Longrightarrow> - max_int64 - 1 \<le> n \<and> n \<le> max_int64"
  using Atoi_range sint_32_int64 by (auto simp: IntValue_def Option.bind_eq_Some_conv split: if_splits)

section \<open>Listers\<close>

record listers =
  podLister_List :: "selector \<Rightarrow> err + Pod list"
  podLister_Pods_List :: "string \<Rightarrow> selector \<Rightarrow> err + Pod list"
  nsLister_List :: "selector \<Rightarrow> err + Namespace list"
  netPolLister_List :: "selector \<Rightarrow> err + NetworkPolicy list"
  vswitchLister_List :: "selector \<Rightarrow> err + VSwitchConfig list"

text \<open>
  \<^verbatim>\<open>cache.ListAll\<close> and \<^verbatim>\<open>cache.ListAllByNamespace\<close> over the items of a cache; the objects here always
  have metadata, so \<^verbatim>\<open>meta.Accessor\<close> does not fail, and the informers index by namespace.
\<close>

definition ListAll :: "('o \<Rightarrow> labels) \<Rightarrow> 'o list \<Rightarrow> selector \<Rightarrow> err + 'o list" where
  "ListAll labels_of items sel =
     Inr (fold (\<lambda>m ret. if Selector_Empty sel then ret @ [m]
                        else if Selector_Matches sel (labels_of m) then ret @ [m] else ret) items [])"

definition ListAllByNamespace ::
  "('o \<Rightarrow> labels) \<Rightarrow> ('o \<Rightarrow> string) \<Rightarrow> 'o list \<Rightarrow> string \<Rightarrow> selector \<Rightarrow> err + 'o list" where
  "ListAllByNamespace labels_of namespace_of items ns sel =
     (if ns = [] then ListAll labels_of items sel
      else Inr (fold (\<lambda>m ret. if Selector_Empty sel then ret @ [m]
                              else if Selector_Matches sel (labels_of m) then ret @ [m] else ret)
                  (filter (\<lambda>m. namespace_of m = ns) items) []))"

record store =
  st_pods :: "Pod list"
  st_namespaces :: "Namespace list"
  st_netpols :: "NetworkPolicy list"
  st_vswitches :: "VSwitchConfig list"

definition cache_listers :: "store \<Rightarrow> listers" where
  "cache_listers st =
     \<lparr>podLister_List = ListAll pod_Labels (st_pods st),
      podLister_Pods_List = ListAllByNamespace pod_Labels pod_Namespace (st_pods st),
      nsLister_List = ListAll ns_Labels (st_namespaces st),
      netPolLister_List = ListAll np_Labels (st_netpols st),
      vswitchLister_List = ListAll vs_Labels (st_vswitches st)\<rparr>"

lemma list_loop:
  "fold (\<lambda>m ret. if Selector_Empty sel then ret @ [m]
                 else if Selector_Matches sel (labels_of m) then ret @ [m] else ret) items acc =
     acc @ filter (\<lambda>m. Selector_Matches sel (labels_of m)) items"
  by (induction items arbitrary: acc) (auto simp: Selector_Empty_Matches)

lemma ListAll_eq: "ListAll labels_of items sel = Inr (filter (\<lambda>m. Selector_Matches sel (labels_of m)) items)"
  by (simp add: ListAll_def list_loop)

lemma ListAllByNamespace_eq:
  "ListAllByNamespace labels_of namespace_of items ns sel =
     Inr (filter (\<lambda>m. (ns = [] \<or> namespace_of m = ns) \<and> Selector_Matches sel (labels_of m)) items)"
  by (simp add: ListAllByNamespace_def ListAll_eq list_loop conj_commute)

text \<open>
  The contract of the listers that the controllers rely on: a listing never fails and holds
  exactly the cluster's objects that the selector selects.
\<close>

locale lister_contract =
  fixes L :: listers and st :: store
  assumes pods_list: "\<exists>ps. podLister_List L sel = Inr ps \<and>
      set ps = {p \<in> set (st_pods st). Selector_Matches sel (pod_Labels p)}"
    and pods_ns_list: "\<exists>ps. podLister_Pods_List L ns sel = Inr ps \<and>
      set ps = {p \<in> set (st_pods st). (ns = [] \<or> pod_Namespace p = ns) \<and> Selector_Matches sel (pod_Labels p)}"
    and ns_list: "\<exists>ns. nsLister_List L sel = Inr ns \<and>
      set ns = {n \<in> set (st_namespaces st). Selector_Matches sel (ns_Labels n)}"
    and netpols_list: "\<exists>nps. netPolLister_List L sel = Inr nps \<and>
      set nps = {n \<in> set (st_netpols st). Selector_Matches sel (np_Labels n)}"
    and vswitches_list: "\<exists>vs. vswitchLister_List L sel = Inr vs \<and>
      set vs = {v \<in> set (st_vswitches st). Selector_Matches sel (vs_Labels v)}"
begin

lemma all_pods: "\<exists>ps. podLister_List L Everything = Inr ps \<and> set ps = set (st_pods st)"
  using pods_list [of Everything] by simp

lemma all_netpols: "\<exists>nps. netPolLister_List L Everything = Inr nps \<and> set nps = set (st_netpols st)"
  using netpols_list [of Everything] by simp

lemma all_vswitches: "\<exists>vs. vswitchLister_List L Everything = Inr vs \<and> set vs = set (st_vswitches st)"
  using vswitches_list [of Everything] by simp

end

interpretation cache: lister_contract "cache_listers st" st for st
  by unfold_locales (auto simp: cache_listers_def ListAll_eq ListAllByNamespace_eq)

end
