(* ===== verification/PortCache.thy ===== *)
theory PortCache
  imports GoExec GoJson KubeApi
begin

text \<open>
  \<^verbatim>\<open>controllers/openflow/port_cache.go\<close>: the OVS port of each local pod, looked up with \<^verbatim>\<open>ovs-vsctl\<close> and
  remembered under \<^verbatim>\<open>namespace/name\<close>.  The cache's lock makes each operation one step.  A lookup
  returns its result, the new cache and the commands it started; \<^const>\<open>None\<close> is the panic of
  \<^verbatim>\<open>dbData.Data[0][0]\<close> on a row without columns.

  The contract (locale \<open>keyed_cache\<close>): a hit starts no command and changes nothing, a failed lookup
  changes nothing, a successful one is remembered, and entries of other pods are never touched.
\<close>

section \<open>The cache\<close>

record portInfo =
  port_name :: string
  ofport :: int
  mac :: string

type_synonym portCache = "string \<rightharpoonup> portInfo"

definition NewPortCache :: portCache where
  "NewPortCache = Map.empty"

definition portCacheKeyForPod :: "Pod \<Rightarrow> string" where
  "portCacheKeyForPod pod = pod_Namespace pod @ ''/'' @ pod_Name pod"

section \<open>Questions to \<^verbatim>\<open>ovs-vsctl\<close>\<close>

definition vsctl :: "string list \<Rightarrow> command" where
  "vsctl commands = \<lparr>program = ''ovs-vsctl'', args = commands, stdin = []\<rparr>"

definition findPort :: "os \<Rightarrow> string \<Rightarrow> string \<Rightarrow> ((err + string) \<times> command list) option" where
  "findPort env podNamespace podName =
     (let commands = [''--format=json'', ''--column=name'', ''find'', ''port'',
                      ''external-ids:k8s_pod_namespace='' @ podNamespace,
                      ''external-ids:k8s_pod_name='' @ podName];
          run = vsctl commands
      in case Output env run of
           Inl e \<Rightarrow> Some (Inl (Errorf ''failed to get OVS port'' e), [run])
         | Inr out \<Rightarrow>
             (case Unmarshal_Data out of
                Inl e \<Rightarrow> Some (Inl e, [run])
              | Inr [] \<Rightarrow> Some (Inl (ErrorMsg ''OVS port was not found''), [run])
              | Inr ([] # rows) \<Rightarrow> None
              | Inr ((portName # cols) # rows) \<Rightarrow> Some (Inr portName, [run])))"

definition macAddrFromPort :: "os \<Rightarrow> string \<Rightarrow> (err + string) \<times> command list" where
  "macAddrFromPort env portName =
     (let run = vsctl [''get'', ''port'', portName, ''mac''] in
      case Output env run of
        Inl e \<Rightarrow> (Inl (Errorf ''failed to get MAC address from OVS port'' e), [run])
      | Inr out \<Rightarrow>
          (let macAddr = TrimSpace out;
               macAddr = TrimPrefix macAddr [CHR 0x22];
               macAddr = TrimSuffix macAddr [CHR 0x22]
           in (Inr macAddr, [run])))"

definition ofPortFromName :: "os \<Rightarrow> string \<Rightarrow> (err + int) \<times> command list" where
  "ofPortFromName env portName =
     (let run = vsctl [''get'', ''Interface'', portName, ''ofport''] in
      case CombinedOutput env run of
        Inl e \<Rightarrow> (Inl (Errorf ''failed to get ofport for port'' e), [run])
      | Inr out \<Rightarrow>
          (case Atoi (TrimSpace out) of
             (n, Some e) \<Rightarrow> (Inl (Errorf ''error converting ofport output to int'' e), [run])
           | (n, None) \<Rightarrow> (Inr n, [run])))"

section \<open>Lookup and removal\<close>

definition GetPortInfo ::
  "os \<Rightarrow> Pod \<Rightarrow> portCache \<Rightarrow> ((err + portInfo) \<times> portCache \<times> command list) option" where
  "GetPortInfo env pod p =
     (case p (portCacheKeyForPod pod) of
        Some port \<Rightarrow> Some (Inr port, p, [])
      | None \<Rightarrow> do {
          (found, t1) \<leftarrow> findPort env (pod_Namespace pod) (pod_Name pod);
          (case found of
             Inl e \<Rightarrow> Some (Inl e, p, t1)
           | Inr portName \<Rightarrow>
               (case macAddrFromPort env portName of
                  (Inl e, t2) \<Rightarrow> Some (Inl e, p, t1 @ t2)
                | (Inr m, t2) \<Rightarrow>
                    (case ofPortFromName env portName of
                       (Inl e, t3) \<Rightarrow> Some (Inl e, p, t1 @ t2 @ t3)
                     | (Inr n, t3) \<Rightarrow>
                         (let podPortInfo = \<lparr>port_name = portName, ofport = n, mac = m\<rparr>
                          in Some (Inr podPortInfo, p(portCacheKeyForPod pod \<mapsto> podPortInfo), t1 @ t2 @ t3))))) })"

definition DelPortInfo :: "Pod \<Rightarrow> portCache \<Rightarrow> portCache" where
  "DelPortInfo pod p = p(portCacheKeyForPod pod := None)"

section \<open>The contract of the cache\<close>

locale keyed_cache =
  fixes key_of :: "'o \<Rightarrow> 'k"
    and get :: "'o \<Rightarrow> ('k \<rightharpoonup> 'v) \<Rightarrow> (('e + 'v) \<times> ('k \<rightharpoonup> 'v) \<times> 'c list) option"
    and del :: "'o \<Rightarrow> ('k \<rightharpoonup> 'v) \<Rightarrow> ('k \<rightharpoonup> 'v)"
  assumes get_hit: "m (key_of x) = Some v \<Longrightarrow> get x m = Some (Inr v, m, [])"
    and get_found: "get x m = Some (Inr v, m', t) \<Longrightarrow> m' = m(key_of x \<mapsto> v)"
    and get_failed: "get x m = Some (Inl e, m', t) \<Longrightarrow> m' = m"
    and del_key: "del x m = m(key_of x := None)"
begin

lemma get_again:
  assumes "get x m = Some (Inr v, m', t)"
  shows "get x m' = Some (Inr v, m', [])"
  using get_found [OF assms] by (intro get_hit) simp

lemma get_other:
  assumes "get x m = Some (r, m', t)" and "k \<noteq> key_of x"
  shows "m' k = m k"
proof (cases r)
  case (Inl e)
  with assms(1) get_failed have "m' = m" by blast
  then show ?thesis by simp
next
  case (Inr v)
  with assms(1) get_found have "m' = m(key_of x \<mapsto> v)" by blast
  with assms(2) show ?thesis by simp
qed

lemma get_keeps:
  assumes "get x m = Some (r, m', t)" and "m k = Some v"
  shows "m' k = Some v"
proof (cases "k = key_of x")
  case True
  with assms get_hit [of m x v] show ?thesis by simp
next
  case False
  then show ?thesis using get_other [OF assms(1) False] assms(2) by simp
qed

lemma del_forgets: "del x m (key_of x) = None"
  by (simp add: del_key)

lemma del_other: "k \<noteq> key_of x \<Longrightarrow> del x m k = m k"
  by (simp add: del_key)

end

lemma GetPortInfo_miss:
  assumes "p (portCacheKeyForPod pod) = None" and "GetPortInfo env pod p = Some (r, p', t)"
  shows "(\<exists>e. r = Inl e \<and> p' = p) \<or> (\<exists>v. r = Inr v \<and> p' = p(portCacheKeyForPod pod \<mapsto> v))"
proof -
  from assms obtain found t1 where found: "findPort env (pod_Namespace pod) (pod_Name pod) = Some (found, t1)"
    by (auto simp: GetPortInfo_def Option.bind_eq_Some_conv)
  show ?thesis
  proof (cases found)
    case (Inl e)
    with assms found show ?thesis by (auto simp: GetPortInfo_def)
  next
    case (Inr name)
    obtain mres t2 where m: "macAddrFromPort env name = (mres, t2)" by fastforce
    obtain ores t3 where o': "ofPortFromName env name = (ores, t3)" by fastforce
    from assms found Inr m o' show ?thesis
      by (cases mres; cases ores) (auto simp: GetPortInfo_def Let_def)
  qed
qed

interpretation pc: keyed_cache portCacheKeyForPod "GetPortInfo env" DelPortInfo for env
proof unfold_locales
  fix m :: portCache and x v m' t e
  show hit: "m (portCacheKeyForPod x) = Some v \<Longrightarrow> GetPortInfo env x m = Some (Inr v, m, [])" for v
    by (simp add: GetPortInfo_def)
  show "GetPortInfo env x m = Some (Inr v, m', t) \<Longrightarrow> m' = m(portCacheKeyForPod x \<mapsto> v)"
    using hit GetPortInfo_miss [of m x env "Inr v" m' t]
    by (cases "m (portCacheKeyForPod x)") (auto simp: fun_upd_idem)
  show "GetPortInfo env x m = Some (Inl e, m', t) \<Longrightarrow> m' = m"
    using hit GetPortInfo_miss [of m x env "Inl e" m' t]
    by (cases "m (portCacheKeyForPod x)") auto
  show "DelPortInfo x m = m(portCacheKeyForPod x := None)"
    by (simp add: DelPortInfo_def)
qed

section \<open>Keys\<close>

text \<open>Namespaces hold no slash, so two pods share an entry only if they are the same pod.\<close>

lemma portCacheKeyForPod_inject:
  assumes "CHR ''/'' \<notin> set (pod_Namespace p)" and "CHR ''/'' \<notin> set (pod_Namespace q)"
  shows "portCacheKeyForPod p = portCacheKeyForPod q \<longleftrightarrow>
    pod_Namespace p = pod_Namespace q \<and> pod_Name p = pod_Name q"
proof -
  have "cut_byte CHR ''/'' (portCacheKeyForPod r) = Some (pod_Namespace r, pod_Name r)"
    if "CHR ''/'' \<notin> set (pod_Namespace r)" for r
    using cut_byte_append [OF that, of "pod_Name r"] by (simp add: portCacheKeyForPod_def)
  with assms show ?thesis
    by (metis option.inject prod.inject portCacheKeyForPod_def)
qed

lemma ofPortFromName_int64:
  assumes "ofPortFromName env n = (Inr p, t)"
  shows "- max_int64 - 1 \<le> p \<and> p \<le> max_int64"
proof -
  from assms obtain out where "Atoi (TrimSpace out) = (p, None)"
    by (auto simp: ofPortFromName_def Let_def split: sum.split_asm prod.split_asm option.split_asm)
  with Atoi_range [of "TrimSpace out"] show ?thesis by simp
qed

theorem port_lookup_remembered:
  assumes "GetPortInfo env pod p = Some (Inr info, p', t)"
  shows "GetPortInfo env' pod p' = Some (Inr info, p', []) \<and>
    (\<forall>k. k \<noteq> portCacheKeyForPod pod \<longrightarrow> p' k = p k)"
proof -
  have "p' = p(portCacheKeyForPod pod \<mapsto> info)" by (rule pc.get_found [OF assms])
  then show ?thesis by (simp add: pc.get_hit)
qed

end
