(* ===== verification/GoNet.thy ===== *)
theory GoNet
  imports GoStrings "HOL-Library.Word"
begin

text \<open>
  The parts of Go's \<^verbatim>\<open>net\<close> package (Go 1.12) that decide which pods are local to a node, and the
  vendored \<^verbatim>\<open>ip.NextIP\<close> that picks the gateway.  A \<^verbatim>\<open>net.IP\<close> is its byte slice, of length 4 or 16
  (or another length, after \<^verbatim>\<open>NextIP\<close>), with \<^verbatim>\<open>nil\<close> the empty list.

  The lemmas: parsing inverts printing for IPv4 (\<open>parseIPv4_dotted\<close>), the network of a CIDR contains
  exactly the addresses that agree with it on the prefix (\<open>Contains_ParseCIDR_v4\<close>), and
  \<^verbatim>\<open>NextIP\<close> is the successor of the address as a number, with its leading zero bytes lost.
\<close>

unbundle bit_operations_syntax

type_synonym ip = "8 word list"

record IPNet =
  net_IP :: ip
  net_Mask :: ip

section \<open>Parsing\<close>

fun dtoi_loop :: "nat \<Rightarrow> string \<Rightarrow> (nat \<times> string) option" where
  "dtoi_loop n [] = Some (n, [])"
| "dtoi_loop n (c # s) =
     (if is_digit c
      then (if 10 * n + digit_val c \<ge> 0xFFFFFF then None else dtoi_loop (10 * n + digit_val c) s)
      else Some (n, c # s))"

text \<open>\<^verbatim>\<open>dtoi\<close>: the number at the front of the text and the text after it; \<^const>\<open>None\<close> is \<^verbatim>\<open>!ok\<close>.\<close>

definition dtoi :: "string \<Rightarrow> (nat \<times> string) option" where
  "dtoi s = (if s = [] \<or> \<not> is_digit (hd s) then None else dtoi_loop 0 s)"

definition hex_val :: "char \<Rightarrow> nat option" where
  "hex_val c =
     (if is_digit c then Some (byte c - 48)
      else if 97 \<le> byte c \<and> byte c \<le> 102 then Some (byte c - 87)
      else if 65 \<le> byte c \<and> byte c \<le> 70 then Some (byte c - 55)
      else None)"

fun xtoi_loop :: "nat \<Rightarrow> string \<Rightarrow> (nat \<times> string) option" where
  "xtoi_loop n [] = Some (n, [])"
| "xtoi_loop n (c # s) =
     (case hex_val c of
        None \<Rightarrow> Some (n, c # s)
      | Some d \<Rightarrow> if 16 * n + d \<ge> 0xFFFFFF then None else xtoi_loop (16 * n + d) s)"

definition xtoi :: "string \<Rightarrow> (nat \<times> string) option" where
  "xtoi s = (if s = [] \<or> hex_val (hd s) = None then None else xtoi_loop 0 s)"

definition v4InV6Prefix :: ip where
  "v4InV6Prefix = [0, 0, 0, 0, 0, 0, 0, 0, 0, 0, 0xff, 0xff]"

primrec parse_octets :: "nat \<Rightarrow> bool \<Rightarrow> string \<Rightarrow> ip option" where
  "parse_octets 0 first s = (if s = [] then Some [] else None)"
| "parse_octets (Suc k) first s =
     (if s = [] \<or> \<not> first \<and> hd s \<noteq> CHR ''.'' then None
      else (case dtoi (if first then s else tl s) of
              None \<Rightarrow> None
            | Some (n, r) \<Rightarrow>
                if n > 0xFF then None
                else map_option ((#) (word_of_nat n)) (parse_octets k False r)))"

definition parseIPv4 :: "string \<Rightarrow> ip" where
  "parseIPv4 s = (case parse_octets 4 True s of None \<Rightarrow> [] | Some p \<Rightarrow> v4InV6Prefix @ p)"

text \<open>
  The loop of \<^verbatim>\<open>parseIPv6\<close>: the groups left, the bytes so far, where the \<^verbatim>\<open>::\<close> stood, and the text left.
\<close>

primrec parse_groups :: "nat \<Rightarrow> ip \<Rightarrow> nat option \<Rightarrow> string \<Rightarrow> (ip \<times> nat option \<times> string) option" where
  "parse_groups 0 acc ell s = Some (acc, ell, s)"
| "parse_groups (Suc k) acc ell s =
     (case xtoi s of
        None \<Rightarrow> None
      | Some (n, r) \<Rightarrow>
          if n > 0xFFFF then None
          else if r \<noteq> [] \<and> hd r = CHR ''.'' then
            (if ell = None \<and> length acc \<noteq> 12 \<or> length acc + 4 > 16 \<or> parseIPv4 s = [] then None
             else Some (acc @ drop 12 (parseIPv4 s), ell, []))
          else (let acc' = acc @ [word_of_nat (n div 256), word_of_nat n] in
            if r = [] then Some (acc', ell, [])
            else if hd r \<noteq> CHR '':'' \<or> tl r = [] then None
            else if hd (tl r) = CHR '':'' then
              (if ell \<noteq> None then None
               else if tl (tl r) = [] then Some (acc', Some (length acc'), [])
               else parse_groups k acc' (Some (length acc')) (tl (tl r)))
            else parse_groups k acc' ell (tl r)))"

definition parseIPv6 :: "string \<Rightarrow> ip" where
  "parseIPv6 s =
     (if s = ''::'' then replicate 16 0
      else (case (if HasPrefix s ''::'' then parse_groups 8 [] (Some 0) (drop 2 s)
                  else parse_groups 8 [] None s) of
              None \<Rightarrow> []
            | Some (acc, ell, r) \<Rightarrow>
                if r \<noteq> [] then []
                else if length acc < 16 then
                  (case ell of None \<Rightarrow> []
                   | Some e \<Rightarrow> take e acc @ replicate (16 - length acc) 0 @ drop e acc)
                else if ell \<noteq> None then [] else acc))"

fun ParseIP :: "string \<Rightarrow> ip" where
  "ParseIP s =
     (case filter (\<lambda>c. c = CHR ''.'' \<or> c = CHR '':'') s of
        [] \<Rightarrow> []
      | c # _ \<Rightarrow> if c = CHR ''.'' then parseIPv4 s else parseIPv6 s)"

section \<open>Masks and networks\<close>

primrec CIDRMask_loop :: "nat \<Rightarrow> nat \<Rightarrow> ip" where
  "CIDRMask_loop 0 n = []"
| "CIDRMask_loop (Suc l) n =
     (if n \<ge> 8 then 0xff # CIDRMask_loop l (n - 8) else NOT (drop_bit n 0xff) # CIDRMask_loop l 0)"

definition CIDRMask :: "nat \<Rightarrow> nat \<Rightarrow> ip" where
  "CIDRMask ones bits = CIDRMask_loop (bits div 8) ones"

definition To4 :: "ip \<Rightarrow> ip" where
  "To4 ip =
     (if length ip = 4 then ip
      else if length ip = 16 \<and> take 12 ip = v4InV6Prefix then drop 12 ip
      else [])"

definition To16 :: "ip \<Rightarrow> ip" where
  "To16 ip = (if length ip = 4 then v4InV6Prefix @ ip else if length ip = 16 then ip else [])"

definition and_bytes :: "ip \<Rightarrow> ip \<Rightarrow> ip" where
  "and_bytes x m = map2 (AND) x m"

definition Mask :: "ip \<Rightarrow> ip \<Rightarrow> ip" where
  "Mask ip m =
     (let m' = (if length m = 16 \<and> length ip = 4 \<and> (\<forall>b\<in>set (take 12 m). b = 0xff) then drop 12 m else m);
          ip' = (if length m' = 4 \<and> length ip = 16 \<and> take 12 ip = v4InV6Prefix then drop 12 ip else ip)
      in if length ip' = length m' then and_bytes ip' m' else [])"

definition networkNumberAndMask :: "IPNet \<Rightarrow> ip \<times> ip" where
  "networkNumberAndMask n =
     (let ip = (if To4 (net_IP n) = [] then net_IP n else To4 (net_IP n)) in
      if To4 (net_IP n) = [] \<and> length ip \<noteq> 16 then ([], [])
      else if length (net_Mask n) = 4 then (if length ip = 4 then (ip, net_Mask n) else ([], []))
      else if length (net_Mask n) = 16 then
        (if length ip = 4 then (ip, drop 12 (net_Mask n)) else (ip, net_Mask n))
      else ([], []))"

definition IPNet_Contains :: "IPNet \<Rightarrow> ip \<Rightarrow> bool" where
  "IPNet_Contains n ip =
     (let (nn, m) = networkNumberAndMask n; x = (if To4 ip = [] then ip else To4 ip)
      in length x = length nn \<and> and_bytes nn m = and_bytes x m)"

definition ParseCIDR :: "string \<Rightarrow> err + (ip \<times> IPNet)" where
  "ParseCIDR s =
     (case cut_byte CHR ''/'' s of
        None \<Rightarrow> Inl (ParseError s)
      | Some (addr, msk) \<Rightarrow>
          (let v4 = parseIPv4 addr;
               iplen = (if v4 = [] then 16 else 4);
               ip = (if v4 = [] then parseIPv6 addr else v4)
           in case dtoi msk of
                None \<Rightarrow> Inl (ParseError s)
              | Some (n, r) \<Rightarrow>
                  if ip = [] \<or> r \<noteq> [] \<or> n > 8 * iplen then Inl (ParseError s)
                  else (let m = CIDRMask n (8 * iplen)
                        in Inr (ip, \<lparr>net_IP = Mask ip m, net_Mask = m\<rparr>))))"

section \<open>Printing\<close>

definition hex_digit :: "nat \<Rightarrow> char" where
  "hex_digit d = char_of (if d < 10 then 48 + d else 87 + d)"

definition hexString :: "ip \<Rightarrow> string" where
  "hexString ip = concat (map (\<lambda>b. [hex_digit (unat b div 16), hex_digit (unat b mod 16)]) ip)"

function htoa :: "nat \<Rightarrow> string" where
  "htoa n = (if n < 16 then [] else htoa (n div 16)) @ [hex_digit (n mod 16)]"
  by pat_completeness auto
termination
  by (relation "measure id") auto

fun groups :: "ip \<Rightarrow> nat list" where
  "groups (a # b # bs) = (256 * unat a + unat b) # groups bs"
| "groups bs = []"

function best_zero_run :: "nat list \<Rightarrow> nat \<Rightarrow> nat \<times> nat \<Rightarrow> nat \<times> nat" where
  "best_zero_run g i e =
     (if i < length g then
        (let j = i + length (takeWhile (\<lambda>x. x = 0) (drop i g)) in
         if j > i \<and> j - i > snd e - fst e then best_zero_run g (Suc j) (i, j)
         else best_zero_run g (Suc i) e)
      else e)"
  by pat_completeness auto
termination
  by (relation "measure (\<lambda>(g, i, e). length g - i)") auto

definition dotted :: "8 word \<Rightarrow> 8 word \<Rightarrow> 8 word \<Rightarrow> 8 word \<Rightarrow> string" where
  "dotted a b c d =
     utoa (unat a) @ ''.'' @ utoa (unat b) @ ''.'' @ utoa (unat c) @ ''.'' @ utoa (unat d)"

definition colons :: "ip \<Rightarrow> string" where
  "colons p =
     (let g = groups p; (e0, e1) = best_zero_run g 0 (0, 0) in
      if e1 - e0 \<le> 1 then Join (map htoa g) '':''
      else Join (map htoa (take e0 g)) '':'' @ ''::'' @ Join (map htoa (drop e1 g)) '':'')"

definition IP_String :: "ip \<Rightarrow> string" where
  "IP_String ip =
     (if ip = [] then ''<nil>''
      else (case To4 ip of
              [a, b, c, d] \<Rightarrow> dotted a b c d
            | _ \<Rightarrow> if length ip \<noteq> 16 then CHR ''?'' # hexString ip else colons ip))"

section \<open>Addresses as numbers\<close>

definition be_val :: "ip \<Rightarrow> nat" where
  "be_val bs = foldl (\<lambda>n b. 256 * n + unat b) 0 bs"

function be_bytes :: "nat \<Rightarrow> ip" where
  "be_bytes n = (if n = 0 then [] else be_bytes (n div 256) @ [word_of_nat (n mod 256)])"
  by pat_completeness auto
termination
  by (relation "measure id") auto

declare htoa.simps [simp del] best_zero_run.simps [simp del] be_bytes.simps [simp del]

definition ipToInt :: "ip \<Rightarrow> nat" where
  "ipToInt ip = (if To4 ip \<noteq> [] then be_val (To4 ip) else be_val (To16 ip))"

definition intToIP :: "nat \<Rightarrow> ip" where
  "intToIP i = be_bytes i"

definition NextIP :: "ip \<Rightarrow> ip" where
  "NextIP ip = intToIP (ipToInt ip + 1)"

section \<open>Parsing inverts printing\<close>

lemma dtoi_loop_digits:
  "(\<And>c. c \<in> set s \<Longrightarrow> is_digit c) \<Longrightarrow> digits_val n s < 0xFFFFFF \<Longrightarrow> r = [] \<or> \<not> is_digit (hd r) \<Longrightarrow>
     dtoi_loop n (s @ r) = Some (digits_val n s, r)"
proof (induction s arbitrary: n)
  case Nil
  then show ?case by (cases r) auto
next
  case (Cons c s)
  have "10 * n + digit_val c < 0xFFFFFF"
    using digits_val_mono [of "10 * n + digit_val c" s] Cons.prems(2) by simp
  with Cons show ?case by simp
qed

lemma dtoi_utoa:
  assumes "n < 0xFFFFFF" and "r = [] \<or> \<not> is_digit (hd r)"
  shows "dtoi (utoa n @ r) = Some (n, r)"
proof -
  have "hd (utoa n @ r) = hd (utoa n)" by simp
  then have "dtoi (utoa n @ r) = dtoi_loop 0 (utoa n @ r)"
    using hd_utoa_digit [of n] by (simp add: dtoi_def)
  also have "\<dots> = Some (n, r)"
    using dtoi_loop_digits [of "utoa n" 0 r] assms by (simp add: utoa_digits)
  finally show ?thesis .
qed

lemma dot_not_digit [simp]: "\<not> is_digit CHR ''.''" "\<not> is_digit CHR ''/''" "\<not> is_digit CHR '':''"
  by (simp_all add: is_digit_def)

lemma unat_byte_less: "unat (b :: 8 word) < 256"
  using unsigned_less [of b, where ?'a = nat] by simp

lemma parse_octets_utoa:
  assumes "r = [] \<or> \<not> is_digit (hd r)"
  shows "parse_octets (Suc k) True (utoa (unat b) @ r) = map_option ((#) b) (parse_octets k False r)"
    and "parse_octets (Suc k) False (CHR ''.'' # utoa (unat b) @ r) = map_option ((#) b) (parse_octets k False r)"
  using assms unat_byte_less [of b] by (simp_all add: dtoi_utoa)

lemma parse_octets_dotted: "parse_octets 4 True (dotted a b c d) = Some [a, b, c, d]"
proof -
  have "parse_octets (Suc (Suc (Suc (Suc 0)))) True (dotted a b c d) = Some [a, b, c, d]"
    using parse_octets_utoa(2) [of "[]" 0 d]
    by (simp add: dotted_def parse_octets_utoa del: parse_octets.simps(2))
  then show ?thesis by (simp add: eval_nat_numeral)
qed

theorem parseIPv4_dotted [simp]: "parseIPv4 (dotted a b c d) = v4InV6Prefix @ [a, b, c, d]"
  by (simp add: parseIPv4_def parse_octets_dotted)

lemma filter_utoa: "filter (\<lambda>c. c = CHR ''.'' \<or> c = CHR '':'') (utoa n) = []"
proof -
  have "\<not> (c = CHR ''.'' \<or> c = CHR '':'')" if "c \<in> set (utoa n)" for c
    using utoa_digits [OF that] by (auto simp: is_digit_def)
  then show ?thesis by (simp add: filter_empty_conv)
qed

lemma ParseIP_dotted [simp]: "ParseIP (dotted a b c d) = v4InV6Prefix @ [a, b, c, d]"
proof -
  have "filter (\<lambda>c. c = CHR ''.'' \<or> c = CHR '':'') (dotted a b c d) = ''...''"
    by (simp add: dotted_def filter_utoa)
  then show ?thesis by simp
qed

declare ParseIP.simps [simp del]

lemma To4_simps [simp]:
  "To4 [a, b, c, d] = [a, b, c, d]"
  "To4 (v4InV6Prefix @ [a, b, c, d]) = [a, b, c, d]"
  by (simp_all add: To4_def v4InV6Prefix_def)

lemma length_v4InV6Prefix [simp]: "length v4InV6Prefix = 12"
  by (simp add: v4InV6Prefix_def)

theorem IP_String_v4 [simp]: "IP_String [a, b, c, d] = dotted a b c d"
  by (simp add: IP_String_def)

lemma dotted_no_slash: "CHR ''/'' \<notin> set (dotted a b c d)"
  by (simp add: dotted_def utoa_no)

lemma dotted_no_space: "CHR '' '' \<notin> set (dotted a b c d)" "CHR '','' \<notin> set (dotted a b c d)"
  "CHR 0x0A \<notin> set (dotted a b c d)"
  by (simp_all add: dotted_def utoa_no is_digit_def)

lemma dotted_nonempty [simp]: "dotted a b c d \<noteq> []"
  by (simp add: dotted_def)

section \<open>Masks\<close>

lemma length_CIDRMask_loop [simp]: "length (CIDRMask_loop l n) = l"
  by (induction l arbitrary: n) simp_all

lemma length_and_bytes [simp]: "length (and_bytes x m) = min (length x) (length m)"
  by (simp add: and_bytes_def)

lemma and_bytes_idem: "and_bytes (and_bytes x m) m = and_bytes x m"
proof (induction x arbitrary: m)
  case (Cons b x)
  show ?case
  proof (cases m)
    case (Cons c m')
    with Cons.IH [of m'] show ?thesis by (simp add: and_bytes_def and.assoc)
  qed (simp add: and_bytes_def)
qed (simp add: and_bytes_def)

definition cidr_text :: "8 word \<Rightarrow> 8 word \<Rightarrow> 8 word \<Rightarrow> 8 word \<Rightarrow> nat \<Rightarrow> string" where
  "cidr_text a b c d n = dotted a b c d @ CHR ''/'' # utoa n"

lemma cidr_text_nonempty [simp]: "cidr_text a b c d n \<noteq> []"
  by (simp add: cidr_text_def)

lemma ParseCIDR_v4:
  assumes "n \<le> 32"
  shows "ParseCIDR (cidr_text a b c d n) =
    Inr (v4InV6Prefix @ [a, b, c, d],
         \<lparr>net_IP = and_bytes [a, b, c, d] (CIDRMask n 32), net_Mask = CIDRMask n 32\<rparr>)"
proof -
  have "cut_byte CHR ''/'' (cidr_text a b c d n) = Some (dotted a b c d, utoa n)"
    unfolding cidr_text_def by (rule cut_byte_append) (rule dotted_no_slash)
  moreover have "dtoi (utoa n) = Some (n, [])"
    using dtoi_utoa [of n "[]"] assms by simp
  moreover have "length (CIDRMask n 32) = 4" by (simp add: CIDRMask_def)
  ultimately show ?thesis
    using assms by (simp add: ParseCIDR_def Mask_def Let_def)
qed

lemma networkNumberAndMask_v4:
  "length nn = 4 \<Longrightarrow> length m = 4 \<Longrightarrow> networkNumberAndMask \<lparr>net_IP = nn, net_Mask = m\<rparr> = (nn, m)"
  by (auto simp: networkNumberAndMask_def To4_def Let_def)

section \<open>Prefixes\<close>

lemma be_val_Nil [simp]: "be_val [] = 0"
  by (simp add: be_val_def)

lemma be_val_foldl: "foldl (\<lambda>n b. 256 * n + unat b) k bs = k * 256 ^ length bs + be_val bs"
proof (induction bs arbitrary: k)
  case (Cons b bs)
  have "foldl (\<lambda>n b. 256 * n + unat b) k (b # bs) = (256 * k + unat b) * 256 ^ length bs + be_val bs"
    by (simp add: Cons.IH)
  also have "be_val (b # bs) = unat b * 256 ^ length bs + be_val bs"
    using Cons.IH [of "unat b"] by (simp add: be_val_def)
  then have "(256 * k + unat b) * 256 ^ length bs + be_val bs = k * 256 ^ length (b # bs) + be_val (b # bs)"
    by (simp add: algebra_simps)
  finally show ?case .
qed (simp add: be_val_def)

lemma be_val_Cons: "be_val (b # bs) = unat b * 256 ^ length bs + be_val bs"
  using be_val_foldl [of "unat b" bs] by (simp add: be_val_def)

lemma be_val_less: "be_val bs < 256 ^ length bs"
proof (induction bs)
  case (Cons b bs)
  have "unat b + 1 \<le> 256" using unat_byte_less [of b] by simp
  then have "(unat b + 1) * 256 ^ length bs \<le> 256 * 256 ^ length bs" by (rule mult_le_mono1)
  then have "unat b * 256 ^ length bs + 256 ^ length bs \<le> 256 * 256 ^ length bs"
    by (simp only: distrib_right mult_1)
  with Cons show ?case unfolding be_val_Cons length_Cons power_Suc by linarith
qed simp

lemma byte_mask_eq_iff:
  fixes a b :: "8 word"
  assumes "n < 8"
  shows "a AND NOT (drop_bit n 0xff) = b AND NOT (drop_bit n 0xff) \<longleftrightarrow>
         unat a div 2 ^ (8 - n) = unat b div 2 ^ (8 - n)"
proof -
  have ff: "(0xff :: 8 word) = - 1" by simp
  have dropped: "drop_bit (8 - n) (x AND NOT (drop_bit n 0xff)) = drop_bit (8 - n) x" for x :: "8 word"
    unfolding ff by (rule bit_word_eqI) (use assms in \<open>auto simp: bit_simps dest: bit_imp_le_length\<close>)
  have kept: "x AND NOT (drop_bit n 0xff) = push_bit (8 - n) (drop_bit (8 - n) x)" for x :: "8 word"
    unfolding ff by (rule bit_word_eqI) (use assms in \<open>auto simp: bit_simps\<close>)
  have "a AND NOT (drop_bit n 0xff) = b AND NOT (drop_bit n 0xff) \<longleftrightarrow>
      drop_bit (8 - n) a = drop_bit (8 - n) b"
    using dropped kept by metis
  also have "\<dots> \<longleftrightarrow> unat a div 2 ^ (8 - n) = unat b div 2 ^ (8 - n)"
    by (simp only: word_unat_eq_iff unat_drop_bit_eq, simp only: drop_bit_eq_div)
  finally show ?thesis .
qed

lemma and_bytes_Cons [simp]: "and_bytes (b # x) (m # ms) = (b AND m) # and_bytes x ms"
  by (simp add: and_bytes_def)

lemma and_bytes_zero_mask: "length x = length y \<Longrightarrow> length x = l \<Longrightarrow>
    and_bytes x (CIDRMask_loop l 0) = and_bytes y (CIDRMask_loop l 0)"
proof (induction l arbitrary: x y)
  case (Suc l)
  from Suc.prems obtain a xs b ys where xy: "x = a # xs" "y = b # ys" and len: "length xs = l" "length ys = l"
    by (cases x; cases y) simp_all
  have "and_bytes xs (CIDRMask_loop l 0) = and_bytes ys (CIDRMask_loop l 0)"
    by (rule Suc.IH) (simp_all add: len)
  moreover have "(0xff :: 8 word) = - 1" by simp
  then have "NOT (drop_bit 0 0xff) = (0 :: 8 word)" by (simp only: drop_bit_0 id_apply bit.compl_one)
  ultimately show ?case unfolding xy by (simp del: drop_bit_0)
qed (simp add: and_bytes_def)

lemma div_prefix_lower:
  fixes A X l n :: nat
  assumes "X < 256 ^ l" and "n < 8"
  shows "(A * 256 ^ l + X) div 2 ^ (8 * Suc l - n) = A div 2 ^ (8 - n)"
proof -
  have "8 * Suc l - n = 8 * l + (8 - n)" using assms by simp
  then have "(2::nat) ^ (8 * Suc l - n) = 256 ^ l * 2 ^ (8 - n)"
    by (simp only: power_add power_mult) simp
  then have "(A * 256 ^ l + X) div 2 ^ (8 * Suc l - n) = ((A * 256 ^ l + X) div 256 ^ l) div 2 ^ (8 - n)"
    by (simp only: div_mult2_eq)
  with assms show ?thesis by simp
qed

lemma div_prefix_upper:
  fixes A X l n :: nat
  assumes "X < 256 ^ l" and "8 \<le> n" and "n \<le> 8 * Suc l"
  shows "(A * 256 ^ l + X) div 2 ^ (8 * Suc l - n) = A * 2 ^ (n - 8) + X div 2 ^ (8 * l - (n - 8))"
    and "X div 2 ^ (8 * l - (n - 8)) < 2 ^ (n - 8)"
proof -
  define d where "d = (2::nat) ^ (8 * l - (n - 8))"
  have "8 * l = (8 * l - (n - 8)) + (n - 8)" using assms by simp
  then have "(2::nat) ^ (8 * l) = 2 ^ (n - 8) * d"
    unfolding d_def power_add [symmetric] by (simp add: add.commute)
  then have p: "(256::nat) ^ l = 2 ^ (n - 8) * d" by (simp add: power_mult)
  have e: "8 * Suc l - n = 8 * l - (n - 8)" using assms by simp
  have "(A * 256 ^ l + X) div d = A * 2 ^ (n - 8) + X div d"
    unfolding p by (simp add: d_def mult.assoc [symmetric])
  then show "(A * 256 ^ l + X) div 2 ^ (8 * Suc l - n) = A * 2 ^ (n - 8) + X div 2 ^ (8 * l - (n - 8))"
    unfolding e d_def .
  show "X div 2 ^ (8 * l - (n - 8)) < 2 ^ (n - 8)"
    using assms(1) unfolding p d_def [symmetric] by (simp add: less_mult_imp_div_less)
qed

lemma add_mult_inject:
  fixes A B X Y k :: nat
  assumes "X < k" and "Y < k"
  shows "A * k + X = B * k + Y \<longleftrightarrow> A = B \<and> X = Y"
proof
  assume e: "A * k + X = B * k + Y"
  have "(A * k + X) div k = A" "(B * k + Y) div k = B" using assms by simp_all
  with e have "A = B" by metis
  with e show "A = B \<and> X = Y" by simp
qed simp

text \<open>Two addresses agree under a mask of \<open>n\<close> ones exactly when their first \<open>n\<close> bits agree.\<close>

theorem and_bytes_CIDRMask_eq_iff:
  "length x = l \<Longrightarrow> length y = l \<Longrightarrow> n \<le> 8 * l \<Longrightarrow>
     and_bytes x (CIDRMask_loop l n) = and_bytes y (CIDRMask_loop l n) \<longleftrightarrow>
     be_val x div 2 ^ (8 * l - n) = be_val y div 2 ^ (8 * l - n)"
proof (induction l arbitrary: x y n)
  case (Suc l)
  from Suc.prems obtain a xs b ys where xy: "x = a # xs" "y = b # ys" and len: "length xs = l" "length ys = l"
    by (cases x; cases y) simp_all
  have less: "be_val xs < 256 ^ l" "be_val ys < 256 ^ l" using be_val_less len by metis+
  show ?case
  proof (cases "n < 8")
    case True
    have zero: "and_bytes xs (CIDRMask_loop l 0) = and_bytes ys (CIDRMask_loop l 0)"
      by (rule and_bytes_zero_mask) (simp_all add: len)
    show ?thesis
      using True less len
      by (simp add: xy be_val_Cons div_prefix_lower byte_mask_eq_iff zero del: mult_Suc_right)
  next
    case False
    then have n: "8 \<le> n" "n \<le> 8 * Suc l" using Suc.prems by simp_all
    have IH: "and_bytes xs (CIDRMask_loop l (n - 8)) = and_bytes ys (CIDRMask_loop l (n - 8)) \<longleftrightarrow>
        be_val xs div 2 ^ (8 * l - (n - 8)) = be_val ys div 2 ^ (8 * l - (n - 8))"
      by (rule Suc.IH) (use len n in simp_all)
    have ff: "w AND 0xff = w" for w :: "8 word"
    proof -
      have "(0xff :: 8 word) = - 1" by simp
      then show ?thesis by (metis and.right_neutral)
    qed
    show ?thesis
      using False IH ff
        add_mult_inject [OF div_prefix_upper(2) [OF less(1) n] div_prefix_upper(2) [OF less(2) n]]
      by (simp add: xy be_val_Cons len div_prefix_upper(1) [OF less(1) n] div_prefix_upper(1) [OF less(2) n]
          word_unat_eq_iff del: mult_Suc_right)
  qed
qed simp

theorem Contains_v4:
  assumes "n \<le> 32"
  shows "IPNet_Contains \<lparr>net_IP = and_bytes [a, b, c, d] (CIDRMask n 32), net_Mask = CIDRMask n 32\<rparr>
           (v4InV6Prefix @ [w, x, y, z]) \<longleftrightarrow>
         be_val [a, b, c, d] div 2 ^ (32 - n) = be_val [w, x, y, z] div 2 ^ (32 - n)"
proof -
  have m: "CIDRMask n 32 = CIDRMask_loop 4 n" by (simp add: CIDRMask_def)
  have "IPNet_Contains \<lparr>net_IP = and_bytes [a, b, c, d] (CIDRMask n 32), net_Mask = CIDRMask n 32\<rparr>
           (v4InV6Prefix @ [w, x, y, z]) \<longleftrightarrow>
         and_bytes [a, b, c, d] (CIDRMask n 32) = and_bytes [w, x, y, z] (CIDRMask n 32)"
    by (simp add: IPNet_Contains_def networkNumberAndMask_v4 m and_bytes_idem)
  also have "\<dots> \<longleftrightarrow> be_val [a, b, c, d] div 2 ^ (32 - n) = be_val [w, x, y, z] div 2 ^ (32 - n)"
    using and_bytes_CIDRMask_eq_iff [of "[a, b, c, d]" 4 "[w, x, y, z]" n] assms by (simp add: m)
  finally show ?thesis .
qed

lemma Contains_nil: "length (net_IP nt) = 4 \<Longrightarrow> length (net_Mask nt) = 4 \<Longrightarrow> \<not> IPNet_Contains nt []"
  using networkNumberAndMask_v4 [of "net_IP nt" "net_Mask nt"]
  by (cases nt) (auto simp: IPNet_Contains_def To4_def)

section \<open>The next address\<close>

definition addr4 :: "nat \<Rightarrow> ip" where
  "addr4 n = [word_of_nat (n div 16777216), word_of_nat (n div 65536), word_of_nat (n div 256), word_of_nat n]"

lemma word_of_nat_mod_256: "(word_of_nat (n mod 256) :: 8 word) = word_of_nat n"
  by (rule word_unat_eq_iff [THEN iffD2]) (simp add: unat_of_nat take_bit_eq_mod)

lemma be_bytes_addr4:
  assumes "16777216 \<le> n" and "n < 4294967296"
  shows "be_bytes n = addr4 n"
proof -
  have step: "be_bytes m = be_bytes (m div 256) @ [word_of_nat m]" if "m \<noteq> 0" for m
    using that by (subst be_bytes.simps) (simp add: word_of_nat_mod_256)
  have d: "n div 256 div 256 = n div 65536" "n div 65536 div 256 = n div 16777216"
    by (simp_all add: div_mult2_eq [symmetric])
  have nz: "n \<noteq> 0" "n div 256 \<noteq> 0" "n div 65536 \<noteq> 0" "n div 16777216 \<noteq> 0"
    using assms by (simp_all add: div_eq_0_iff)
  have "n div 16777216 div 256 = 0" using assms by (simp add: div_mult2_eq [symmetric])
  then have "be_bytes (n div 16777216 div 256) = []" by (simp add: be_bytes.simps)
  then show ?thesis
    using step [OF nz(1)] step [OF nz(2)] step [OF nz(3)] step [OF nz(4)]
    by (simp add: d addr4_def)
qed

lemma be_val_addr4:
  assumes "n < 4294967296"
  shows "be_val (addr4 n) = n"
proof -
  have u: "unat (word_of_nat k :: 8 word) = k mod 256" for k
    by (simp add: unat_of_nat take_bit_eq_mod)
  have "be_val (addr4 n) = (n div 16777216 mod 256) * 16777216 + (n div 65536 mod 256) * 65536
      + (n div 256 mod 256) * 256 + n mod 256"
    by (simp add: addr4_def be_val_Cons u)
  moreover have "n div 256 div 256 = n div 65536" "n div 65536 div 256 = n div 16777216"
    by (simp_all add: div_mult2_eq [symmetric])
  moreover have "n div 16777216 mod 256 = n div 16777216" using assms by (simp add: div_less_iff_less_mult)
  ultimately show ?thesis
    using mult_div_mod_eq [of 256 n] mult_div_mod_eq [of 256 "n div 256"]
      mult_div_mod_eq [of 256 "n div 65536"] by linarith
qed

lemma be_val_4_less: "be_val [a, b, c, d] < 4294967296"
  using be_val_less [of "[a, b, c, d]"] by simp

lemma NextIP_v4:
  "NextIP [a, b, c, d] = be_bytes (be_val [a, b, c, d] + 1)"
  by (simp add: NextIP_def ipToInt_def intToIP_def)

lemma IP_String_addr4:
  "IP_String (addr4 n) = dotted (word_of_nat (n div 16777216)) (word_of_nat (n div 65536)) (word_of_nat (n div 256)) (word_of_nat n)"
  by (simp add: addr4_def)

section \<open>The first addresses of a network\<close>

lemma and_bytes_zero: "length x = l \<Longrightarrow> be_val (and_bytes x (CIDRMask_loop l 0)) = 0"
proof (induction l arbitrary: x)
  case (Suc l)
  then obtain a xs where x: "x = a # xs" "length xs = l" by (cases x) simp_all
  have "(0xff :: 8 word) = - 1" by simp
  then have "NOT (drop_bit 0 0xff) = (0 :: 8 word)" by (simp only: drop_bit_0 id_apply bit.compl_one)
  with Suc.IH [OF x(2)] show ?case unfolding x(1) by (simp add: be_val_Cons del: drop_bit_0)
qed (simp add: and_bytes_def)

theorem network_number_aligned:
  "length x = l \<Longrightarrow> n \<le> 8 * l \<Longrightarrow> 2 ^ (8 * l - n) dvd be_val (and_bytes x (CIDRMask_loop l n))"
proof (induction l arbitrary: x n)
  case (Suc l)
  then obtain a xs where x: "x = a # xs" and len: "length xs = l" by (cases x) simp_all
  show ?case
  proof (cases "n < 8")
    case True
    have ff: "(0xff :: 8 word) = - 1" by simp
    have "a AND NOT (drop_bit n 0xff) = push_bit (8 - n) (drop_bit (8 - n) a)"
      unfolding ff by (rule bit_word_eqI) (use True in \<open>auto simp: bit_simps\<close>)
    then have "unat (a AND NOT (drop_bit n 0xff)) = take_bit 8 (push_bit (8 - n) (unat (drop_bit (8 - n) a)))"
      by (simp add: unsigned_push_bit_eq)
    then have dv: "2 ^ (8 - n) dvd unat (a AND NOT (drop_bit n 0xff))"
      using le_imp_power_dvd [of "8 - n" 8 "2::nat"] by (simp add: take_bit_eq_mod push_bit_eq_mult dvd_mod)
    have "8 * Suc l - n = (8 - n) + 8 * l" using True by simp
    then have p: "(2::nat) ^ (8 * Suc l - n) = 2 ^ (8 - n) * 256 ^ l" by (simp only: power_add power_mult) simp
    have "length (and_bytes xs (CIDRMask_loop l 0)) = l" by (simp add: and_bytes_def len)
    then have "be_val (and_bytes x (CIDRMask_loop (Suc l) n)) = unat (a AND NOT (drop_bit n 0xff)) * 256 ^ l"
      using True by (simp add: x be_val_Cons and_bytes_zero len)
    with dv show ?thesis unfolding p by (simp add: mult_dvd_mono)
  next
    case False
    with Suc.prems have n: "8 \<le> n" "n \<le> 8 * Suc l" by simp_all
    have "2 ^ (8 * l - (n - 8)) dvd be_val (and_bytes xs (CIDRMask_loop l (n - 8)))"
      by (rule Suc.IH) (use len n in simp_all)
    moreover have "(2::nat) ^ (8 * l - (n - 8)) dvd 256 ^ l"
      using le_imp_power_dvd [of "8 * l - (n - 8)" "8 * l" "2::nat"] by (simp add: power_mult)
    moreover have "8 * Suc l - n = 8 * l - (n - 8)" using n by simp
    moreover have "length (and_bytes xs (CIDRMask_loop l (n - 8))) = l" by (simp add: and_bytes_def len)
    ultimately show ?thesis using False by (simp add: x be_val_Cons)
  qed
qed (simp add: and_bytes_def)


text \<open>The first address of a network, and the one after it, which the controller takes for the gateway.\<close>

definition network :: "8 word \<Rightarrow> 8 word \<Rightarrow> 8 word \<Rightarrow> 8 word \<Rightarrow> nat \<Rightarrow> nat" where
  "network a b c d n = be_val [a, b, c, d] div 2 ^ (32 - n) * 2 ^ (32 - n)"

lemma masked_value:
  assumes "n \<le> 32"
  shows "be_val (and_bytes [a, b, c, d] (CIDRMask n 32)) = network a b c d n"
proof -
  let ?x = "and_bytes [a, b, c, d] (CIDRMask n 32)"
  have m: "CIDRMask n 32 = CIDRMask_loop 4 n" by (simp add: CIDRMask_def)
  have len: "length ?x = 4" by (simp add: m and_bytes_def)
  have "be_val ?x div 2 ^ (32 - n) = be_val [a, b, c, d] div 2 ^ (32 - n)"
    using and_bytes_CIDRMask_eq_iff [of ?x 4 "[a, b, c, d]" n] assms len by (simp add: m and_bytes_idem)
  moreover have "2 ^ (32 - n) dvd be_val ?x"
    using network_number_aligned [of "[a, b, c, d]" 4 n] assms by (simp add: m)
  ultimately show ?thesis by (metis network_def dvd_div_mult_self)
qed

lemma next_in_network:
  assumes "n < 32"
  shows "(network a b c d n + 1) div 2 ^ (32 - n) = be_val [a, b, c, d] div 2 ^ (32 - n)"
    and "network a b c d n + 1 < 4294967296"
proof -
  have "(2::nat) ^ 1 \<le> 2 ^ (32 - n)" using assms by (intro power_increasing) simp_all
  then have k: "1 < (2::nat) ^ (32 - n)" by simp
  then show d: "(network a b c d n + 1) div 2 ^ (32 - n) = be_val [a, b, c, d] div 2 ^ (32 - n)"
    using div_mult_self3 [of "2 ^ (32 - n)" "be_val [a, b, c, d] div 2 ^ (32 - n)" 1] by (simp add: network_def)
  have p: "(4294967296 :: nat) = 2 ^ n * 2 ^ (32 - n)" using assms by (simp add: power_add [symmetric])
  have "be_val [a, b, c, d] div 2 ^ (32 - n) < 2 ^ n"
    using be_val_4_less [of a b c d] p by (simp add: less_mult_imp_div_less)
  with d have "(network a b c d n + 1) div 2 ^ (32 - n) < 2 ^ n" by simp
  then show "network a b c d n + 1 < 4294967296"
    unfolding p by (metis div_less_iff_less_mult k less_trans zero_less_one)
qed

text \<open>The text of the next address, for a network whose first byte is not zero.\<close>

lemma NextIP_network:
  assumes "n < 32" and "16777216 \<le> network a b c d n"
  shows "NextIP (Mask (and_bytes [a, b, c, d] (CIDRMask n 32)) (CIDRMask n 32)) = addr4 (network a b c d n + 1)"
proof -
  let ?x = "and_bytes [a, b, c, d] (CIDRMask n 32)"
  have m: "CIDRMask n 32 = CIDRMask_loop 4 n" by (simp add: CIDRMask_def)
  have len: "length ?x = 4" "length (CIDRMask n 32) = 4" by (simp_all add: m and_bytes_def)
  have "\<exists>w x y z. l = [w, x, y, z]" if "length l = 4" for l :: ip
    using that by (auto simp: numeral_eq_Suc length_Suc_conv)
  with len(1) obtain w x y z where x: "?x = [w, x, y, z]" by blast
  have "Mask ?x (CIDRMask n 32) = ?x" using len by (simp add: Mask_def and_bytes_idem)
  then have "NextIP (Mask ?x (CIDRMask n 32)) = be_bytes (be_val ?x + 1)" using NextIP_v4 x by simp
  also have "be_val ?x = network a b c d n" using assms(1) by (simp add: masked_value)
  also have "be_bytes (network a b c d n + 1) = addr4 (network a b c d n + 1)"
    using assms next_in_network(2) [OF assms(1), of a b c d] by (intro be_bytes_addr4) simp_all
  finally show ?thesis .
qed


end
