(* ===== verification/OFController.thy ===== *)
theory OFController
  imports FlowsBuffer PortCache GoNet
begin

text \<open>
  The state of \<^verbatim>\<open>controllers/openflow/controller.go\<close> and the flows of \<^verbatim>\<open>flows.go\<close> that come from the node
  itself, its vswitch configurations and its pods.  The OpenFlow connection is in \<^verbatim>\<open>OFConnect\<close>; the
  network policies are in \<^verbatim>\<open>NetPolicy\<close>.

  Every operation here appends to the buffer and leaves the configuration alone: each has a lemma
  that states the list it emits (\<open>default_flows\<close>, \<open>vswitch_flows\<close>, \<open>pod_flows\<close>), and the controller is an
  \<^const>\<open>output_sink\<close>.
\<close>

section \<open>Tables and addresses\<close>

definition tableEntry :: int where "tableEntry = 0"

definition tableNetworkPolicies :: int where "tableNetworkPolicies = 10"

definition tableClassification :: int where "tableClassification = 20"

definition tableL3Forwarding :: int where "tableL3Forwarding = 30"

definition tableL2Rewrites :: int where "tableL2Rewrites = 60"

definition tableLocalARP :: int where "tableLocalARP = 100"

lemmas table_defs =
  tableEntry_def tableNetworkPolicies_def tableClassification_def tableL3Forwarding_def
  tableL2Rewrites_def tableLocalARP_def

definition podMacAddr :: string where
  "podMacAddr = ''aa:bb:cc:dd:ee:ff''"

definition clusterWidePort :: string where
  "clusterWidePort = ''cluster-wide''"

definition overlayPort :: string where
  "overlayPort = ''overlay0''"

section \<open>The controller\<close>

text \<open>
  The fields of the Go struct, without its interfaces (the listers and the connection are
  arguments of the operations) and its locks; \<open>trace\<close> is a ghost field, the commands the controller
  has started.
\<close>

record controller =
  datapathID :: "64 word"
  nodeName :: string
  bridgeName :: string
  gatewayIP :: string
  bridgeMAC :: string
  clusterWideMAC :: string
  podCIDR :: string
  clusterCIDR :: string
  clusterWideOFPort :: int
  overlayOFPort :: int
  flows :: FlowsBuffer
  portCache :: portCache
  trace :: "command list"

definition NewController ::
  "os \<Rightarrow> string \<Rightarrow> string \<Rightarrow> string \<Rightarrow> string \<Rightarrow> string \<Rightarrow> string \<Rightarrow> err + controller" where
  "NewController env bridge brMAC cwMAC node pods_cidr cluster_cidr =
     (case ParseCIDR pods_cidr of
        Inl e \<Rightarrow> Inl e
      | Inr (_, podIPNet) \<Rightarrow>
          (let gw = IP_String (NextIP (Mask (net_IP podIPNet) (net_Mask podIPNet))) in
           case ofPortFromName env clusterWidePort of
             (Inl e, _) \<Rightarrow> Inl e
           | (Inr cwPort, t1) \<Rightarrow>
               (case ofPortFromName env overlayPort of
                  (Inl e, _) \<Rightarrow> Inl e
                | (Inr ovPort, t2) \<Rightarrow>
                    Inr \<lparr>datapathID = 0, nodeName = node, bridgeName = bridge, gatewayIP = gw,
                         bridgeMAC = brMAC, clusterWideMAC = cwMAC, podCIDR = pods_cidr,
                         clusterCIDR = cluster_cidr, clusterWideOFPort = cwPort, overlayOFPort = ovPort,
                         flows = NewFlowsBuffer, portCache = NewPortCache, trace = t1 @ t2\<rparr>)))"

text \<open>\<^verbatim>\<open>c.flows.AddFlow(flow)\<close>\<close>

definition add_flow :: "Flow \<Rightarrow> controller \<Rightarrow> controller" where
  "add_flow f c = c\<lparr>flows := AddFlow f (flows c)\<rparr>"

section \<open>The default flows\<close>

text \<open>The ARP replies are raw flows: the one for a known address, and the one for the cluster CIDR.\<close>

definition arp_reply_raw :: "string \<Rightarrow> string \<Rightarrow> string" where
  "arp_reply_raw ip hw =
     ''table='' @ itoa tableLocalARP @ '' priority=500 dl_type=0x0806 arp_tpa='' @ ip @
     '' actions=move:NXM_OF_ETH_SRC[]->NXM_OF_ETH_DST[],mod_dl_src:'' @ hw @
     '',load:0x2->NXM_OF_ARP_OP[],move:NXM_NX_ARP_SHA[]->NXM_NX_ARP_THA[],move:NXM_OF_ARP_SPA[]->NXM_OF_ARP_TPA[],set_field:'' @ hw @
     ''->arp_sha,set_field:'' @ ip @ ''->arp_spa,in_port''"

definition arp_cluster_raw :: "string \<Rightarrow> string \<Rightarrow> string" where
  "arp_cluster_raw cidr hw =
     ''table='' @ itoa tableLocalARP @ '' priority=400 dl_type=0x0806 arp_tpa='' @ cidr @
     '' actions=move:NXM_OF_ETH_SRC[]->NXM_OF_ETH_DST[],mod_dl_src:'' @ hw @
     '',load:0x2->NXM_OF_ARP_OP[],set_field:'' @ hw @
     ''->arp_sha,move:NXM_OF_ARP_TPA[]->NXM_OF_ARP_SPA[],move:NXM_NX_ARP_SHA[]->NXM_NX_ARP_THA[],move:NXM_OF_ARP_SPA[]->NXM_OF_ARP_TPA[],in_port''"

definition defaultFlows :: "controller \<Rightarrow> err option \<times> controller" where
  "defaultFlows c =
     (let flow = WithActionResubmit tableNetworkPolicies (WithPriority 1000 (WithTable tableEntry NewFlow));
          c = add_flow flow c;
          flow = WithActionResubmit tableClassification (WithPriority 0 (WithTable tableNetworkPolicies NewFlow));
          c = add_flow flow c;
          flow = WithActionLocal (WithPriority 0 (WithTable tableClassification NewFlow));
          c = add_flow flow c;
          flow = WithActionLocal (WithIPDest (gatewayIP c) (WithProtocol ''ip''
                   (WithPriority 500 (WithTable tableClassification NewFlow))));
          c = add_flow flow c;
          flow = WithActionResubmit tableL2Rewrites (WithIPDest (podCIDR c) (WithProtocol ''ip''
                   (WithPriority 300 (WithTable tableClassification NewFlow))));
          c = add_flow flow c;
          flow = WithActionResubmit tableL3Forwarding (WithIPDest (clusterCIDR c) (WithProtocol ''ip''
                   (WithPriority 100 (WithTable tableClassification NewFlow))));
          c = add_flow flow c;
          flow = WithActionResubmit tableLocalARP (WithProtocol ''arp''
                   (WithPriority 100 (WithTable tableClassification NewFlow)));
          c = add_flow flow c;
          flow = WithRaw (arp_reply_raw (gatewayIP c) (bridgeMAC c)) NewFlow;
          c = add_flow flow c;
          flow = WithRaw (arp_cluster_raw (clusterCIDR c) podMacAddr) NewFlow;
          c = add_flow flow c
      in (None, c))"

section \<open>The flows of a vswitch configuration\<close>

definition flowsForVSwitch :: "VSwitchConfig \<Rightarrow> controller \<Rightarrow> err option \<times> controller" where
  "flowsForVSwitch vswitch c =
     (let isCurrentNode = (vs_Name vswitch = nodeName c);
          cidr = PodCIDR (Spec vswitch);
          c = (if \<not> isCurrentNode then
                 add_flow (WithActionOutputPort (overlayOFPort c)
                   (WithActionTunnelDest (OverlayIP (Spec vswitch)) (WithIPDest cidr
                   (WithProtocol ''ip'' (WithPriority 150 (WithTable tableL3Forwarding NewFlow)))))) c
               else
                 add_flow (WithActionResubmit tableL2Rewrites (WithIPDest cidr
                   (WithProtocol ''ip'' (WithPriority 100 (WithTable tableL3Forwarding NewFlow))))) c);
          nodeIP = OverlayIP (Spec vswitch);
          c = (if isCurrentNode then
                 (let c = add_flow (WithActionLocal (WithActionModDlDest (bridgeMAC c) (WithIPSrc cidr
                            (WithIPDest nodeIP (WithProtocol ''ip''
                            (WithPriority 100 (WithTable tableClassification NewFlow))))))) c
                  in add_flow (WithActionOutputPort (clusterWideOFPort c)
                       (WithActionModDlDest (clusterWideMAC c) (WithIPDest nodeIP (WithProtocol ''ip''
                       (WithPriority 50 (WithTable tableClassification NewFlow)))))) c)
               else
                 (let c = add_flow (WithActionResubmit tableL3Forwarding (WithIPDest nodeIP
                            (WithProtocol ''ip'' (WithPriority 50 (WithTable tableClassification NewFlow))))) c
                  in add_flow (WithActionOutputPort (overlayOFPort c) (WithActionTunnelDest nodeIP
                       (WithIPDest nodeIP (WithProtocol ''ip''
                       (WithPriority 100 (WithTable tableL3Forwarding NewFlow)))))) c))
      in (None, c))"

section \<open>Local addresses and the flows of a pod\<close>

definition isLocalIP :: "controller \<Rightarrow> string \<Rightarrow> err + bool" where
  "isLocalIP c ip =
     (case ParseCIDR (podCIDR c) of
        Inl e \<Rightarrow> Inl e
      | Inr (_, ipnet) \<Rightarrow> Inr (IPNet_Contains ipnet (ParseIP ip)))"

definition flowsForPod :: "os \<Rightarrow> Pod \<Rightarrow> controller \<Rightarrow> (err option \<times> controller) option" where
  "flowsForPod env pod c =
     (let podIP = PodIP pod in
      if podIP = [] then Some (None, c)
      else (case isLocalIP c podIP of
              Inl e \<Rightarrow> Some (Some (Errorf ''error checking if IP is local'' e), c)
            | Inr local \<Rightarrow>
                if \<not> local then Some (None, c)
                else do {
                  (podPortInfo, cache, t) \<leftarrow> GetPortInfo env pod (portCache c);
                  let c = c\<lparr>portCache := cache, trace := trace c @ t\<rparr>;
                  (case podPortInfo of
                     Inl e \<Rightarrow> Some (Some (Errorf ''error checking port info for pod'' e), c)
                   | Inr info \<Rightarrow>
                       (let flow = WithActionOutputPort (ofport info) (WithActionModDlDest podMacAddr
                              (WithIPDest podIP (WithProtocol ''ip''
                              (WithPriority 100 (WithTable tableL2Rewrites NewFlow)))));
                            c = add_flow flow c;
                            flow = WithRaw (arp_reply_raw podIP podMacAddr) NewFlow;
                            c = add_flow flow c
                        in Some (None, c))) }))"

definition podNeedsUpdate :: "controller \<Rightarrow> Pod \<Rightarrow> err + bool" where
  "podNeedsUpdate c pod =
     (let podIP = PodIP pod in
      if podIP = [] then Inr False
      else (case isLocalIP c podIP of
              Inl e \<Rightarrow> Inl (Errorf ''error checking if IP is local'' e)
            | Inr local \<Rightarrow> Inr local))"

section \<open>What the operations emit\<close>

definition emit :: "Flow list \<Rightarrow> controller \<Rightarrow> controller" where
  "emit fs c = c\<lparr>flows := add_flows fs (flows c)\<rparr>"

interpretation ctl: output_sink emit
  by unfold_locales (simp_all add: emit_def buf.emit_Nil buf.emit_append)

lemma add_flow_emit [emits]: "add_flow f c = emit [f] c"
  by (simp add: add_flow_def emit_def)

lemma emit_emit [simp]: "emit gs (emit fs c) = emit (fs @ gs) c"
  by (simp add: ctl.emit_append)

lemma emit_fields [simp]:
  "datapathID (emit fs c) = datapathID c" "nodeName (emit fs c) = nodeName c"
  "bridgeName (emit fs c) = bridgeName c" "gatewayIP (emit fs c) = gatewayIP c"
  "bridgeMAC (emit fs c) = bridgeMAC c" "clusterWideMAC (emit fs c) = clusterWideMAC c"
  "podCIDR (emit fs c) = podCIDR c" "clusterCIDR (emit fs c) = clusterCIDR c"
  "clusterWideOFPort (emit fs c) = clusterWideOFPort c" "overlayOFPort (emit fs c) = overlayOFPort c"
  "portCache (emit fs c) = portCache c" "trace (emit fs c) = trace c"
  "flows (emit fs c) = add_flows fs (flows c)"
  by (simp_all add: emit_def)

lemma isLocalIP_emit [simp]: "isLocalIP (emit fs c) ip = isLocalIP c ip"
  by (simp add: isLocalIP_def)

text \<open>An IP flow of a table: the parts most flows share.\<close>

abbreviation ip_flow :: "int \<Rightarrow> int \<Rightarrow> Flow" where
  "ip_flow t p \<equiv> NewFlow\<lparr>table := t, priority := p, protocol := ''ip''\<rparr>"

definition default_flows :: "controller \<Rightarrow> Flow list" where
  "default_flows c =
     [NewFlow\<lparr>table := 0, priority := 1000, resubmit := 10\<rparr>,
      NewFlow\<lparr>table := 10, priority := 0, resubmit := 20\<rparr>,
      NewFlow\<lparr>table := 20, priority := 0, local_act := True\<rparr>,
      (ip_flow 20 500)\<lparr>ipDest := gatewayIP c, local_act := True\<rparr>,
      (ip_flow 20 300)\<lparr>ipDest := podCIDR c, resubmit := 60\<rparr>,
      (ip_flow 20 100)\<lparr>ipDest := clusterCIDR c, resubmit := 30\<rparr>,
      NewFlow\<lparr>table := 20, priority := 100, protocol := ''arp'', resubmit := 100\<rparr>,
      NewFlow\<lparr>raw := arp_reply_raw (gatewayIP c) (bridgeMAC c)\<rparr>,
      NewFlow\<lparr>raw := arp_cluster_raw (clusterCIDR c) podMacAddr\<rparr>]"

lemma defaultFlows_emits [emits]: "defaultFlows c = (None, emit (default_flows c) c)"
  by (simp add: defaultFlows_def default_flows_def Let_def add_flow_emit builder_defs table_defs)

definition vswitch_flows :: "controller \<Rightarrow> VSwitchConfig \<Rightarrow> Flow list" where
  "vswitch_flows c v =
     (let cidr = PodCIDR (Spec v); nodeIP = OverlayIP (Spec v) in
      if vs_Name v = nodeName c then
        [(ip_flow 30 100)\<lparr>ipDest := cidr, resubmit := 60\<rparr>,
         (ip_flow 20 100)\<lparr>ipDest := nodeIP, ipSrc := cidr, modDlDest := bridgeMAC c, local_act := True\<rparr>,
         (ip_flow 20 50)\<lparr>ipDest := nodeIP, modDlDest := clusterWideMAC c, outPort := clusterWideOFPort c\<rparr>]
      else
        [(ip_flow 30 150)\<lparr>ipDest := cidr, tunDest := nodeIP, outPort := overlayOFPort c\<rparr>,
         (ip_flow 20 50)\<lparr>ipDest := nodeIP, resubmit := 30\<rparr>,
         (ip_flow 30 100)\<lparr>ipDest := nodeIP, tunDest := nodeIP, outPort := overlayOFPort c\<rparr>])"

lemma flowsForVSwitch_emits [emits]: "flowsForVSwitch v c = (None, emit (vswitch_flows c v) c)"
  by (simp add: flowsForVSwitch_def vswitch_flows_def Let_def add_flow_emit builder_defs table_defs)

definition pod_flows :: "string \<Rightarrow> portInfo \<Rightarrow> Flow list" where
  "pod_flows ip info =
     [(ip_flow 60 100)\<lparr>ipDest := ip, modDlDest := podMacAddr, outPort := ofport info\<rparr>,
      NewFlow\<lparr>raw := arp_reply_raw ip podMacAddr\<rparr>]"

lemma flowsForPod_local:
  assumes "PodIP pod \<noteq> []" and "isLocalIP c (PodIP pod) = Inr True"
    and "GetPortInfo env pod (portCache c) = Some (Inr info, cache, t)"
  shows "flowsForPod env pod c =
    Some (None, emit (pod_flows (PodIP pod) info) (c\<lparr>portCache := cache, trace := trace c @ t\<rparr>))"
  using assms by (simp add: flowsForPod_def pod_flows_def Let_def add_flow_emit builder_defs table_defs)

lemma flowsForPod_skip:
  assumes "PodIP pod = [] \<or> isLocalIP c (PodIP pod) = Inr False"
  shows "flowsForPod env pod c = Some (None, c)"
  using assms by (auto simp: flowsForPod_def Let_def)

section \<open>The gateway\<close>

lemma NewController_fields:
  assumes "NewController env br brMAC cwMAC node pc cc = Inr ct"
  shows "podCIDR ct = pc" "flows ct = NewFlowsBuffer" "portCache ct = NewPortCache" "nodeName ct = node"
    and "\<exists>ip nt. ParseCIDR pc = Inr (ip, nt) \<and> gatewayIP ct = IP_String (NextIP (Mask (net_IP nt) (net_Mask nt)))"
  using assms by (auto simp: NewController_def Let_def split: sum.split_asm prod.split_asm)

lemma isLocalIP_v4:
  assumes "podCIDR c = cidr_text a b d e n" and "n \<le> 32"
  shows "isLocalIP c (dotted w x y z) =
    Inr (be_val [a, b, d, e] div 2 ^ (32 - n) = be_val [w, x, y, z] div 2 ^ (32 - n))"
  using assms by (simp add: isLocalIP_def ParseCIDR_v4 Contains_v4)

lemma gateway_v4:
  assumes "NewController env br brMAC cwMAC node (cidr_text a b d e n) cc = Inr ct"
    and "n < 32" and "16777216 \<le> network a b d e n"
  shows "gatewayIP ct = IP_String (addr4 (network a b d e n + 1)) \<and> isLocalIP ct (gatewayIP ct) = Inr True"
proof -
  let ?g = "network a b d e n + 1"
  from NewController_fields(5) [OF assms(1)] assms(2) have
    g: "gatewayIP ct = IP_String (NextIP (Mask (and_bytes [a, b, d, e] (CIDRMask n 32)) (CIDRMask n 32)))"
    by (simp add: ParseCIDR_v4)
  then have g4: "gatewayIP ct = IP_String (addr4 ?g)" using NextIP_network [OF assms(2,3)] by simp
  have v: "be_val (addr4 ?g) = ?g" by (rule be_val_addr4 [OF next_in_network(2) [OF assms(2)]])
  have "isLocalIP ct (gatewayIP ct) = Inr (be_val [a, b, d, e] div 2 ^ (32 - n) = be_val (addr4 ?g) div 2 ^ (32 - n))"
    unfolding g4 IP_String_addr4 addr4_def [of ?g]
    using isLocalIP_v4 [OF NewController_fields(1) [OF assms(1)]] assms(2) by simp
  with v next_in_network(1) [OF assms(2), of a b d e] g4 show ?thesis by simp
qed

end
