(* ===== verification/PolicyFlows.thy ===== *)
theory PolicyFlows
  imports NetPolicy
begin

text \<open>
  The specification of \<^verbatim>\<open>NetPolicy\<close>: the flows one direction of a policy emits, written once for both
  directions, as a list, with no state.  The two halves of the code refine it
  (\<open>flowsForIngressNetworkPolicy_emits\<close>, \<open>flowsForEgressNetworkPolicy_emits\<close>), so what follows about the
  specification holds of both.
\<close>

section \<open>The specification\<close>

datatype direction = IngressDir | EgressDir

text \<open>The flow between a local pod and a remote address, seen from the direction.\<close>

definition oriented :: "direction \<Rightarrow> string \<Rightarrow> string \<Rightarrow> Flow \<Rightarrow> Flow" where
  "oriented d lc rm f =
     (case d of IngressDir \<Rightarrow> f\<lparr>ipDest := lc, ipSrc := rm\<rparr> | EgressDir \<Rightarrow> f\<lparr>ipDest := rm, ipSrc := lc\<rparr>)"

abbreviation policy_flow :: "int \<Rightarrow> string \<Rightarrow> Flow" where
  "policy_flow prio proto \<equiv> NewFlow\<lparr>table := 10, priority := prio, protocol := proto\<rparr>"

definition default_drop :: "direction \<Rightarrow> string \<Rightarrow> Flow" where
  "default_drop d lc = oriented d lc [] ((policy_flow 100 ''ip'')\<lparr>drop_act := True\<rparr>)"

definition allow_ip :: "direction \<Rightarrow> string \<Rightarrow> string \<Rightarrow> Flow" where
  "allow_ip d lc rm = oriented d lc rm ((policy_flow 1000 ''ip'')\<lparr>resubmit := 20\<rparr>)"

definition except_drop :: "direction \<Rightarrow> string \<Rightarrow> string \<Rightarrow> Flow" where
  "except_drop d lc rm = oriented d lc rm ((policy_flow 1100 ''ip'')\<lparr>drop_act := True\<rparr>)"

definition allow_tcp :: "direction \<Rightarrow> string \<Rightarrow> string \<Rightarrow> int \<Rightarrow> Flow" where
  "allow_tcp d lc rm n = oriented d lc rm ((policy_flow 1000 ''tcp'')\<lparr>tcpDestPort := n, resubmit := 20\<rparr>)"

definition allow_udp :: "direction \<Rightarrow> string \<Rightarrow> string \<Rightarrow> int \<Rightarrow> Flow" where
  "allow_udp d lc rm n = oriented d lc rm ((policy_flow 1000 ''udp'')\<lparr>udpDestPort := n, resubmit := 20\<rparr>)"

definition allow_port :: "direction \<Rightarrow> string \<Rightarrow> string \<Rightarrow> NetworkPolicyPort \<Rightarrow> Flow list option" where
  "allow_port d lc rm port = do {
     n \<leftarrow> IntValue (Port port);
     p \<leftarrow> Protocol port;
     Some (if ToLower p = ''tcp'' then [allow_tcp d lc rm n]
           else if ToLower p = ''udp'' then [allow_udp d lc rm n] else []) }"

definition allow_pair :: "direction \<Rightarrow> NetworkPolicyPort list \<Rightarrow> string \<Rightarrow> string \<Rightarrow> Flow list option" where
  "allow_pair d ports lc rm =
     (if ports = [] then Some [allow_ip d lc rm] else collect (allow_port d lc rm) ports)"

definition block_flows :: "direction \<Rightarrow> string list \<Rightarrow> IPBlock \<Rightarrow> Flow list" where
  "block_flows d locals b =
     map (\<lambda>lc. allow_ip d lc (CIDR b)) locals @
     concat (map (\<lambda>rm. map (\<lambda>lc. except_drop d lc rm) locals) (Except b))"

definition namespace_flows ::
  "direction \<Rightarrow> listers \<Rightarrow> NetworkPolicyPort list \<Rightarrow> LabelSelector \<Rightarrow> string list \<Rightarrow> string \<Rightarrow> Flow list option" where
  "namespace_flows d L ports sel locals ns =
     (case podLister_Pods_List L ns (peer_labelSelector sel) of
        Inl e \<Rightarrow> Some []
      | Inr pods \<Rightarrow> collect (\<lambda>lc. collect (allow_pair d ports lc) (getPodIPs pods)) locals)"

definition peer_flows ::
  "direction \<Rightarrow> listers \<Rightarrow> string \<Rightarrow> NetworkPolicyPort list \<Rightarrow> string list \<Rightarrow> NetworkPolicyPeer \<Rightarrow> Flow list option" where
  "peer_flows d L ns ports locals peer =
     (case peer_IPBlock peer of
        Some b \<Rightarrow> Some (block_flows d locals b)
      | None \<Rightarrow>
          (case PodSelector peer of
             None \<Rightarrow> Some []
           | Some sel \<Rightarrow>
               (case peer_namespaces L ns peer of
                  None \<Rightarrow> Some []
                | Some nss \<Rightarrow> collect (namespace_flows d L ports sel locals) nss)))"

type_synonym rule = "NetworkPolicyPort list \<times> NetworkPolicyPeer list"

definition rule_flows ::
  "direction \<Rightarrow> listers \<Rightarrow> string \<Rightarrow> string list \<Rightarrow> rule \<Rightarrow> Flow list option" where
  "rule_flows d L ns locals r =
     (if snd r = [] then collect (\<lambda>lc. allow_pair d (fst r) lc []) locals
      else collect (peer_flows d L ns (fst r) locals) (snd r))"

definition policy_rules :: "direction \<Rightarrow> NetworkPolicy \<Rightarrow> rule list" where
  "policy_rules d np =
     (case d of
        IngressDir \<Rightarrow> map (\<lambda>r. (ing_Ports r, From r)) (Ingress (np_Spec np))
      | EgressDir \<Rightarrow> map (\<lambda>r. (eg_Ports r, To r)) (Egress (np_Spec np)))"

definition policy_flows :: "direction \<Rightarrow> listers \<Rightarrow> NetworkPolicy \<Rightarrow> string list \<Rightarrow> Flow list option" where
  "policy_flows d L np locals = do {
     fs \<leftarrow> collect (rule_flows d L (np_Namespace np) locals) (policy_rules d np);
     Some (map (default_drop d) locals @ fs) }"

lemmas policy_flow_defs =
  oriented_def default_drop_def allow_ip_def except_drop_def allow_tcp_def allow_udp_def

section \<open>The code refines it\<close>

abbreviation emits_to :: "Flow list option \<Rightarrow> controller \<Rightarrow> controller option" where
  "emits_to fs c \<equiv> map_option (\<lambda>fs. emit fs c) fs"

lemma getPodIPs_eq: "getPodIPs pods = filter (\<lambda>ip. ip \<noteq> []) (map PodIP pods)"
proof -
  have "fold (\<lambda>pod ips. let ip = PodIP pod in if ip = [] then ips else ips @ [ip]) pods acc =
      acc @ filter (\<lambda>ip. ip \<noteq> []) (map PodIP pods)" for acc
    by (induction pods arbitrary: acc) (simp_all add: Let_def)
  from this [of "[]"] show ?thesis by (simp add: getPodIPs_def)
qed

lemma collect_single: "collect (\<lambda>x. Some [h x]) xs = Some (map h xs)"
  by (induction xs) simp_all

lemma collect_map [simp]: "collect g (map h xs) = collect (\<lambda>x. g (h x)) xs"
  by (simp add: collect_def comp_def)

lemma fold_add_flow [emits]: "fold (\<lambda>x c. add_flow (h x) c) xs c = emit (map h xs) c"
  by (subst ctl.fold_emits [where g = "\<lambda>x. [h x]"]) (simp_all add: add_flow_emit)

lemma ingress_port_any_emits [emits]:
  "ingress_port_any ip port c = emits_to (allow_port IngressDir ip [] port) c"
  by (cases "IntValue (Port port)"; cases "Protocol port")
    (auto simp: ingress_port_any_def allow_port_def Let_def emits ctl.emit_Nil builder_defs table_defs
        policy_flow_defs NewFlow_def)

lemma egress_port_any_emits [emits]:
  "egress_port_any ip port c = emits_to (allow_port EgressDir ip [] port) c"
  by (cases "IntValue (Port port)"; cases "Protocol port")
    (auto simp: egress_port_any_def allow_port_def Let_def emits ctl.emit_Nil builder_defs table_defs
        policy_flow_defs NewFlow_def)

lemma ingress_port_emits [emits]:
  "ingress_port src dst port c = emits_to (allow_port IngressDir dst src port) c"
  by (cases "IntValue (Port port)"; cases "Protocol port")
    (auto simp: ingress_port_def allow_port_def Let_def emits ctl.emit_Nil builder_defs table_defs
        policy_flow_defs)

lemma egress_port_emits [emits]:
  "egress_port src dst port c = emits_to (allow_port EgressDir src dst port) c"
  by (cases "IntValue (Port port)"; cases "Protocol port")
    (auto simp: egress_port_def allow_port_def Let_def emits ctl.emit_Nil builder_defs table_defs
        policy_flow_defs)

lemma ports_loop_emits:
  assumes "\<And>port c. body port c = emits_to (allow_port d lc rm port) c"
  shows "(if length ports = 0 then Some (emit [allow_ip d lc rm] c) else foreach body ports c) =
    emits_to (allow_pair d ports lc rm) c"
  by (simp add: allow_pair_def ctl.foreach_emits [where g = "allow_port d lc rm"] assms)

lemma ingress_rule_any_emits [emits]:
  "ingress_rule_any ing locals c = emits_to (collect (\<lambda>lc. allow_pair IngressDir (ing_Ports ing) lc []) locals) c"
proof -
  have flow: "WithActionResubmit tableClassification (WithIPDest ip (WithProtocol ''ip''
      (WithPriority 1000 (WithTable tableNetworkPolicies NewFlow)))) = allow_ip IngressDir ip []" for ip
    by (simp add: builder_defs table_defs policy_flow_defs NewFlow_def)
  show ?thesis
    unfolding ingress_rule_any_def flow add_flow_emit
    by (intro ctl.foreach_emits ports_loop_emits ingress_port_any_emits)
qed

lemma egress_rule_any_emits [emits]:
  "egress_rule_any eg locals c = emits_to (collect (\<lambda>lc. allow_pair EgressDir (eg_Ports eg) lc []) locals) c"
proof -
  have flow: "WithActionResubmit tableClassification (WithIPSrc ip (WithProtocol ''ip''
      (WithPriority 1000 (WithTable tableNetworkPolicies NewFlow)))) = allow_ip EgressDir ip []" for ip
    by (simp add: builder_defs table_defs policy_flow_defs NewFlow_def)
  show ?thesis
    unfolding egress_rule_any_def flow add_flow_emit
    by (intro ctl.foreach_emits ports_loop_emits egress_port_any_emits)
qed

lemma ingress_ipBlock_emits [emits]: "ingress_ipBlock b locals c = emit (block_flows IngressDir locals b) c"
  unfolding ingress_ipBlock_def Let_def fold_add_flow
  by (subst ctl.fold_emits [OF refl])
    (simp add: block_flows_def builder_defs table_defs policy_flow_defs)

lemma egress_ipBlock_emits [emits]: "egress_ipBlock b locals c = emit (block_flows EgressDir locals b) c"
  unfolding egress_ipBlock_def Let_def fold_add_flow
  by (subst ctl.fold_emits [OF refl])
    (simp add: block_flows_def builder_defs table_defs policy_flow_defs)

lemma ingress_namespace_emits [emits]:
  "ingress_namespace L ing sel locals ns c = emits_to (namespace_flows IngressDir L (ing_Ports ing) sel locals ns) c"
proof -
  have flow: "WithActionResubmit tableClassification (WithIPDest dst (WithIPSrc src (WithProtocol ''ip''
      (WithPriority 1000 (WithTable tableNetworkPolicies NewFlow))))) = allow_ip IngressDir dst src" for dst src
    by (simp add: builder_defs table_defs policy_flow_defs)
  have "foreach (\<lambda>dst c. foreach (\<lambda>src c.
        if length (ing_Ports ing) = 0 then Some (emit [allow_ip IngressDir dst src] c)
        else foreach (ingress_port src dst) (ing_Ports ing) c) (getPodIPs pods) c) locals c =
      emits_to (collect (\<lambda>lc. collect (allow_pair IngressDir (ing_Ports ing) lc) (getPodIPs pods)) locals) c" for pods
    by (intro ctl.foreach_emits ports_loop_emits ingress_port_emits)
  then show ?thesis
    unfolding ingress_namespace_def namespace_flows_def flow add_flow_emit Let_def
    by (simp add: ctl.emit_Nil split: sum.split)
qed

lemma egress_namespace_emits [emits]:
  "egress_namespace L eg sel locals ns c = emits_to (namespace_flows EgressDir L (eg_Ports eg) sel locals ns) c"
proof -
  have flow: "WithActionResubmit tableClassification (WithIPDest dst (WithIPSrc src (WithProtocol ''ip''
      (WithPriority 1000 (WithTable tableNetworkPolicies NewFlow))))) = allow_ip EgressDir src dst" for dst src
    by (simp add: builder_defs table_defs policy_flow_defs)
  have "foreach (\<lambda>src c. foreach (\<lambda>dst c.
        if length (eg_Ports eg) = 0 then Some (emit [allow_ip EgressDir src dst] c)
        else foreach (egress_port src dst) (eg_Ports eg) c) (getPodIPs pods) c) locals c =
      emits_to (collect (\<lambda>lc. collect (allow_pair EgressDir (eg_Ports eg) lc) (getPodIPs pods)) locals) c" for pods
    by (intro ctl.foreach_emits ports_loop_emits egress_port_emits)
  then show ?thesis
    unfolding egress_namespace_def namespace_flows_def flow add_flow_emit Let_def
    by (simp add: ctl.emit_Nil split: sum.split)
qed

lemma ingress_peer_emits [emits]:
  "ingress_peer L ns ing locals peer c = emits_to (peer_flows IngressDir L ns (ing_Ports ing) locals peer) c"
  by (simp add: ingress_peer_def peer_flows_def emits ctl.emit_Nil
      ctl.foreach_emits [OF ingress_namespace_emits] split: option.split)

lemma egress_peer_emits [emits]:
  "egress_peer L ns eg locals peer c = emits_to (peer_flows EgressDir L ns (eg_Ports eg) locals peer) c"
  by (simp add: egress_peer_def peer_flows_def emits ctl.emit_Nil
      ctl.foreach_emits [OF egress_namespace_emits] split: option.split)

lemma emits_after:
  "do { c \<leftarrow> emits_to a (emit fs c); Some (None, c) } =
     map_option (\<lambda>fs. (None :: err option, emit fs c)) (do { gs \<leftarrow> a; Some (fs @ gs) })"
  by (cases a) simp_all

lemma flowsForIngressNetworkPolicy_emits [emits]:
  "flowsForIngressNetworkPolicy L np locals c =
     map_option (\<lambda>fs. (None, emit fs c)) (policy_flows IngressDir L np locals)"
proof -
  have drop: "WithActionDrop (WithIPDest ip (WithProtocol ''ip'' (WithPriority 100
      (WithTable tableNetworkPolicies NewFlow)))) = default_drop IngressDir ip" for ip
    by (simp add: builder_defs table_defs policy_flow_defs NewFlow_def)
  have rule: "(if length (From ing) = 0 then ingress_rule_any ing locals c
      else foreach (ingress_peer L (np_Namespace np) ing locals) (From ing) c) =
      emits_to (rule_flows IngressDir L (np_Namespace np) locals (ing_Ports ing, From ing)) c" for ing c
    by (simp add: rule_flows_def emits ctl.foreach_emits [OF ingress_peer_emits])
  show ?thesis
    unfolding flowsForIngressNetworkPolicy_def Let_def drop fold_add_flow ctl.foreach_emits [OF rule] emits_after
    by (simp add: policy_flows_def policy_rules_def)
qed

lemma flowsForEgressNetworkPolicy_emits [emits]:
  "flowsForEgressNetworkPolicy L np locals c =
     map_option (\<lambda>fs. (None, emit fs c)) (policy_flows EgressDir L np locals)"
proof -
  have drop: "WithActionDrop (WithIPSrc ip (WithProtocol ''ip'' (WithPriority 100
      (WithTable tableNetworkPolicies NewFlow)))) = default_drop EgressDir ip" for ip
    by (simp add: builder_defs table_defs policy_flow_defs NewFlow_def)
  have rule: "(if length (To eg) = 0 then egress_rule_any eg locals c
      else foreach (egress_peer L (np_Namespace np) eg locals) (To eg) c) =
      emits_to (rule_flows EgressDir L (np_Namespace np) locals (eg_Ports eg, To eg)) c" for eg c
    by (simp add: rule_flows_def emits ctl.foreach_emits [OF egress_peer_emits])
  show ?thesis
    unfolding flowsForEgressNetworkPolicy_def Let_def drop fold_add_flow ctl.foreach_emits [OF rule] emits_after
    by (simp add: policy_flows_def policy_rules_def)
qed

section \<open>A policy of both directions\<close>

text \<open>The local pods a policy applies to.\<close>

definition local_ips :: "controller \<Rightarrow> Pod list \<Rightarrow> string list" where
  "local_ips c pods = filter (\<lambda>ip. ip \<noteq> [] \<and> isLocalIP c ip = Inr True) (map PodIP pods)"

definition selected_ips :: "listers \<Rightarrow> controller \<Rightarrow> NetworkPolicy \<Rightarrow> string list" where
  "selected_ips L c np =
     (case podLister_Pods_List L (np_Namespace np)
             (AsSelector (MatchLabels (np_PodSelector (np_Spec np)))) of
        Inl e \<Rightarrow> [] | Inr pods \<Rightarrow> local_ips c pods)"

definition network_policy_flows :: "listers \<Rightarrow> controller \<Rightarrow> NetworkPolicy \<Rightarrow> Flow list option" where
  "network_policy_flows L c np = do {
     fs \<leftarrow> policy_flows IngressDir L np (selected_ips L c np);
     gs \<leftarrow> policy_flows EgressDir L np (selected_ips L c np);
     Some (fs @ gs) }"

lemma local_ips_loop:
  "fold (\<lambda>pod ips.
      (let podIP = PodIP pod in
       if podIP = [] then ips
       else (case isLocalIP c podIP of
               Inl e \<Rightarrow> ips
             | Inr local \<Rightarrow> if \<not> local then ips else ips @ [podIP]))) pods acc = acc @ local_ips c pods"
  by (induction pods arbitrary: acc) (auto simp: Let_def local_ips_def split: sum.splits)

lemma flowsForNetworkPolicy_emits:
  assumes "podLister_Pods_List L (np_Namespace np)
      (AsSelector (MatchLabels (np_PodSelector (np_Spec np)))) = Inr pods"
  shows "flowsForNetworkPolicy L np c =
    map_option (\<lambda>fs. (None, emit fs c)) (network_policy_flows L c np)"
proof -
  have loop: "flowsForNetworkPolicy L np c = do {
      (e, c') \<leftarrow> flowsForIngressNetworkPolicy L np (local_ips c pods) c;
      (e, c') \<leftarrow> flowsForEgressNetworkPolicy L np (local_ips c pods) c';
      Some (None, c') }"
    unfolding flowsForNetworkPolicy_def assms local_ips_loop by (simp add: Let_def)
  show ?thesis
    by (cases "policy_flows IngressDir L np (local_ips c pods)"; cases "policy_flows EgressDir L np (local_ips c pods)")
      (simp_all add: loop emits network_policy_flows_def selected_ips_def assms)
qed

lemma flowsForNetworkPolicy_error:
  assumes "podLister_Pods_List L (np_Namespace np)
      (AsSelector (MatchLabels (np_PodSelector (np_Spec np)))) = Inl e"
  shows "flowsForNetworkPolicy L np c = Some (Some (Errorf ''error listing pods by pod selector'' e), c)"
  using assms by (simp add: flowsForNetworkPolicy_def)

end
