(* ===== verification/SyncFlows.thy ===== *)
theory SyncFlows
  imports PolicyFlows
begin

text \<open>
  \<^verbatim>\<open>syncFlows\<close>, which recomputes every flow of the bridge and replaces them in one command, and the
  informer handlers that call it (\<^verbatim>\<open>controllers/openflow/flows.go\<close>).  \<^verbatim>\<open>flowsLock\<close> makes a
  synchronisation one step.

  The specification \<open>desired_flows\<close> says what a synchronisation installs: a function of the
  configuration, the objects listed and the ports found, and of no earlier synchronisation.
\<close>

section \<open>The synchronisation\<close>

definition sync_vswitch :: "VSwitchConfig \<Rightarrow> controller \<Rightarrow> controller" where
  "sync_vswitch vswitchCfg c = (let (err, c) = flowsForVSwitch vswitchCfg c in c)"

definition sync_pod :: "os \<Rightarrow> Pod \<Rightarrow> controller \<Rightarrow> controller option" where
  "sync_pod env pod c = do { (err, c) \<leftarrow> flowsForPod env pod c; Some c }"

definition sync_netPol :: "listers \<Rightarrow> NetworkPolicy \<Rightarrow> controller \<Rightarrow> controller option" where
  "sync_netPol L netPol c = do { (err, c) \<leftarrow> flowsForNetworkPolicy L netPol c; Some c }"

definition syncFlows :: "os \<Rightarrow> listers \<Rightarrow> controller \<Rightarrow> (err option \<times> controller) option" where
  "syncFlows env L c =
     (let c = c\<lparr>flows := Reset (flows c)\<rparr> in
      case defaultFlows c of
        (Some e, c) \<Rightarrow> Some (Some (Errorf ''error adding default flows'' e), c)
      | (None, c) \<Rightarrow>
          (case vswitchLister_List L Everything of
             Inl e \<Rightarrow> Some (Some (Errorf ''error listing vswitch configs'' e), c)
           | Inr vswitchCfgs \<Rightarrow>
               (let c = fold sync_vswitch vswitchCfgs c in
                case podLister_List L Everything of
                  Inl e \<Rightarrow> Some (Some (Errorf ''error listing pods'' e), c)
                | Inr pods \<Rightarrow> do {
                    c \<leftarrow> foreach (sync_pod env) pods c;
                    (case netPolLister_List L Everything of
                       Inl e \<Rightarrow> Some (Some (Errorf ''error getting network policies'' e), c)
                     | Inr netPols \<Rightarrow> do {
                         c \<leftarrow> foreach (sync_netPol L) netPols c;
                         (case Buffer_SyncFlows env (bridgeName c) (flows c) of
                            (Inl e, t) \<Rightarrow> Some (Some (Errorf ''error syncing flows'' e), c\<lparr>trace := trace c @ t\<rparr>)
                          | (Inr _, t) \<Rightarrow> Some (None, c\<lparr>trace := trace c @ t\<rparr>)) }) })))"

section \<open>The informer handlers\<close>

text \<open>
  An informer hands its handler an \<^verbatim>\<open>interface{}\<close>: the object, the tombstone of a missed deletion, or
  something else.  Errors are logged; the handlers return nothing.
\<close>

datatype 'o informer_obj = Object 'o | DeletedFinalStateUnknown string | OtherObject

definition handler_sync :: "os \<Rightarrow> listers \<Rightarrow> controller \<Rightarrow> controller option" where
  "handler_sync env L c = map_option snd (syncFlows env L c)"

definition OnAddVSwitch :: "os \<Rightarrow> listers \<Rightarrow> VSwitchConfig informer_obj \<Rightarrow> controller \<Rightarrow> controller option" where
  "OnAddVSwitch env L obj c = handler_sync env L c"

definition OnUpdateVSwitch ::
  "os \<Rightarrow> listers \<Rightarrow> VSwitchConfig informer_obj \<Rightarrow> VSwitchConfig informer_obj \<Rightarrow> controller \<Rightarrow> controller option" where
  "OnUpdateVSwitch env L oldObj newObj c = handler_sync env L c"

definition OnDeleteVSwitch :: "VSwitchConfig informer_obj \<Rightarrow> controller \<Rightarrow> controller option" where
  "OnDeleteVSwitch obj c = Some c"

definition OnAddPod :: "os \<Rightarrow> listers \<Rightarrow> Pod informer_obj \<Rightarrow> controller \<Rightarrow> controller option" where
  "OnAddPod env L obj c =
     (case obj of
        Object pod \<Rightarrow>
          (case podNeedsUpdate c pod of
             Inl e \<Rightarrow> Some c
           | Inr needsUpdate \<Rightarrow> if \<not> needsUpdate then Some c else handler_sync env L c)
      | _ \<Rightarrow> Some c)"

definition OnUpdatePod ::
  "os \<Rightarrow> listers \<Rightarrow> Pod informer_obj \<Rightarrow> Pod informer_obj \<Rightarrow> controller \<Rightarrow> controller option" where
  "OnUpdatePod env L oldObj newObj c =
     (case newObj of
        Object pod \<Rightarrow>
          (case podNeedsUpdate c pod of
             Inl e \<Rightarrow> Some c
           | Inr needsUpdate \<Rightarrow> if \<not> needsUpdate then Some c else handler_sync env L c)
      | _ \<Rightarrow> Some c)"

definition OnDeletePod :: "Pod informer_obj \<Rightarrow> controller \<Rightarrow> controller option" where
  "OnDeletePod obj c =
     (case obj of
        Object pod \<Rightarrow> Some (c\<lparr>portCache := DelPortInfo pod (portCache c)\<rparr>)
      | _ \<Rightarrow> Some c)"

definition OnAddNetworkPolicy ::
  "os \<Rightarrow> listers \<Rightarrow> NetworkPolicy informer_obj \<Rightarrow> controller \<Rightarrow> controller option" where
  "OnAddNetworkPolicy env L obj c = handler_sync env L c"

definition OnUpdateNetworkPolicy ::
  "os \<Rightarrow> listers \<Rightarrow> NetworkPolicy informer_obj \<Rightarrow> NetworkPolicy informer_obj \<Rightarrow> controller \<Rightarrow> controller option" where
  "OnUpdateNetworkPolicy env L oldObj newObj c = handler_sync env L c"

definition OnDeleteNetworkPolicy ::
  "os \<Rightarrow> listers \<Rightarrow> NetworkPolicy informer_obj \<Rightarrow> controller \<Rightarrow> controller option" where
  "OnDeleteNetworkPolicy env L obj c = handler_sync env L c"

section \<open>What a synchronisation computes\<close>

text \<open>
  A synchronisation changes the buffer, the port cache and the trace; the rest of the controller is
  its configuration.
\<close>

definition advance :: "Flow list \<Rightarrow> portCache \<Rightarrow> command list \<Rightarrow> controller \<Rightarrow> controller" where
  "advance fs cache t c = c\<lparr>flows := add_flows fs (flows c), portCache := cache, trace := trace c @ t\<rparr>"

definition same_config :: "controller \<Rightarrow> controller \<Rightarrow> bool" where
  "same_config c c' \<longleftrightarrow>
     c'\<lparr>flows := flows c, portCache := portCache c, trace := trace c, datapathID := datapathID c\<rparr> = c"

lemma advance_fields [simp]:
  "datapathID (advance fs k t c) = datapathID c" "nodeName (advance fs k t c) = nodeName c"
  "bridgeName (advance fs k t c) = bridgeName c" "gatewayIP (advance fs k t c) = gatewayIP c"
  "bridgeMAC (advance fs k t c) = bridgeMAC c" "clusterWideMAC (advance fs k t c) = clusterWideMAC c"
  "podCIDR (advance fs k t c) = podCIDR c" "clusterCIDR (advance fs k t c) = clusterCIDR c"
  "clusterWideOFPort (advance fs k t c) = clusterWideOFPort c" "overlayOFPort (advance fs k t c) = overlayOFPort c"
  "portCache (advance fs k t c) = k" "trace (advance fs k t c) = trace c @ t"
  "flows (advance fs k t c) = add_flows fs (flows c)"
  by (simp_all add: advance_def)

lemma isLocalIP_advance [simp]: "isLocalIP (advance fs k t c) = isLocalIP c"
  by (rule ext) (simp add: isLocalIP_def)

lemma emit_advance: "emit fs c = advance fs (portCache c) [] c"
  by (simp add: emit_def advance_def)

lemma advance_advance [simp]: "advance gs k' u (advance fs k t c) = advance (fs @ gs) k' (t @ u) c"
  by (simp add: advance_def buf.emit_append)

text \<open>The pods: flows, the new cache, the commands.\<close>

definition pod_result :: "os \<Rightarrow> controller \<Rightarrow> Pod \<Rightarrow> portCache \<Rightarrow> (Flow list \<times> portCache \<times> command list) option" where
  "pod_result env c pod cache =
     (if PodIP pod = [] \<or> isLocalIP c (PodIP pod) \<noteq> Inr True then Some ([], cache, [])
      else do {
        (r, cache', t) \<leftarrow> GetPortInfo env pod cache;
        Some (case r of Inl e \<Rightarrow> [] | Inr info \<Rightarrow> pod_flows (PodIP pod) info, cache', t) })"

primrec pods_result ::
  "os \<Rightarrow> controller \<Rightarrow> Pod list \<Rightarrow> portCache \<Rightarrow> (Flow list \<times> portCache \<times> command list) option" where
  "pods_result env c [] cache = Some ([], cache, [])"
| "pods_result env c (pod # pods) cache = do {
     (fs, cache', t) \<leftarrow> pod_result env c pod cache;
     (gs, cache'', u) \<leftarrow> pods_result env c pods cache';
     Some (fs @ gs, cache'', t @ u) }"

definition netpol_result :: "listers \<Rightarrow> controller \<Rightarrow> NetworkPolicy \<Rightarrow> Flow list option" where
  "netpol_result L c np =
     (case podLister_Pods_List L (np_Namespace np)
             (AsSelector (MatchLabels (np_PodSelector (np_Spec np)))) of
        Inl e \<Rightarrow> Some [] | Inr pods \<Rightarrow> network_policy_flows L c np)"

lemma flowsForPod_result:
  "sync_pod env pod c =
     map_option (\<lambda>(fs, k, t). advance fs k t c) (pod_result env c pod (portCache c))"
proof -
  consider (skip) "PodIP pod = [] \<or> isLocalIP c (PodIP pod) = Inr False"
    | (err) e where "PodIP pod \<noteq> []" "isLocalIP c (PodIP pod) = Inl e"
    | (ok) "PodIP pod \<noteq> []" "isLocalIP c (PodIP pod) = Inr True"
    by (cases "isLocalIP c (PodIP pod)") auto
  then show ?thesis
  proof cases
    case skip
    then show ?thesis
      by (auto simp: sync_pod_def flowsForPod_skip pod_result_def advance_def buf.emit_Nil)
  next
    case err
    then show ?thesis
      by (simp add: sync_pod_def flowsForPod_def pod_result_def advance_def buf.emit_Nil)
  next
    case ok
    show ?thesis
    proof (cases "GetPortInfo env pod (portCache c)")
      case None
      with ok show ?thesis by (simp add: sync_pod_def flowsForPod_def pod_result_def)
    next
      case (Some res)
      obtain r k t where res: "res = (r, k, t)" by (cases res)
      show ?thesis
      proof (cases r)
        case (Inl e)
        with ok Some res show ?thesis
          by (simp add: sync_pod_def flowsForPod_def pod_result_def advance_def buf.emit_Nil)
      next
        case (Inr info)
        with ok Some res have "flowsForPod env pod c =
            Some (None, emit (pod_flows (PodIP pod) info) (c\<lparr>portCache := k, trace := trace c @ t\<rparr>))"
          by (intro flowsForPod_local) simp_all
        with Inr ok Some res show ?thesis
          by (simp add: sync_pod_def pod_result_def advance_def emit_def)
      qed
    qed
  qed
qed

lemma pod_result_advance [simp]: "pod_result env (advance fs k t c) = pod_result env c"
  by (intro ext) (simp add: pod_result_def)

lemma pods_result_advance [simp]: "pods_result env (advance fs k t c) pods = pods_result env c pods"
  by (induction pods) (auto intro!: ext)

lemma foreach_sync_pod:
  "foreach (sync_pod env) pods c =
     map_option (\<lambda>(fs, k, t). advance fs k t c) (pods_result env c pods (portCache c))"
proof (induction pods arbitrary: c)
  case Nil
  then show ?case by (simp add: advance_def buf.emit_Nil)
next
  case (Cons pod pods)
  show ?case
  proof (cases "pod_result env c pod (portCache c)")
    case None
    then show ?thesis by (simp add: flowsForPod_result [of env pod c])
  next
    case (Some res)
    obtain fs k t where res: "res = (fs, k, t)" by (cases res)
    show ?thesis
      by (cases "pods_result env c pods k")
        (auto simp: flowsForPod_result [of env pod c] Some res Cons.IH)
  qed
qed

lemma selected_ips_emit [simp]: "selected_ips L (emit fs c) np = selected_ips L c np"
  by (simp add: selected_ips_def local_ips_def split: sum.split)

lemma netpol_result_emit [simp]: "netpol_result L (emit fs c) np = netpol_result L c np"
  by (simp add: netpol_result_def network_policy_flows_def split: sum.split)

lemma sync_netPol_emits: "sync_netPol L np c = emits_to (netpol_result L c np) c"
  by (cases "podLister_Pods_List L (np_Namespace np) (AsSelector (MatchLabels (np_PodSelector (np_Spec np))))";
      cases "network_policy_flows L c np")
    (simp_all add: sync_netPol_def netpol_result_def flowsForNetworkPolicy_emits flowsForNetworkPolicy_error
      ctl.emit_Nil)

lemma foreach_sync_netPol:
  "foreach (sync_netPol L) nps c = emits_to (collect (netpol_result L c) nps) c"
proof (induction nps arbitrary: c)
  case Nil
  then show ?case by (simp add: ctl.emit_Nil)
next
  case (Cons np nps)
  have same: "netpol_result L (emit fs c) = netpol_result L c" for fs by (rule ext) simp
  show ?case
    by (cases "netpol_result L c np"; cases "collect (netpol_result L c) nps")
      (simp_all add: sync_netPol_emits [of L np c] Cons.IH same)
qed

lemma fold_sync_vswitch: "fold sync_vswitch vs c = emit (concat (map (vswitch_flows c) vs)) c"
proof (induction vs arbitrary: c)
  case (Cons v vs)
  have same: "vswitch_flows (emit fs c) = vswitch_flows c" for fs
    by (rule ext) (simp add: vswitch_flows_def Let_def)
  have "sync_vswitch v c = emit (vswitch_flows c v) c" by (simp add: sync_vswitch_def emits)
  then show ?case by (simp add: Cons.IH same)
qed (simp add: ctl.emit_Nil)

section \<open>What a synchronisation installs\<close>

text \<open>
  The flows, the new port cache and the commands that found the ports: \<open>None\<close> is a panic,
  \<open>Some (Inl e)\<close> an error before the bridge is touched.
\<close>

definition desired_flows ::
  "os \<Rightarrow> listers \<Rightarrow> controller \<Rightarrow> (Flow list \<times> portCache \<times> command list) option" where
  "desired_flows env L c =
     (case (vswitchLister_List L Everything, podLister_List L Everything, netPolLister_List L Everything) of
        (Inr vs, Inr pods, Inr nps) \<Rightarrow> do {
          (pfs, cache, t) \<leftarrow> pods_result env c pods (portCache c);
          nfs \<leftarrow> collect (netpol_result L c) nps;
          Some (default_flows c @ concat (map (vswitch_flows c) vs) @ pfs @ nfs, cache, t) }
      | _ \<Rightarrow> None)"

definition lists_ok :: "listers \<Rightarrow> bool" where
  "lists_ok L \<longleftrightarrow> \<not> isl (vswitchLister_List L Everything) \<and> \<not> isl (podLister_List L Everything)
     \<and> \<not> isl (netPolLister_List L Everything)"

text \<open>The bridge's text after a reset and these flows.\<close>

definition render :: "Flow list \<Rightarrow> string" where
  "render fs = concat (map flow_line fs)"

definition install :: "controller \<Rightarrow> Flow list \<Rightarrow> command" where
  "install c fs = replace_flows (bridgeName c) \<lparr>buffer = render fs\<rparr>"

lemma add_flows_Reset: "add_flows fs (Reset b) = \<lparr>buffer = render fs\<rparr>"
proof -
  have "buffer (add_flows fs (Reset b)) = render fs"
    by (simp add: buffer_add_flows Reset_def render_def)
  then show ?thesis by (cases "add_flows fs (Reset b)") simp
qed

lemma default_flows_reset [simp]: "default_flows (c\<lparr>flows := b\<rparr>) = default_flows c"
  by (simp add: default_flows_def)

lemma isLocalIP_reset [simp]: "isLocalIP (c\<lparr>flows := b\<rparr>) = isLocalIP c"
  by (rule ext) (simp add: isLocalIP_def)

lemma vswitch_flows_reset [simp]: "vswitch_flows (c\<lparr>flows := b\<rparr>) = vswitch_flows c"
  by (rule ext) (simp add: vswitch_flows_def Let_def)

lemma vswitch_flows_advance [simp]: "vswitch_flows (advance fs k t c) = vswitch_flows c"
  by (rule ext) (simp add: vswitch_flows_def Let_def)

lemma pods_result_reset [simp]: "pods_result env (c\<lparr>flows := b\<rparr>) pods = pods_result env c pods"
proof -
  have "pod_result env (c\<lparr>flows := b\<rparr>) = pod_result env c"
    by (intro ext) (simp add: pod_result_def)
  then show ?thesis by (induction pods) (auto intro!: ext)
qed

lemma netpol_result_advance [simp]: "netpol_result L (advance fs k t c) = netpol_result L c"
  by (rule ext) (simp add: netpol_result_def network_policy_flows_def selected_ips_def local_ips_def
      split: sum.split)

lemma netpol_result_reset [simp]: "netpol_result L (c\<lparr>flows := b\<rparr>) = netpol_result L c"
  by (rule ext) (simp add: netpol_result_def network_policy_flows_def selected_ips_def local_ips_def
      split: sum.split)

text \<open>The code in the form of its effects: every branch of \<^const>\<open>syncFlows\<close>, over the specification.\<close>

lemma syncFlows_eq:
  "syncFlows env L c =
     (let c = c\<lparr>flows := Reset (flows c)\<rparr>; ds = default_flows c in
      case vswitchLister_List L Everything of
        Inl e \<Rightarrow> Some (Some (Errorf ''error listing vswitch configs'' e), advance ds (portCache c) [] c)
      | Inr vs \<Rightarrow>
          (let ds = ds @ concat (map (vswitch_flows c) vs) in
           case podLister_List L Everything of
             Inl e \<Rightarrow> Some (Some (Errorf ''error listing pods'' e), advance ds (portCache c) [] c)
           | Inr pods \<Rightarrow> do {
               (pfs, k, t) \<leftarrow> pods_result env c pods (portCache c);
               (case netPolLister_List L Everything of
                  Inl e \<Rightarrow> Some (Some (Errorf ''error getting network policies'' e), advance (ds @ pfs) k t c)
                | Inr nps \<Rightarrow> do {
                    nfs \<leftarrow> collect (netpol_result L c) nps;
                    let fs = ds @ pfs @ nfs;
                    (case Buffer_SyncFlows env (bridgeName c) \<lparr>buffer = render fs\<rparr> of
                       (Inl e, u) \<Rightarrow> Some (Some (Errorf ''error syncing flows'' e), advance fs k (t @ u) c)
                     | (Inr _, u) \<Rightarrow> Some (None, advance fs k (t @ u) c)) }) }))"
proof -
  have emitted: "advance fs k t c0\<lparr>trace := trace c0 @ t @ u\<rparr> = advance fs k (t @ u) c0" for fs k t u c0
    by (simp add: advance_def)
  show ?thesis
    by (auto simp: syncFlows_def Let_def emits fold_sync_vswitch emit_advance foreach_sync_pod
        foreach_sync_netPol add_flows_Reset emitted Option.bind_eq_Some_conv comp_def
        split: sum.split prod.split option.split Option.bind_split)
qed

lemma desired_flows_reset [simp]: "desired_flows env L (c\<lparr>flows := b\<rparr>) = desired_flows env L c"
  by (simp add: desired_flows_def split: sum.split)

theorem syncFlows_desired:
  assumes "lists_ok L" and "desired_flows env L c = Some (fs, k, t)"
  shows "syncFlows env L c =
    (let c' = advance fs k t (c\<lparr>flows := Reset (flows c)\<rparr>);
         (r, u) = Buffer_SyncFlows env (bridgeName c) \<lparr>buffer = render fs\<rparr>
     in Some (case r of Inl e \<Rightarrow> Some (Errorf ''error syncing flows'' e) | Inr _ \<Rightarrow> None,
              c'\<lparr>trace := trace c' @ u\<rparr>))"
proof -
  have tr: "advance fs k t (c\<lparr>flows := b\<rparr>)\<lparr>trace := trace c @ t @ u\<rparr> =
      advance fs k (t @ u) (c\<lparr>flows := b\<rparr>)" for fs k t u b
    by (simp add: advance_def)
  from assms(1) obtain vs pods nps where lists: "vswitchLister_List L Everything = Inr vs"
      "podLister_List L Everything = Inr pods" "netPolLister_List L Everything = Inr nps"
    by (auto simp: lists_ok_def isl_def split: sum.split_asm) (metis sum.exhaust)
  with assms(2) obtain pfs nfs where "pods_result env c pods (portCache c) = Some (pfs, k, t)"
      "collect (netpol_result L c) nps = Some nfs"
      "fs = default_flows c @ concat (map (vswitch_flows c) vs) @ pfs @ nfs"
    by (auto simp: desired_flows_def Option.bind_eq_Some_conv)
  with lists show ?thesis
    by (simp add: syncFlows_eq Let_def tr split: sum.split prod.split)
qed

theorem syncFlows_panics_iff:
  assumes "lists_ok L"
  shows "syncFlows env L c = None \<longleftrightarrow> desired_flows env L c = None"
  using assms
  by (auto simp: syncFlows_eq desired_flows_def lists_ok_def Let_def
      split: sum.splits prod.splits Option.bind_splits)

end
