(* ===== verification/Verdict.thy ===== *)
theory Verdict
  imports FlowTable SyncFlows
begin

text \<open>
  What the flows mean.  \<open>policy_admits\<close> and \<open>policy_excepts\<close> state, over the API objects, which remote
  addresses and ports a policy lets through or cuts out; the lemmas relate them to the entries of
  table 10, and \<open>verdict\<close> is the decision of that table on a whole synchronisation.
\<close>

section \<open>Policies over packets\<close>

definition local_of :: "direction \<Rightarrow> 'a \<Rightarrow> 'a \<Rightarrow> 'a" where
  "local_of d s t = (case d of IngressDir \<Rightarrow> t | EgressDir \<Rightarrow> s)"

definition remote_of :: "direction \<Rightarrow> 'a \<Rightarrow> 'a \<Rightarrow> 'a" where
  "remote_of d s t = (case d of IngressDir \<Rightarrow> s | EgressDir \<Rightarrow> t)"

definition port_admits :: "NetworkPolicyPort \<Rightarrow> l4 \<Rightarrow> bool" where
  "port_admits port l =
     (case (IntValue (Port port), Protocol port) of
        (Some n, Some p) \<Rightarrow>
          (case l of
             TCP sp dp \<Rightarrow> ToLower p = ''tcp'' \<and> port_match n dp
           | UDP sp dp \<Rightarrow> ToLower p = ''udp'' \<and> port_match n dp
           | OtherIP \<Rightarrow> False)
      | _ \<Rightarrow> False)"

definition ports_admit :: "NetworkPolicyPort list \<Rightarrow> l4 \<Rightarrow> bool" where
  "ports_admit ports l \<longleftrightarrow> ports = [] \<or> (\<exists>port\<in>set ports. port_admits port l)"

definition namespace_ips :: "listers \<Rightarrow> LabelSelector \<Rightarrow> string \<Rightarrow> string list" where
  "namespace_ips L sel ns =
     (case podLister_Pods_List L ns (peer_labelSelector sel) of Inl e \<Rightarrow> [] | Inr pods \<Rightarrow> getPodIPs pods)"

definition peer_ips :: "listers \<Rightarrow> string \<Rightarrow> NetworkPolicyPeer \<Rightarrow> string list" where
  "peer_ips L ns peer =
     (case (PodSelector peer, peer_namespaces L ns peer) of
        (Some sel, Some nss) \<Rightarrow> concat (map (namespace_ips L sel) nss)
      | _ \<Rightarrow> [])"

definition peer_admits ::
  "(string \<Rightarrow> 'a \<Rightarrow> bool) \<Rightarrow> listers \<Rightarrow> string \<Rightarrow> NetworkPolicyPort list \<Rightarrow> NetworkPolicyPeer \<Rightarrow> 'a \<Rightarrow> l4 \<Rightarrow> bool" where
  "peer_admits nw L ns ports peer a l =
     (case peer_IPBlock peer of
        Some b \<Rightarrow> field nw (CIDR b) a
      | None \<Rightarrow> ports_admit ports l \<and> (\<exists>ip\<in>set (peer_ips L ns peer). nw ip a))"

definition peer_excepts :: "(string \<Rightarrow> 'a \<Rightarrow> bool) \<Rightarrow> NetworkPolicyPeer \<Rightarrow> 'a \<Rightarrow> bool" where
  "peer_excepts nw peer a =
     (case peer_IPBlock peer of Some b \<Rightarrow> (\<exists>cidr\<in>set (Except b). field nw cidr a) | None \<Rightarrow> False)"

definition rule_admits ::
  "(string \<Rightarrow> 'a \<Rightarrow> bool) \<Rightarrow> listers \<Rightarrow> string \<Rightarrow> rule \<Rightarrow> 'a \<Rightarrow> l4 \<Rightarrow> bool" where
  "rule_admits nw L ns r a l \<longleftrightarrow>
     (if snd r = [] then ports_admit (fst r) l else (\<exists>peer\<in>set (snd r). peer_admits nw L ns (fst r) peer a l))"

definition policy_admits ::
  "(string \<Rightarrow> 'a \<Rightarrow> bool) \<Rightarrow> direction \<Rightarrow> listers \<Rightarrow> NetworkPolicy \<Rightarrow> 'a \<Rightarrow> l4 \<Rightarrow> bool" where
  "policy_admits nw d L np a l \<longleftrightarrow> (\<exists>r\<in>set (policy_rules d np). rule_admits nw L (np_Namespace np) r a l)"

definition policy_excepts :: "(string \<Rightarrow> 'a \<Rightarrow> bool) \<Rightarrow> direction \<Rightarrow> NetworkPolicy \<Rightarrow> 'a \<Rightarrow> bool" where
  "policy_excepts nw d np a \<longleftrightarrow> (\<exists>r\<in>set (policy_rules d np). \<exists>peer\<in>set (snd r). peer_excepts nw peer a)"

text \<open>The pods of the policy the packet goes to (or comes from).\<close>

definition covers :: "(string \<Rightarrow> 'a \<Rightarrow> bool) \<Rightarrow> string list \<Rightarrow> 'a \<Rightarrow> bool" where
  "covers nw ips a \<longleftrightarrow> (\<exists>ip\<in>set ips. nw ip a)"

section \<open>The entries of one policy\<close>

text \<open>A list of entries has a match of a priority.\<close>

definition some_match :: "(string \<Rightarrow> 'a \<Rightarrow> bool) \<Rightarrow> int \<Rightarrow> 'a packet \<Rightarrow> Flow list \<Rightarrow> bool" where
  "some_match nw p pkt fs \<longleftrightarrow> (\<exists>f\<in>set fs. priority f = p \<and> flow_matches nw f pkt)"

lemma some_match_simps [simp]:
  "\<not> some_match nw p pkt []"
  "some_match nw p pkt (f # fs) \<longleftrightarrow> priority f = p \<and> flow_matches nw f pkt \<or> some_match nw p pkt fs"
  "some_match nw p pkt (fs @ gs) \<longleftrightarrow> some_match nw p pkt fs \<or> some_match nw p pkt gs"
  "some_match nw p pkt (concat fss) \<longleftrightarrow> (\<exists>fs\<in>set fss. some_match nw p pkt fs)"
  "some_match nw p pkt (map h xs) \<longleftrightarrow> (\<exists>x\<in>set xs. priority (h x) = p \<and> flow_matches nw (h x) pkt)"
  by (auto simp: some_match_def)

lemma some_match_collect:
  assumes "collect g xs = Some fs" and "\<And>x gs. x \<in> set xs \<Longrightarrow> g x = Some gs \<Longrightarrow> some_match nw p pkt gs \<longleftrightarrow> P x"
  shows "some_match nw p pkt fs \<longleftrightarrow> (\<exists>x\<in>set xs. P x)"
  using assms
proof (induction xs arbitrary: fs)
  case (Cons x xs)
  from Cons.prems(1) obtain gs hs where gs: "g x = Some gs" and hs: "collect g xs = Some hs" "fs = gs @ hs"
    by (auto simp: Option.bind_eq_Some_conv)
  have "some_match nw p pkt hs \<longleftrightarrow> (\<exists>x\<in>set xs. P x)"
    by (rule Cons.IH [OF hs(1)]) (use Cons.prems(2) in simp)
  moreover have "some_match nw p pkt gs \<longleftrightarrow> P x" using Cons.prems(2) gs by simp
  ultimately show ?case by (simp add: hs(2))
qed simp

lemma matches_policy_flow:
  assumes "lc \<noteq> []"
  shows "flow_matches nw (default_drop d lc) (IP s t l) \<longleftrightarrow> nw lc (local_of d s t)"
    and "flow_matches nw (allow_ip d lc rm) (IP s t l) \<longleftrightarrow> nw lc (local_of d s t) \<and> field nw rm (remote_of d s t)"
    and "flow_matches nw (except_drop d lc rm) (IP s t l) \<longleftrightarrow> nw lc (local_of d s t) \<and> field nw rm (remote_of d s t)"
    and "flow_matches nw (allow_tcp d lc rm n) (IP s t l) \<longleftrightarrow>
      nw lc (local_of d s t) \<and> field nw rm (remote_of d s t) \<and> (\<exists>sp dp. l = TCP sp dp \<and> port_match n dp)"
    and "flow_matches nw (allow_udp d lc rm n) (IP s t l) \<longleftrightarrow>
      nw lc (local_of d s t) \<and> field nw rm (remote_of d s t) \<and> (\<exists>sp dp. l = UDP sp dp \<and> port_match n dp)"
  using assms
  by (auto simp: flow_matches_def policy_flow_defs NewFlow_def local_of_def remote_of_def field_def l4_match_def
      port_match_def split: direction.split l4.split)

lemma policy_flow_fields [simp]:
  "table (default_drop d lc) = 10" "table (allow_ip d lc rm) = 10" "table (except_drop d lc rm) = 10"
  "table (allow_tcp d lc rm n) = 10" "table (allow_udp d lc rm n) = 10"
  "priority (default_drop d lc) = 100" "priority (allow_ip d lc rm) = 1000" "priority (except_drop d lc rm) = 1100"
  "priority (allow_tcp d lc rm n) = 1000" "priority (allow_udp d lc rm n) = 1000"
  "drop_act (default_drop d lc)" "\<not> drop_act (allow_ip d lc rm)" "drop_act (except_drop d lc rm)"
  "\<not> drop_act (allow_tcp d lc rm n)" "\<not> drop_act (allow_udp d lc rm n)"
  "resubmit (default_drop d lc) = 0" "resubmit (allow_ip d lc rm) = 20" "resubmit (except_drop d lc rm) = 0"
  "resubmit (allow_tcp d lc rm n) = 20" "resubmit (allow_udp d lc rm n) = 20"
  "raw (default_drop d lc) = []" "raw (allow_ip d lc rm) = []" "raw (except_drop d lc rm) = []"
  "raw (allow_tcp d lc rm n) = []" "raw (allow_udp d lc rm n) = []"
  by (cases d; simp add: policy_flow_defs NewFlow_def)+

lemma allow_port_match:
  assumes "allow_port d lc rm port = Some fs" and "lc \<noteq> []"
  shows "some_match nw p (IP s t l) fs \<longleftrightarrow>
    p = 1000 \<and> nw lc (local_of d s t) \<and> field nw rm (remote_of d s t) \<and> port_admits port l"
  using assms(1) matches_policy_flow [OF assms(2), of nw]
  by (cases l) (auto simp: allow_port_def port_admits_def Option.bind_eq_Some_conv split: if_splits)

lemma allow_pair_match:
  assumes "allow_pair d ports lc rm = Some fs" and "lc \<noteq> []"
  shows "some_match nw p (IP s t l) fs \<longleftrightarrow>
    p = 1000 \<and> nw lc (local_of d s t) \<and> field nw rm (remote_of d s t) \<and> ports_admit ports l"
proof (cases "ports = []")
  case True
  with assms(1) matches_policy_flow [OF assms(2), of nw] show ?thesis
    by (auto simp: allow_pair_def ports_admit_def)
next
  case False
  with assms(1) have "collect (allow_port d lc rm) ports = Some fs" by (simp add: allow_pair_def)
  then have "some_match nw p (IP s t l) fs \<longleftrightarrow> (\<exists>port\<in>set ports. p = 1000 \<and> nw lc (local_of d s t) \<and>
      field nw rm (remote_of d s t) \<and> port_admits port l)"
    by (rule some_match_collect) (rule allow_port_match [OF _ assms(2)])
  with False show ?thesis by (auto simp: ports_admit_def)
qed

lemma block_match:
  assumes "[] \<notin> set locals"
  shows "some_match nw p (IP s t l) (block_flows d locals b) \<longleftrightarrow>
    covers nw locals (local_of d s t) \<and>
    (p = 1000 \<and> field nw (CIDR b) (remote_of d s t) \<or>
     p = 1100 \<and> (\<exists>cidr\<in>set (Except b). field nw cidr (remote_of d s t)))"
proof -
  have ne: "lc \<noteq> []" if "lc \<in> set locals" for lc using assms that by auto
  show ?thesis
    by (auto simp: block_flows_def covers_def matches_policy_flow ne)
qed

lemma getPodIPs_nonempty: "ip \<in> set (getPodIPs pods) \<Longrightarrow> ip \<noteq> []"
  by (auto simp: getPodIPs_eq)

lemma namespace_match:
  assumes "namespace_flows d L ports sel locals ns = Some fs" and "[] \<notin> set locals"
  shows "some_match nw p (IP s t l) fs \<longleftrightarrow>
    p = 1000 \<and> covers nw locals (local_of d s t) \<and> ports_admit ports l \<and>
    (\<exists>ip\<in>set (namespace_ips L sel ns). nw ip (remote_of d s t))"
proof (cases "podLister_Pods_List L ns (peer_labelSelector sel)")
  case (Inl e)
  with assms(1) show ?thesis by (auto simp: namespace_flows_def namespace_ips_def)
next
  case (Inr pods)
  have outer: "collect (\<lambda>lc. collect (allow_pair d ports lc) (getPodIPs pods)) locals = Some fs"
    using assms(1) Inr by (simp add: namespace_flows_def)
  have inner: "some_match nw p (IP s t l) gs \<longleftrightarrow>
      (\<exists>ip\<in>set (getPodIPs pods). p = 1000 \<and> nw lc (local_of d s t) \<and> field nw ip (remote_of d s t)
        \<and> ports_admit ports l)"
    if "lc \<in> set locals" "collect (allow_pair d ports lc) (getPodIPs pods) = Some gs" for lc gs
  proof -
    have "lc \<noteq> []" using that(1) assms(2) by auto
    with that(2) show ?thesis by (intro some_match_collect allow_pair_match)
  qed
  have "some_match nw p (IP s t l) fs \<longleftrightarrow>
      (\<exists>lc\<in>set locals. \<exists>ip\<in>set (getPodIPs pods). p = 1000 \<and> nw lc (local_of d s t)
        \<and> field nw ip (remote_of d s t) \<and> ports_admit ports l)"
    by (rule some_match_collect [OF outer inner])
  then show ?thesis
    using getPodIPs_nonempty by (auto simp: namespace_ips_def Inr covers_def field_def)
qed

lemma peer_match:
  assumes "peer_flows d L ns ports locals peer = Some fs" and "[] \<notin> set locals"
  shows "some_match nw p (IP s t l) fs \<longleftrightarrow> covers nw locals (local_of d s t) \<and>
    (p = 1000 \<and> peer_admits nw L ns ports peer (remote_of d s t) l \<or>
     p = 1100 \<and> peer_excepts nw peer (remote_of d s t))"
proof (cases "peer_IPBlock peer")
  case (Some b)
  with assms(1) have "fs = block_flows d locals b" by (simp add: peer_flows_def)
  with Some show ?thesis
    by (auto simp: block_match [OF assms(2)] peer_admits_def peer_excepts_def)
next
  case None
  show ?thesis
  proof (cases "PodSelector peer = None \<or> peer_namespaces L ns peer = None")
    case True
    with None assms(1) show ?thesis
      by (auto simp: peer_flows_def peer_admits_def peer_excepts_def peer_ips_def split: option.splits)
  next
    case False
    then obtain sel nss where sel: "PodSelector peer = Some sel" "peer_namespaces L ns peer = Some nss" by auto
    with None assms(1) have "collect (namespace_flows d L ports sel locals) nss = Some fs"
      by (simp add: peer_flows_def)
    then have "some_match nw p (IP s t l) fs \<longleftrightarrow> (\<exists>ns\<in>set nss. p = 1000 \<and>
        covers nw locals (local_of d s t) \<and> ports_admit ports l \<and>
        (\<exists>ip\<in>set (namespace_ips L sel ns). nw ip (remote_of d s t)))"
      by (rule some_match_collect) (rule namespace_match [OF _ assms(2)])
    then show ?thesis
      by (auto simp: peer_admits_def peer_excepts_def peer_ips_def None sel)
  qed
qed

lemma rule_match:
  assumes "rule_flows d L ns locals r = Some fs" and "[] \<notin> set locals"
  shows "some_match nw p (IP s t l) fs \<longleftrightarrow> covers nw locals (local_of d s t) \<and>
    (p = 1000 \<and> rule_admits nw L ns r (remote_of d s t) l \<or>
     p = 1100 \<and> (\<exists>peer\<in>set (snd r). peer_excepts nw peer (remote_of d s t)))"
proof (cases "snd r = []")
  case True
  with assms(1) have "collect (\<lambda>lc. allow_pair d (fst r) lc []) locals = Some fs" by (simp add: rule_flows_def)
  moreover have "some_match nw p (IP s t l) gs \<longleftrightarrow> p = 1000 \<and> nw lc (local_of d s t) \<and>
      field nw [] (remote_of d s t) \<and> ports_admit (fst r) l"
    if "lc \<in> set locals" "allow_pair d (fst r) lc [] = Some gs" for lc gs
    using that assms(2) by (intro allow_pair_match) auto
  ultimately have "some_match nw p (IP s t l) fs \<longleftrightarrow> (\<exists>lc\<in>set locals. p = 1000 \<and> nw lc (local_of d s t) \<and>
      field nw [] (remote_of d s t) \<and> ports_admit (fst r) l)"
    by (rule some_match_collect)
  then show ?thesis by (auto simp: rule_admits_def True field_def covers_def)
next
  case False
  with assms(1) have "collect (peer_flows d L ns (fst r) locals) (snd r) = Some fs" by (simp add: rule_flows_def)
  then have "some_match nw p (IP s t l) fs \<longleftrightarrow> (\<exists>peer\<in>set (snd r). covers nw locals (local_of d s t) \<and>
      (p = 1000 \<and> peer_admits nw L ns (fst r) peer (remote_of d s t) l \<or>
       p = 1100 \<and> peer_excepts nw peer (remote_of d s t)))"
    by (rule some_match_collect) (rule peer_match [OF _ assms(2)])
  with False show ?thesis by (auto simp: rule_admits_def)
qed

theorem policy_match:
  assumes "policy_flows d L np locals = Some fs" and "[] \<notin> set locals"
  shows "some_match nw p (IP s t l) fs \<longleftrightarrow> covers nw locals (local_of d s t) \<and>
    (p = 100 \<or> p = 1000 \<and> policy_admits nw d L np (remote_of d s t) l \<or>
     p = 1100 \<and> policy_excepts nw d np (remote_of d s t))"
proof -
  from assms(1) obtain gs where gs: "collect (rule_flows d L (np_Namespace np) locals) (policy_rules d np) = Some gs"
    and fs: "fs = map (default_drop d) locals @ gs"
    by (auto simp: policy_flows_def Option.bind_eq_Some_conv)
  have ne: "lc \<noteq> []" if "lc \<in> set locals" for lc using assms(2) that by auto
  have "some_match nw p (IP s t l) (map (default_drop d) locals) \<longleftrightarrow> p = 100 \<and> covers nw locals (local_of d s t)"
    by (auto simp: matches_policy_flow ne covers_def)
  moreover have "some_match nw p (IP s t l) gs \<longleftrightarrow> (\<exists>r\<in>set (policy_rules d np).
      covers nw locals (local_of d s t) \<and>
      (p = 1000 \<and> rule_admits nw L (np_Namespace np) r (remote_of d s t) l \<or>
       p = 1100 \<and> (\<exists>peer\<in>set (snd r). peer_excepts nw peer (remote_of d s t))))"
    by (rule some_match_collect [OF gs]) (rule rule_match [OF _ assms(2)])
  ultimately show ?thesis
    by (auto simp: fs policy_admits_def policy_excepts_def)
qed


section \<open>The shape of the entries\<close>

definition policy_entry :: "Flow \<Rightarrow> bool" where
  "policy_entry f \<longleftrightarrow>
     (\<exists>d lc rm n. lc \<noteq> [] \<and> (f = default_drop d lc \<or> f = allow_ip d lc rm \<or> f = except_drop d lc rm \<or>
        f = allow_tcp d lc rm n \<or> f = allow_udp d lc rm n))"

lemma policy_entryI:
  assumes "lc \<noteq> []"
  shows "policy_entry (default_drop d lc)" "policy_entry (allow_ip d lc rm)" "policy_entry (except_drop d lc rm)"
    "policy_entry (allow_tcp d lc rm n)" "policy_entry (allow_udp d lc rm n)"
  using assms unfolding policy_entry_def by blast+

lemma policy_entryD:
  assumes "policy_entry f"
  shows "table f = 10" "raw f = []" "priority f = 100 \<or> priority f = 1000 \<or> priority f = 1100"
    and "drop_act f \<longleftrightarrow> priority f \<noteq> 1000" "resubmit f = (if drop_act f then 0 else 20)"
  using assms by (auto simp: policy_entry_def)

lemma collect_all:
  assumes "collect g xs = Some fs" and "\<And>x gs f. x \<in> set xs \<Longrightarrow> g x = Some gs \<Longrightarrow> f \<in> set gs \<Longrightarrow> P f"
    and "f \<in> set fs"
  shows "P f"
proof -
  from collect_mem [OF assms(1)] assms(3) obtain x gs where "x \<in> set xs" "g x = Some gs" "f \<in> set gs" by blast
  then show ?thesis by (rule assms(2))
qed

lemma allow_pair_entry:
  assumes "allow_pair d ports lc rm = Some fs" and "lc \<noteq> []" and "f \<in> set fs"
  shows "policy_entry f"
proof (cases "ports = []")
  case True
  with assms show ?thesis by (auto simp: allow_pair_def policy_entryI)
next
  case False
  with assms(1) have "collect (allow_port d lc rm) ports = Some fs" by (simp add: allow_pair_def)
  then show ?thesis
  proof (rule collect_all [OF _ _ assms(3)])
    show "policy_entry h" if "allow_port d lc rm port = Some gs" "h \<in> set gs" for port gs h
      using that assms(2)
      by (auto simp: allow_port_def Option.bind_eq_Some_conv policy_entryI split: if_splits)
  qed
qed

lemma peer_entry:
  assumes "peer_flows d L ns ports locals peer = Some fs" and "[] \<notin> set locals" and "f \<in> set fs"
  shows "policy_entry f"
proof -
  have ne: "lc \<noteq> []" if "lc \<in> set locals" for lc using assms(2) that by auto
  have "policy_entry h" if nf: "namespace_flows d L ports sel locals n = Some gs" and h: "h \<in> set gs" for sel n gs h
  proof (cases "podLister_Pods_List L n (peer_labelSelector sel)")
    case (Inl e)
    with nf h show ?thesis by (simp add: namespace_flows_def)
  next
    case (Inr pods)
    with nf have "collect (\<lambda>lc. collect (allow_pair d ports lc) (getPodIPs pods)) locals = Some gs"
      by (simp add: namespace_flows_def)
    then show ?thesis
    proof (rule collect_all [OF _ _ h])
      show "policy_entry h'" if "lc \<in> set locals" "collect (allow_pair d ports lc) (getPodIPs pods) = Some hs"
        "h' \<in> set hs" for lc hs h'
        by (rule collect_all [OF that(2) _ that(3)]) (rule allow_pair_entry [OF _ ne [OF that(1)]])
    qed
  qed
  then have "policy_entry f" if "collect (namespace_flows d L ports sel locals) nss = Some fs" for sel nss
    using that by (rule_tac collect_all [OF _ _ assms(3)])
  with assms ne show ?thesis
    by (auto simp: peer_flows_def block_flows_def policy_entryI split: option.split_asm)
qed

lemma policy_flows_entry:
  assumes "policy_flows d L np locals = Some fs" and "[] \<notin> set locals" and "f \<in> set fs"
  shows "policy_entry f"
proof -
  have ne: "lc \<noteq> []" if "lc \<in> set locals" for lc using assms(2) that by auto
  from assms(1) obtain gs where gs: "collect (rule_flows d L (np_Namespace np) locals) (policy_rules d np) = Some gs"
    and fs: "fs = map (default_drop d) locals @ gs"
    by (auto simp: policy_flows_def Option.bind_eq_Some_conv)
  have rule: "policy_entry h" if r: "rule_flows d L ns locals r = Some hs" and h: "h \<in> set hs" for ns r hs h
  proof (cases "snd r = []")
    case True
    with r have "collect (\<lambda>lc. allow_pair d (fst r) lc []) locals = Some hs" by (simp add: rule_flows_def)
    then show ?thesis
    proof (rule collect_all [OF _ _ h])
      show "policy_entry h'" if "lc \<in> set locals" "allow_pair d (fst r) lc [] = Some hs" "h' \<in> set hs" for lc hs h'
        by (rule allow_pair_entry [OF that(2) ne [OF that(1)] that(3)])
    qed
  next
    case False
    with r have "collect (peer_flows d L ns (fst r) locals) (snd r) = Some hs" by (simp add: rule_flows_def)
    then show ?thesis by (rule collect_all [OF _ _ h]) (rule peer_entry [OF _ assms(2)])
  qed
  show ?thesis
  proof (cases "f \<in> set gs")
    case True
    show ?thesis by (rule collect_all [OF gs _ True]) (rule rule)
  next
    case False
    with assms(3) fs ne show ?thesis by (auto simp: policy_entryI)
  qed
qed

lemma selected_ips_nonempty: "[] \<notin> set (selected_ips L c np)"
  by (auto simp: selected_ips_def local_ips_def split: sum.split)

text \<open>The pods of a policy the packet goes to or comes from, and what the policy says of it.\<close>

definition np_covers :: "(string \<Rightarrow> 'a \<Rightarrow> bool) \<Rightarrow> listers \<Rightarrow> controller \<Rightarrow> direction \<Rightarrow> 'a \<Rightarrow> 'a \<Rightarrow> NetworkPolicy \<Rightarrow> bool" where
  "np_covers nw L c d s t np \<longleftrightarrow> covers nw (selected_ips L c np) (local_of d s t)"

definition np_admits ::
  "(string \<Rightarrow> 'a \<Rightarrow> bool) \<Rightarrow> listers \<Rightarrow> controller \<Rightarrow> direction \<Rightarrow> 'a \<Rightarrow> 'a \<Rightarrow> l4 \<Rightarrow> NetworkPolicy \<Rightarrow> bool" where
  "np_admits nw L c d s t l np \<longleftrightarrow> np_covers nw L c d s t np \<and> policy_admits nw d L np (remote_of d s t) l"

definition np_excepts ::
  "(string \<Rightarrow> 'a \<Rightarrow> bool) \<Rightarrow> listers \<Rightarrow> controller \<Rightarrow> direction \<Rightarrow> 'a \<Rightarrow> 'a \<Rightarrow> NetworkPolicy \<Rightarrow> bool" where
  "np_excepts nw L c d s t np \<longleftrightarrow> np_covers nw L c d s t np \<and> policy_excepts nw d np (remote_of d s t)"

lemma netpol_result_match:
  assumes "netpol_result L c np = Some fs"
  shows "some_match nw p (IP s t l) fs \<longleftrightarrow>
    (\<exists>d. p = 100 \<and> np_covers nw L c d s t np \<or> p = 1000 \<and> np_admits nw L c d s t l np
       \<or> p = 1100 \<and> np_excepts nw L c d s t np)"
proof (cases "podLister_Pods_List L (np_Namespace np) (AsSelector (MatchLabels (np_PodSelector (np_Spec np))))")
  case (Inl e)
  with assms show ?thesis
    by (simp add: netpol_result_def np_covers_def np_admits_def np_excepts_def selected_ips_def covers_def)
next
  case (Inr pods)
  with assms obtain gs hs where gs: "policy_flows IngressDir L np (selected_ips L c np) = Some gs"
    and hs: "policy_flows EgressDir L np (selected_ips L c np) = Some hs" and fs: "fs = gs @ hs"
    by (auto simp: netpol_result_def network_policy_flows_def Option.bind_eq_Some_conv)
  have dir: "(\<exists>d. P d) \<longleftrightarrow> P IngressDir \<or> P EgressDir" for P
    by (metis direction.exhaust)
  show ?thesis
    unfolding fs some_match_simps policy_match [OF gs selected_ips_nonempty]
      policy_match [OF hs selected_ips_nonempty] dir np_covers_def np_admits_def np_excepts_def
    by blast
qed

lemma netpol_result_entry:
  assumes "netpol_result L c np = Some fs" and "f \<in> set fs"
  shows "policy_entry f"
  using assms policy_flows_entry [OF _ selected_ips_nonempty]
  by (auto simp: netpol_result_def network_policy_flows_def Option.bind_eq_Some_conv split: sum.split_asm)

lemma pod_result_keeps:
  assumes "pod_result env c pod cache = Some (fs, k, t)" and "cache x = Some v"
  shows "k x = Some v"
  using assms pc.get_keeps [of env pod cache _ k t x v]
  by (auto simp: pod_result_def Option.bind_eq_Some_conv split: if_splits)

lemma pods_result_keeps:
  assumes "pods_result env c pods cache = Some (fs, k, t)" and "cache x = Some v"
  shows "k x = Some v"
  using assms
proof (induction pods arbitrary: cache fs t)
  case (Cons pod pods)
  then obtain gs k1 t1 hs t2 where "pod_result env c pod cache = Some (gs, k1, t1)"
    and ps: "pods_result env c pods k1 = Some (hs, k, t2)"
    by (auto simp: Option.bind_eq_Some_conv)
  then have "k1 x = Some v" using pod_result_keeps Cons.prems(2) by blast
  with ps show ?case by (rule Cons.IH)
qed simp

lemma pod_result_flows:
  assumes "pod_result env c pod cache = Some (fs, k, t)" and "f \<in> set fs"
  obtains info where "isLocalIP c (PodIP pod) = Inr True" "PodIP pod \<noteq> []"
    "k (portCacheKeyForPod pod) = Some info" "f \<in> set (pod_flows (PodIP pod) info)"
proof -
  from assms obtain r where ok: "isLocalIP c (PodIP pod) = Inr True" "PodIP pod \<noteq> []"
    and get: "GetPortInfo env pod cache = Some (r, k, t)"
    and fs: "fs = (case r of Inl e \<Rightarrow> [] | Inr info \<Rightarrow> pod_flows (PodIP pod) info)"
    by (auto simp: pod_result_def Option.bind_eq_Some_conv split: if_splits)
  from fs assms(2) obtain info where r: "r = Inr info" by (cases r) auto
  have "k = cache(portCacheKeyForPod pod \<mapsto> info)" by (rule pc.get_found [OF get [unfolded r]])
  with ok fs assms(2) r show ?thesis by (intro that [of info]) simp_all
qed

lemma pods_result_flows:
  assumes "pods_result env c pods cache = Some (fs, k, t)" and "f \<in> set fs"
  obtains pod info where "pod \<in> set pods" "isLocalIP c (PodIP pod) = Inr True" "PodIP pod \<noteq> []"
    "k (portCacheKeyForPod pod) = Some info" "f \<in> set (pod_flows (PodIP pod) info)"
  using assms
proof (induction pods arbitrary: cache fs t thesis)
  case (Cons pod pods)
  from Cons.prems(2) obtain gs k1 t1 hs t2 where p: "pod_result env c pod cache = Some (gs, k1, t1)"
    and ps: "pods_result env c pods k1 = Some (hs, k, t2)" and fs: "fs = gs @ hs"
    by (auto simp: Option.bind_eq_Some_conv)
  show ?case
  proof (cases "f \<in> set gs")
    case True
    with p obtain info where "isLocalIP c (PodIP pod) = Inr True" "PodIP pod \<noteq> []"
      "k1 (portCacheKeyForPod pod) = Some info" "f \<in> set (pod_flows (PodIP pod) info)"
      by (rule pod_result_flows)
    with pods_result_keeps [OF ps] show ?thesis by (intro Cons.prems(1) [of pod info]) simp_all
  next
    case False
    with Cons.prems(3) fs have "f \<in> set hs" by simp
    then show ?thesis by (rule Cons.IH [OF _ ps, rotated]) (use Cons.prems(1) in auto)
  qed
qed simp

end
