(* ===== verification/Forwarding.thy ===== *)
theory Forwarding
  imports Verdict
begin

text \<open>
  The whole table set of a synchronisation, \<^const>\<open>desired_flows\<close>, under the meaning of \<^verbatim>\<open>FlowTable\<close>:
  what each table answers, and where a packet ends that enters at table 0.  \<open>traverse\<close> follows the
  resubmissions; since they only go to higher tables, five steps of fuel reach the end of every
  path.
\<close>

section \<open>The parts of a synchronisation\<close>

lemma desired_flows_parts:
  assumes "desired_flows env L c = Some (fs, k, t)"
  obtains vs pods nps pfs nfs where
    "vswitchLister_List L Everything = Inr vs" "podLister_List L Everything = Inr pods"
    "netPolLister_List L Everything = Inr nps"
    "pods_result env c pods (portCache c) = Some (pfs, k, t)" "collect (netpol_result L c) nps = Some nfs"
    "fs = default_flows c @ concat (map (vswitch_flows c) vs) @ pfs @ nfs"
  using assms by (auto simp: desired_flows_def Option.bind_eq_Some_conv split: sum.split_asm)

lemma pod_flows_entry:
  assumes "f \<in> set (pod_flows ip info)"
  shows "f = (ip_flow 60 100)\<lparr>ipDest := ip, modDlDest := podMacAddr, outPort := ofport info\<rparr> \<or> raw f \<noteq> []"
  using assms by (auto simp: pod_flows_def arp_reply_raw_def)

lemma NewFlow_fields [simp]:
  "table NewFlow = 0" "priority NewFlow = 0" "protocol NewFlow = []" "ipDest NewFlow = []" "ipSrc NewFlow = []"
  "arpDest NewFlow = []" "arpSrc NewFlow = []" "tcpDestPort NewFlow = 0" "tcpSrcPort NewFlow = 0"
  "udpDestPort NewFlow = 0" "udpSrcPort NewFlow = 0" "tunDest NewFlow = []" "modDlDest NewFlow = []"
  "outPort NewFlow = 0" "resubmit NewFlow = 0" "\<not> drop_act NewFlow" "\<not> local_act NewFlow" "raw NewFlow = []"
  by (simp_all add: NewFlow_def)

lemma arp_raw_nonempty [simp]: "arp_reply_raw a b \<noteq> []" "arp_cluster_raw a b \<noteq> []"
  by (simp_all add: arp_reply_raw_def arp_cluster_raw_def)

lemma flow_matches_IP:
  assumes "flow_matches nw f (IP s t l)"
  shows "raw f = []" "protocol f \<noteq> ''arp''" "field nw (ipSrc f) s" "field nw (ipDest f) t"
  using assms by (simp_all add: flow_matches_def)

lemma flow_matches_raw: "flow_matches nw f pkt \<Longrightarrow> raw f = []"
  by (simp add: flow_matches_def)

lemma vswitch_flows_table: "f \<in> set (vswitch_flows c v) \<Longrightarrow> table f \<in> {20, 30} \<and> raw f = []"
  by (auto simp: vswitch_flows_def Let_def NewFlow_def split: if_splits)

lemma default_flows_table: "f \<in> set (default_flows c) \<Longrightarrow> table f \<in> {0, 10, 20}"
  by (auto simp: default_flows_def NewFlow_def)

text \<open>Which part of the synchronisation a table's matching entries come from.\<close>

lemma hits_desired:
  assumes pfs: "pods_result env c pods (portCache c) = Some (pfs, k, t)"
    and nfs: "collect (netpol_result L c) nps = Some nfs"
    and fs: "fs = default_flows c @ concat (map (vswitch_flows c) vs) @ pfs @ nfs"
  shows "f \<in> set (hits nw fs n pkt) \<longleftrightarrow> table f = n \<and> flow_matches nw f pkt \<and>
    (f \<in> set (default_flows c) \<and> n \<in> {0, 10, 20} \<or> (\<exists>v\<in>set vs. f \<in> set (vswitch_flows c v)) \<and> n \<in> {20, 30} \<or>
     f \<in> set pfs \<and> n = 60 \<or> f \<in> set nfs \<and> n = 10)"
proof -
  have mem: "f \<in> set fs \<longleftrightarrow> f \<in> set (default_flows c) \<or> (\<exists>v\<in>set vs. f \<in> set (vswitch_flows c v)) \<or>
      f \<in> set pfs \<or> f \<in> set nfs"
    by (simp add: fs)
  have "n \<in> {0, 10, 20}" if "f \<in> set (default_flows c)" "table f = n"
    using default_flows_table [OF that(1)] that(2) by simp
  moreover have "n \<in> {20, 30}" if "f \<in> set (vswitch_flows c v)" "table f = n" for v
    using vswitch_flows_table [OF that(1)] that(2) by simp
  moreover have "n = 60" if f: "f \<in> set pfs" and "table f = n" "flow_matches nw f pkt"
  proof -
    from pods_result_flows [OF pfs f] obtain ip info where "f \<in> set (pod_flows ip info)" .
    from pod_flows_entry [OF this] that show ?thesis by (auto simp: flow_matches_def)
  qed
  moreover have "n = 10" if f: "f \<in> set nfs" and "table f = n"
  proof -
    have "policy_entry f" by (rule collect_all [OF nfs _ f]) (rule netpol_result_entry)
    with that(2) show ?thesis by (simp add: policy_entryD)
  qed
  ultimately show ?thesis unfolding hits_iff mem by blast
qed

section \<open>Table 10: the verdict of the policies\<close>

text \<open>
  An address cut out by an \<^verbatim>\<open>except\<close> of any policy that covers the packet, or a covered packet that no
  covering policy admits.
\<close>

definition denied ::
  "(string \<Rightarrow> 'a \<Rightarrow> bool) \<Rightarrow> listers \<Rightarrow> controller \<Rightarrow> NetworkPolicy list \<Rightarrow> 'a \<Rightarrow> 'a \<Rightarrow> l4 \<Rightarrow> bool" where
  "denied nw L c nps s t l \<longleftrightarrow>
     (\<exists>np\<in>set nps. \<exists>d. np_excepts nw L c d s t np) \<or>
     (\<exists>np\<in>set nps. \<exists>d. np_covers nw L c d s t np) \<and> \<not> (\<exists>np\<in>set nps. \<exists>d. np_admits nw L c d s t l np)"

lemma nfs_match:
  assumes "collect (netpol_result L c) nps = Some nfs"
  shows "some_match nw p (IP s t l) nfs \<longleftrightarrow> (\<exists>np\<in>set nps. \<exists>d. p = 100 \<and> np_covers nw L c d s t np \<or>
    p = 1000 \<and> np_admits nw L c d s t l np \<or> p = 1100 \<and> np_excepts nw L c d s t np)"
  by (rule some_match_collect [OF assms]) (rule netpol_result_match)

theorem table10_verdict:
  assumes "desired_flows env L c = Some (fs, k, u)" and "netPolLister_List L Everything = Inr nps"
  shows "lookup nw fs 10 (IP s t l) \<noteq> [] \<and>
    (\<forall>f\<in>set (lookup nw fs 10 (IP s t l)).
       drop_act f = denied nw L c nps s t l \<and> resubmit f = (if denied nw L c nps s t l then 0 else 20))"
proof -
  let ?pkt = "IP s t l"
  from assms obtain vs pods pfs nfs where pfs: "pods_result env c pods (portCache c) = Some (pfs, k, u)"
    and nfs: "collect (netpol_result L c) nps = Some nfs"
    and fs: "fs = default_flows c @ concat (map (vswitch_flows c) vs) @ pfs @ nfs"
    by (auto elim: desired_flows_parts)
  note h = hits_desired [OF pfs nfs fs]
  let ?all = "NewFlow\<lparr>table := 10, priority := 0, resubmit := 20\<rparr>"
  have entry: "policy_entry f" if "f \<in> set nfs" for f
    by (rule collect_all [OF nfs _ that]) (rule netpol_result_entry)
  have all_match: "flow_matches nw ?all ?pkt"
    by (simp add: flow_matches_def NewFlow_def field_def l4_match_def port_match_def split: l4.split)
  have hit: "f \<in> set (hits nw fs 10 ?pkt) \<longleftrightarrow> f = ?all \<or> f \<in> set nfs \<and> flow_matches nw f ?pkt" for f
    using all_match policy_entryD(1) [OF entry] unfolding h
    by (auto simp: default_flows_def NewFlow_def)
  have top: "\<not> some_match nw p ?pkt nfs" if "f \<in> set (lookup nw fs 10 ?pkt)" "priority f < p" for f p
  proof
    assume "some_match nw p ?pkt nfs"
    then obtain g where "g \<in> set (hits nw fs 10 ?pkt)" "priority g = p" by (auto simp: some_match_def hit)
    with that show False using lookup_at_least [of g nw fs 10 ?pkt f] by simp
  qed
  have "drop_act f = denied nw L c nps s t l \<and> resubmit f = (if denied nw L c nps s t l then 0 else 20)"
    if f: "f \<in> set (lookup nw fs 10 ?pkt)" for f
  proof (cases "f = ?all")
    case True
    then have pr: "priority f = 0" "\<not> drop_act f" "resubmit f = 20" by (simp_all add: NewFlow_def)
    from top [OF f, of 100] top [OF f, of 1100] pr(1) have "\<not> denied nw L c nps s t l"
      unfolding nfs_match [OF nfs] denied_def by auto
    with pr show ?thesis by simp
  next
    case False
    with f have nf: "f \<in> set nfs" "flow_matches nw f ?pkt" using lookup_iff [of f nw fs 10 ?pkt] hit by auto
    note e = policy_entryD [OF entry [OF nf(1)]]
    have m: "some_match nw (priority f) ?pkt nfs" using nf by (auto simp: some_match_def)
    consider "priority f = 100" | "priority f = 1000" | "priority f = 1100" using e(3) by blast
    then have "denied nw L c nps s t l \<longleftrightarrow> priority f \<noteq> 1000"
    proof cases
      case 1
      with m top [OF f, of 1000] top [OF f, of 1100] show ?thesis
        unfolding nfs_match [OF nfs] denied_def by auto
    next
      case 2
      with m top [OF f, of 1100] show ?thesis unfolding nfs_match [OF nfs] denied_def by auto
    next
      case 3
      with m show ?thesis unfolding nfs_match [OF nfs] denied_def by auto
    qed
    with e show ?thesis by simp
  qed
  moreover have "hits nw fs 10 ?pkt \<noteq> []" using hit [of ?all] by auto
  ultimately show ?thesis using lookup_nonempty by blast
qed

section \<open>The other tables\<close>

lemma matches_ip_flow:
  "flow_matches nw f (IP s t l) \<longleftrightarrow> field nw (ipSrc f) s \<and> field nw (ipDest f) t"
  if "protocol f \<in> {'''', ''ip''}" "raw f = []" "arpDest f = []" "arpSrc f = []" "tcpDestPort f = 0" "tcpSrcPort f = 0"
    "udpDestPort f = 0" "udpSrcPort f = 0"
  using that by (auto simp: flow_matches_def l4_match_def port_match_def split: l4.split)

text \<open>One synchronisation, with its parts named: what the lemmas of the tables share.\<close>

definition synced ::
  "os \<Rightarrow> controller \<Rightarrow> Flow list \<Rightarrow> portCache \<Rightarrow> VSwitchConfig list \<Rightarrow> Pod list \<Rightarrow> Flow list \<Rightarrow> Flow list \<Rightarrow> bool" where
  "synced env c fs k vs pods pfs nfs \<longleftrightarrow>
     (\<exists>L nps t. pods_result env c pods (portCache c) = Some (pfs, k, t) \<and> collect (netpol_result L c) nps = Some nfs)
     \<and> fs = default_flows c @ concat (map (vswitch_flows c) vs) @ pfs @ nfs"

lemma hits_synced:
  assumes "synced env c fs k vs pods pfs nfs"
  shows "f \<in> set (hits nw fs n pkt) \<longleftrightarrow> table f = n \<and> flow_matches nw f pkt \<and>
    (f \<in> set (default_flows c) \<and> n \<in> {0, 10, 20} \<or> (\<exists>v\<in>set vs. f \<in> set (vswitch_flows c v)) \<and> n \<in> {20, 30} \<or>
     f \<in> set pfs \<and> n = 60 \<or> f \<in> set nfs \<and> n = 10)"
  using assms unfolding synced_def by (elim exE conjE) (rule hits_desired)

lemma table0:
  assumes "synced env c fs k vs pods pfs nfs" and "g \<in> set (lookup nw fs 0 pkt)"
  shows "resubmit g = 10"
proof -
  from assms(2) have "g \<in> set (hits nw fs 0 pkt)" by (simp add: lookup_iff)
  then show ?thesis
    unfolding hits_synced [OF assms(1)] using flow_matches_raw [of nw g pkt] by (auto simp: default_flows_def)
qed

abbreviation gateway_flow :: "controller \<Rightarrow> Flow" where
  "gateway_flow c \<equiv> (ip_flow 20 500)\<lparr>ipDest := gatewayIP c, local_act := True\<rparr>"

abbreviation local_pods_flow :: "controller \<Rightarrow> Flow" where
  "local_pods_flow c \<equiv> (ip_flow 20 300)\<lparr>ipDest := podCIDR c, resubmit := 60\<rparr>"

abbreviation cluster_flow :: "controller \<Rightarrow> Flow" where
  "cluster_flow c \<equiv> (ip_flow 20 100)\<lparr>ipDest := clusterCIDR c, resubmit := 30\<rparr>"

text \<open>
  Table 20: a matching entry above priority 100 is the gateway's or the local pods'; one of priority
  100 is the cluster's or the node's own overlay address.
\<close>

lemma table20_hit:
  assumes "synced env c fs k vs pods pfs nfs" and "g \<in> set (hits nw fs 20 (IP s t l))"
  shows "g = gateway_flow c \<and> field nw (gatewayIP c) t \<or> g = local_pods_flow c \<and> field nw (podCIDR c) t
    \<or> g = cluster_flow c \<and> field nw (clusterCIDR c) t
    \<or> priority g = 100 \<and> (\<exists>v\<in>set vs. vs_Name v = nodeName c \<and> field nw (OverlayIP (Spec v)) t) \<or> priority g < 100"
proof -
  from assms(2) have m: "flow_matches nw g (IP s t l)" and t20: "table g = 20"
    and part: "g \<in> set (default_flows c) \<or> (\<exists>v\<in>set vs. g \<in> set (vswitch_flows c v))"
    unfolding hits_synced [OF assms(1)] by auto
  note ip = flow_matches_IP [OF m]
  from part show ?thesis
  proof
    assume "g \<in> set (default_flows c)"
    then have "g = gateway_flow c \<or> g = local_pods_flow c \<or> g = cluster_flow c \<or> priority g < 100"
      using t20 ip(1,2) unfolding default_flows_def list.set insert_iff empty_iff by (elim disjE) simp_all
    then show ?thesis using ip(4) by (elim disjE) simp_all
  next
    assume "\<exists>v\<in>set vs. g \<in> set (vswitch_flows c v)"
    then obtain v where v: "v \<in> set vs" "g \<in> set (vswitch_flows c v)" by blast
    with t20 have "vs_Name v = nodeName c \<and> ipDest g = OverlayIP (Spec v) \<and> priority g = 100 \<or> priority g = 50"
      by (auto simp: vswitch_flows_def Let_def split: if_splits)
    with ip v(1) show ?thesis by auto
  qed
qed

lemma table20_hits:
  assumes "synced env c fs k vs pods pfs nfs"
  shows "gateway_flow c \<in> set (hits nw fs 20 (IP s t l)) \<longleftrightarrow> field nw (gatewayIP c) t"
    and "local_pods_flow c \<in> set (hits nw fs 20 (IP s t l)) \<longleftrightarrow> field nw (podCIDR c) t"
    and "cluster_flow c \<in> set (hits nw fs 20 (IP s t l)) \<longleftrightarrow> field nw (clusterCIDR c) t"
  unfolding hits_synced [OF assms]
  by (simp_all add: default_flows_def matches_ip_flow field_def [of nw "[]"])

lemma gateway_flow_fields [simp]:
  "priority (gateway_flow c) = 500" "resubmit (gateway_flow c) = 0" "local_act (gateway_flow c)"
  "priority (local_pods_flow c) = 300" "resubmit (local_pods_flow c) = 60"
  "priority (cluster_flow c) = 100" "resubmit (cluster_flow c) = 30"
  by simp_all

lemma table20_top:
  assumes "synced env c fs k vs pods pfs nfs" and "h \<in> set (hits nw fs 20 (IP s t l))"
    and "g \<in> set (lookup nw fs 20 (IP s t l))"
  shows "priority h \<le> priority g"
    and "g = gateway_flow c \<and> field nw (gatewayIP c) t \<or> g = local_pods_flow c \<and> field nw (podCIDR c) t
    \<or> g = cluster_flow c \<and> field nw (clusterCIDR c) t
    \<or> priority g = 100 \<and> (\<exists>v\<in>set vs. vs_Name v = nodeName c \<and> field nw (OverlayIP (Spec v)) t) \<or> priority g < 100"
proof -
  show "priority h \<le> priority g" by (rule lookup_at_least [OF assms(2,3)])
  have "g \<in> set (hits nw fs 20 (IP s t l))" using assms(3) by (simp add: lookup_iff)
  from table20_hit [OF assms(1) this] show "g = gateway_flow c \<and> field nw (gatewayIP c) t \<or>
    g = local_pods_flow c \<and> field nw (podCIDR c) t \<or> g = cluster_flow c \<and> field nw (clusterCIDR c) t
    \<or> priority g = 100 \<and> (\<exists>v\<in>set vs. vs_Name v = nodeName c \<and> field nw (OverlayIP (Spec v)) t) \<or> priority g < 100" .
qed

lemma table20_gateway:
  assumes sy: "synced env c fs k vs pods pfs nfs" and "field nw (gatewayIP c) t"
    and g: "g \<in> set (lookup nw fs 20 (IP s t l))"
  shows "g = gateway_flow c"
proof -
  have "gateway_flow c \<in> set (hits nw fs 20 (IP s t l))"
    unfolding table20_hits [OF sy] by (rule assms(2))
  from table20_top [OF sy this g] show ?thesis
    by (elim disjE) simp_all
qed

lemma table20_local:
  assumes sy: "synced env c fs k vs pods pfs nfs" and "field nw (podCIDR c) t" "\<not> field nw (gatewayIP c) t"
    and g: "g \<in> set (lookup nw fs 20 (IP s t l))"
  shows "g = local_pods_flow c"
proof -
  have "local_pods_flow c \<in> set (hits nw fs 20 (IP s t l))"
    unfolding table20_hits [OF sy] by (rule assms(2))
  from table20_top [OF sy this g] assms(3) show ?thesis
    by (elim disjE) simp_all
qed

lemma table20_cluster:
  assumes sy: "synced env c fs k vs pods pfs nfs" and "field nw (clusterCIDR c) t"
    and "\<not> field nw (podCIDR c) t" "\<not> field nw (gatewayIP c) t"
    and own: "\<forall>v\<in>set vs. vs_Name v = nodeName c \<longrightarrow> \<not> field nw (OverlayIP (Spec v)) t"
    and g: "g \<in> set (lookup nw fs 20 (IP s t l))"
  shows "g = cluster_flow c"
proof -
  have "cluster_flow c \<in> set (hits nw fs 20 (IP s t l))"
    unfolding table20_hits [OF sy] by (rule assms(2))
  from table20_top [OF sy this g] assms(3,4) own show ?thesis
    by (elim disjE) auto
qed

text \<open>Table 30: the pods of another node go through the tunnel to that node.\<close>

abbreviation remote_pods_flow :: "controller \<Rightarrow> VSwitchConfig \<Rightarrow> Flow" where
  "remote_pods_flow c v \<equiv> (ip_flow 30 150)\<lparr>ipDest := PodCIDR (Spec v), tunDest := OverlayIP (Spec v),
     outPort := overlayOFPort c\<rparr>"

lemma table30_hit:
  assumes sy: "synced env c fs k vs pods pfs nfs"
    and v: "v \<in> set vs" "vs_Name v \<noteq> nodeName c" "field nw (PodCIDR (Spec v)) t"
  shows "remote_pods_flow c v \<in> set (hits nw fs 30 (IP s t l))"
proof -
  have "remote_pods_flow c v \<in> set (vswitch_flows c v)" using v by (simp add: vswitch_flows_def Let_def)
  moreover have "flow_matches nw (remote_pods_flow c v) (IP s t l)"
    using v(3) by (simp add: matches_ip_flow field_def [of nw "[]"])
  moreover have "table (remote_pods_flow c v) = 30" by simp
  ultimately show ?thesis unfolding hits_synced [OF sy] using v(1) by auto
qed

lemma table30_remote:
  assumes sy: "synced env c fs k vs pods pfs nfs"
    and v: "v \<in> set vs" "vs_Name v \<noteq> nodeName c" "field nw (PodCIDR (Spec v)) t"
    and g: "g \<in> set (lookup nw fs 30 (IP s t l))"
  shows "\<exists>w\<in>set vs. vs_Name w \<noteq> nodeName c \<and> field nw (PodCIDR (Spec w)) t \<and> g = remote_pods_flow c w"
proof -
  from lookup_at_least [OF table30_hit [OF sy v] g] have pr: "150 \<le> priority g" by simp
  from g have "g \<in> set (hits nw fs 30 (IP s t l))" by (simp add: lookup_iff)
  then obtain w where "w \<in> set vs" "g \<in> set (vswitch_flows c w)" "table g = 30" "flow_matches nw g (IP s t l)"
    unfolding hits_synced [OF sy] by auto
  with pr flow_matches_IP [of nw g s t l] show ?thesis
    by (auto simp: vswitch_flows_def Let_def split: if_splits)
qed

text \<open>Table 60: the port the cache has for a pod with that address.\<close>

lemma table60_pod:
  assumes sy: "synced env c fs k vs pods pfs nfs" and g: "g \<in> set (lookup nw fs 60 (IP s t l))"
  shows "\<exists>pod\<in>set pods. \<exists>info. isLocalIP c (PodIP pod) = Inr True \<and> nw (PodIP pod) t \<and>
    k (portCacheKeyForPod pod) = Some info \<and>
    g = (ip_flow 60 100)\<lparr>ipDest := PodIP pod, modDlDest := podMacAddr, outPort := ofport info\<rparr>"
proof -
  from g have "g \<in> set (hits nw fs 60 (IP s t l))" by (simp add: lookup_iff)
  then have f: "g \<in> set pfs" and m: "flow_matches nw g (IP s t l)" unfolding hits_synced [OF sy] by auto
  from sy obtain u where "pods_result env c pods (portCache c) = Some (pfs, k, u)" by (auto simp: synced_def)
  from pods_result_flows [OF this f] obtain pod info where p: "pod \<in> set pods"
    "isLocalIP c (PodIP pod) = Inr True" "PodIP pod \<noteq> []" "k (portCacheKeyForPod pod) = Some info"
    and e: "g \<in> set (pod_flows (PodIP pod) info)" .
  from m have "raw g = []" by (rule flow_matches_raw)
  with pod_flows_entry [OF e] have
    gp: "g = (ip_flow 60 100)\<lparr>ipDest := PodIP pod, modDlDest := podMacAddr, outPort := ofport info\<rparr>" by simp
  with flow_matches_IP(4) [OF m] p(3) have "nw (PodIP pod) t" by (simp add: field_def)
  with p gp show ?thesis by blast
qed

section \<open>The pipeline\<close>

text \<open>
  The entries a packet may end at when it enters at a table: \<open>None\<close> when the fuel runs out on some
  path.
\<close>

fun traverse :: "nat \<Rightarrow> (string \<Rightarrow> 'a \<Rightarrow> bool) \<Rightarrow> Flow list \<Rightarrow> int \<Rightarrow> 'a packet \<Rightarrow> Flow list option" where
  "traverse 0 nw fs t pkt = None"
| "traverse (Suc n) nw fs t pkt =
     collect (\<lambda>f. if resubmit f = 0 then Some [f] else traverse n nw fs (resubmit f) pkt) (lookup nw fs t pkt)"

text \<open>The resubmissions of a synchronisation, and how many tables a packet still crosses.\<close>

definition resubmits :: "(int \<times> int) set" where
  "resubmits = {(0, 10), (10, 20), (20, 60), (20, 30), (20, 100), (30, 60)}"

definition depth :: "int \<Rightarrow> nat" where
  "depth t = (if t = 0 then 5 else if t = 10 then 4 else if t = 20 then 3 else if t = 30 then 2 else 1)"

definition forward_only :: "Flow list \<Rightarrow> bool" where
  "forward_only fs \<longleftrightarrow> (\<forall>f\<in>set fs. raw f = [] \<longrightarrow> resubmit f = 0 \<or> (table f, resubmit f) \<in> resubmits)"

lemma traverse_total:
  assumes "forward_only fs" and "depth t \<le> n"
  shows "traverse n nw fs t pkt \<noteq> None"
  using assms(2)
proof (induction n arbitrary: t)
  case 0
  then show ?case by (simp add: depth_def split: if_splits)
next
  case (Suc n)
  have "traverse n nw fs (resubmit f) pkt \<noteq> None" if f: "f \<in> set (lookup nw fs t pkt)" and "resubmit f \<noteq> 0" for f
  proof -
    from lookup_hit [OF f] flow_matches_raw have "f \<in> set fs" "table f = t" "raw f = []" by blast+
    with assms(1) that(2) have "(t, resubmit f) \<in> resubmits" by (auto simp: forward_only_def)
    then have "depth (resubmit f) < depth t" by (auto simp: resubmits_def depth_def)
    with Suc.prems show ?thesis by (intro Suc.IH) simp
  qed
  then show ?case by (auto simp: collect_None_iff)
qed

text \<open>A table whose answers all resubmit to the same table passes the packet on; one whose answers end, ends.\<close>

lemma traverse_step:
  assumes "traverse m nw fs t pkt = Some fin" and "m = Suc n" and "lookup nw fs t pkt \<noteq> []"
    and "\<And>g. g \<in> set (lookup nw fs t pkt) \<Longrightarrow> resubmit g = t'" and "t' \<noteq> 0"
  obtains gs where "traverse n nw fs t' pkt = Some gs" "set fin = set gs"
proof -
  from assms(1,2) have col: "collect (\<lambda>f. if resubmit f = 0 then Some [f] else traverse n nw fs (resubmit f) pkt)
      (lookup nw fs t pkt) = Some fin" by simp
  also have "collect (\<lambda>f. if resubmit f = 0 then Some [f] else traverse n nw fs (resubmit f) pkt) (lookup nw fs t pkt) =
      collect (\<lambda>f. traverse n nw fs t' pkt) (lookup nw fs t pkt)"
    using assms(4,5) by (intro collect_cong) auto
  finally have c: "collect (\<lambda>f. traverse n nw fs t' pkt) (lookup nw fs t pkt) = Some fin" .
  obtain g where g: "g \<in> set (lookup nw fs t pkt)" using assms(3) by (meson last_in_set)
  with c collect_None_iff [of "\<lambda>f. traverse n nw fs t' pkt" "lookup nw fs t pkt"]
  obtain gs where gs: "traverse n nw fs t' pkt = Some gs" by force
  with collect_mem [OF c] g have "set fin = set gs" by auto
  with gs show ?thesis by (rule that)
qed

lemma traverse_last:
  assumes "traverse m nw fs t pkt = Some fin" and "m = Suc n"
    and "\<And>g. g \<in> set (lookup nw fs t pkt) \<Longrightarrow> resubmit g = 0"
  shows "fin = lookup nw fs t pkt"
proof -
  have "collect (\<lambda>f. if resubmit f = 0 then Some [f] else traverse n nw fs (resubmit f) pkt) (lookup nw fs t pkt) =
      collect (\<lambda>f. Some [f]) (lookup nw fs t pkt)"
    using assms(3) by (intro collect_cong) auto
  with assms(1,2) show ?thesis by (simp add: collect_single)
qed

lemma synced_forward_only:
  assumes "synced env c fs k vs pods pfs nfs"
  shows "forward_only fs"
  unfolding forward_only_def
proof (intro ballI impI)
  fix f
  assume f: "f \<in> set fs" and r: "raw f = []"
  from assms obtain L nps t where pfs: "pods_result env c pods (portCache c) = Some (pfs, k, t)"
    and nfs: "collect (netpol_result L c) nps = Some nfs"
    and fs: "fs = default_flows c @ concat (map (vswitch_flows c) vs) @ pfs @ nfs"
    by (auto simp: synced_def)
  from f fs consider "f \<in> set (default_flows c)" | v where "f \<in> set (vswitch_flows c v)" | "f \<in> set pfs" | "f \<in> set nfs"
    by auto
  then show "resubmit f = 0 \<or> (table f, resubmit f) \<in> resubmits"
  proof cases
    case 1
    with r show ?thesis
      unfolding default_flows_def list.set insert_iff empty_iff resubmits_def by (elim disjE) simp_all
  next
    case 2
    then have "resubmit f = 0 \<or> table f = 30 \<and> resubmit f = 60 \<or> table f = 20 \<and> resubmit f = 30"
      by (auto simp: vswitch_flows_def Let_def split: if_splits)
    then show ?thesis by (auto simp: resubmits_def)
  next
    case 3
    from pods_result_flows [OF pfs this] obtain ip info where "f \<in> set (pod_flows ip info)" .
    from pod_flows_entry [OF this] r show ?thesis by auto
  next
    case 4
    have "policy_entry f" by (rule collect_all [OF nfs _ 4]) (rule netpol_result_entry)
    then show ?thesis by (simp add: policy_entryD resubmits_def)
  qed
qed

lemma desired_synced:
  assumes "desired_flows env L c = Some (fs, k, t)" and "vswitchLister_List L Everything = Inr vs"
    and "podLister_List L Everything = Inr pods"
  obtains pfs nfs where "synced env c fs k vs pods pfs nfs"
proof -
  from assms obtain nps pfs nfs where "pods_result env c pods (portCache c) = Some (pfs, k, t)"
    "collect (netpol_result L c) nps = Some nfs"
    "fs = default_flows c @ concat (map (vswitch_flows c) vs) @ pfs @ nfs"
    by (auto elim!: desired_flows_parts)
  then have "synced env c fs k vs pods pfs nfs" by (auto simp: synced_def)
  then show ?thesis by (rule that)
qed

theorem pipeline_total:
  assumes "desired_flows env L c = Some (fs, k, t)"
  shows "traverse 5 nw fs 0 pkt \<noteq> None"
proof -
  from assms obtain vs pods where "vswitchLister_List L Everything = Inr vs" "podLister_List L Everything = Inr pods"
    by (auto elim: desired_flows_parts)
  with assms obtain pfs nfs where "synced env c fs k vs pods pfs nfs" by (rule desired_synced)
  then have "forward_only fs" by (rule synced_forward_only)
  then show ?thesis by (rule traverse_total) (simp add: depth_def)
qed

text \<open>Where an admitted packet goes after the verdict, and a denied one does not.\<close>

lemma lookup0_nonempty:
  assumes "synced env c fs k vs pods pfs nfs"
  shows "lookup nw fs 0 (IP s t l) \<noteq> []"
proof -
  let ?f = "NewFlow\<lparr>table := 0, priority := 1000, resubmit := 10\<rparr>"
  have "?f \<in> set (hits nw fs 0 (IP s t l))"
    unfolding hits_synced [OF assms] by (simp add: default_flows_def matches_ip_flow field_def)
  then show ?thesis by (intro lookup_nonempty) auto
qed

lemma after_verdict:
  assumes des: "desired_flows env L c = Some (fs, k, u)" and nps: "netPolLister_List L Everything = Inr nps"
    and sy: "synced env c fs k vs pods pfs nfs"
    and tr: "traverse 5 nw fs 0 (IP s t l) = Some fin"
  shows "if denied nw L c nps s t l then set fin = set (lookup nw fs 10 (IP s t l))
    else \<exists>gs. traverse 3 nw fs 20 (IP s t l) = Some gs \<and> set fin = set gs"
proof -
  note v = table10_verdict [OF des nps, of nw s t l]
  have "resubmit g = 10" if "g \<in> set (lookup nw fs 0 (IP s t l))" for g by (rule table0 [OF sy that])
  from traverse_step [OF tr _ lookup0_nonempty [OF sy] this, of 4]
  obtain gs where gs: "traverse 4 nw fs 10 (IP s t l) = Some gs" "set fin = set gs" by auto
  show ?thesis
  proof (cases "denied nw L c nps s t l")
    case True
    with traverse_last [OF gs(1), of 3] v gs(2) show ?thesis by simp
  next
    case False
    with v obtain hs where "traverse 3 nw fs 20 (IP s t l) = Some hs" "set gs = set hs"
      using traverse_step [OF gs(1), of 3 20] by auto
    with False gs(2) show ?thesis by simp
  qed
qed

theorem denied_dropped:
  assumes "desired_flows env L c = Some (fs, k, u)" and "netPolLister_List L Everything = Inr nps"
    and "denied nw L c nps s t l"
  shows "\<exists>fin. traverse 5 nw fs 0 (IP s t l) = Some fin \<and> fin \<noteq> [] \<and> (\<forall>f\<in>set fin. drop_act f)"
proof -
  from assms(1) obtain vs pods where "vswitchLister_List L Everything = Inr vs" "podLister_List L Everything = Inr pods"
    by (auto elim: desired_flows_parts)
  with assms(1) obtain pfs nfs where sy: "synced env c fs k vs pods pfs nfs" by (rule desired_synced)
  obtain fin where fin: "traverse 5 nw fs 0 (IP s t l) = Some fin"
    using pipeline_total [OF assms(1), of nw "IP s t l"] by auto
  from after_verdict [OF assms(1,2) sy this] assms(3) have "set fin = set (lookup nw fs 10 (IP s t l))" by simp
  with fin table10_verdict [OF assms(1,2), of nw s t l] assms(3) show ?thesis by fastforce
qed

text \<open>A pod whose port is in the cache has its entry in table 60.\<close>

lemma pods_result_cached:
  assumes "pods_result env c pods cache = Some (fs, k, t)" and "pod \<in> set pods"
    and "cache (portCacheKeyForPod pod) = Some info" and "PodIP pod \<noteq> []" "isLocalIP c (PodIP pod) = Inr True"
  shows "set (pod_flows (PodIP pod) info) \<subseteq> set fs"
  using assms(1-3)
proof (induction pods arbitrary: cache fs t)
  case (Cons p pods)
  from Cons.prems(1) obtain gs k1 t1 hs t2 where p: "pod_result env c p cache = Some (gs, k1, t1)"
    and ps: "pods_result env c pods k1 = Some (hs, k, t2)" and fs: "fs = gs @ hs"
    by (auto simp: Option.bind_eq_Some_conv)
  show ?case
  proof (cases "p = pod")
    case True
    with p pc.get_hit [of cache pod info env] Cons.prems(3) assms(4,5) fs show ?thesis
      by (auto simp: pod_result_def)
  next
    case False
    have "k1 (portCacheKeyForPod pod) = Some info" by (rule pod_result_keeps [OF p Cons.prems(3)])
    with Cons.IH [OF ps] Cons.prems(2) False fs show ?thesis by auto
  qed
qed simp

lemma table60_cached:
  assumes sy: "synced env c fs k vs pods pfs nfs" and pod: "pod \<in> set pods" "PodIP pod \<noteq> []"
    "isLocalIP c (PodIP pod) = Inr True" "portCache c (portCacheKeyForPod pod) = Some info" "nw (PodIP pod) t"
  shows "(ip_flow 60 100)\<lparr>ipDest := PodIP pod, modDlDest := podMacAddr, outPort := ofport info\<rparr>
    \<in> set (lookup nw fs 60 (IP s t l))" (is "?f \<in> _")
proof -
  from sy obtain u where "pods_result env c pods (portCache c) = Some (pfs, k, u)" by (auto simp: synced_def)
  from pods_result_cached [OF this pod(1,4,2,3)] have "?f \<in> set pfs" by (simp add: pod_flows_def)
  then have hit: "?f \<in> set (hits nw fs 60 (IP s t l))"
    unfolding hits_synced [OF sy] using pod(5) by (simp add: matches_ip_flow field_def)
  have "priority g = 100" if g: "g \<in> set (hits nw fs 60 (IP s t l))" for g
  proof -
    from g have gp: "g \<in> set pfs" and m: "flow_matches nw g (IP s t l)" unfolding hits_synced [OF sy] by auto
    from sy obtain u where "pods_result env c pods (portCache c) = Some (pfs, k, u)" by (auto simp: synced_def)
    from pods_result_flows [OF this gp] obtain ip info where "g \<in> set (pod_flows ip info)" .
    from pod_flows_entry [OF this] flow_matches_raw [OF m] show ?thesis by auto
  qed
  with hit lookup_top [OF hit] show ?thesis by simp
qed

theorem local_delivery:
  assumes des: "desired_flows env L c = Some (fs, k, u)" and nps: "netPolLister_List L Everything = Inr nps"
    and pods: "podLister_List L Everything = Inr pods"
    and admitted: "\<not> denied nw L c nps s t l"
    and dst: "field nw (podCIDR c) t" "\<not> field nw (gatewayIP c) t"
  shows "\<exists>fin. traverse 5 nw fs 0 (IP s t l) = Some fin \<and>
    (\<forall>f\<in>set fin. \<exists>pod\<in>set pods. \<exists>info. isLocalIP c (PodIP pod) = Inr True \<and> nw (PodIP pod) t \<and>
       k (portCacheKeyForPod pod) = Some info \<and> outPort f = ofport info \<and> modDlDest f = podMacAddr) \<and>
    (\<forall>pod\<in>set pods. \<forall>info. PodIP pod \<noteq> [] \<and> isLocalIP c (PodIP pod) = Inr True \<and> nw (PodIP pod) t \<and>
       portCache c (portCacheKeyForPod pod) = Some info \<longrightarrow> (\<exists>f\<in>set fin. outPort f = ofport info))"
proof -
  let ?pkt = "IP s t l"
  from des obtain vs where "vswitchLister_List L Everything = Inr vs" by (auto elim: desired_flows_parts)
  with des pods obtain pfs nfs where sy: "synced env c fs k vs pods pfs nfs" by (auto elim: desired_synced)
  obtain fin where fin: "traverse 5 nw fs 0 ?pkt = Some fin" using pipeline_total [OF des, of nw ?pkt] by auto
  from after_verdict [OF des nps sy fin] admitted
  obtain gs where gs: "traverse 3 nw fs 20 ?pkt = Some gs" "set fin = set gs" by auto
  have hit: "lookup nw fs 20 ?pkt \<noteq> []"
    using table20_hits(2) [OF sy, of nw s t l] dst(1) by (intro lookup_nonempty) auto
  have "resubmit g = 60" if "g \<in> set (lookup nw fs 20 ?pkt)" for g using table20_local [OF sy dst that] by simp
  from traverse_step [OF gs(1) _ hit this, of 2] obtain hs where
    hs: "traverse 2 nw fs 60 ?pkt = Some hs" "set gs = set hs" by auto
  have "resubmit g = 0" if "g \<in> set (lookup nw fs 60 ?pkt)" for g using table60_pod [OF sy that] by auto
  from traverse_last [OF hs(1) _ this, of 1] have "hs = lookup nw fs 60 ?pkt" by simp
  with gs hs have set: "set fin = set (lookup nw fs 60 ?pkt)" by simp
  have "\<exists>pod\<in>set pods. \<exists>info. isLocalIP c (PodIP pod) = Inr True \<and> nw (PodIP pod) t \<and>
      k (portCacheKeyForPod pod) = Some info \<and> outPort f = ofport info \<and> modDlDest f = podMacAddr" if "f \<in> set fin" for f
    using table60_pod [OF sy, of f nw s t l] that set by fastforce
  moreover have "\<exists>f\<in>set fin. outPort f = ofport info" if "pod \<in> set pods" "PodIP pod \<noteq> []"
    "isLocalIP c (PodIP pod) = Inr True" "nw (PodIP pod) t" "portCache c (portCacheKeyForPod pod) = Some info" for pod info
  proof -
    have "(ip_flow 60 100)\<lparr>ipDest := PodIP pod, modDlDest := podMacAddr, outPort := ofport info\<rparr> \<in> set fin"
      unfolding set by (rule table60_cached) (use sy that in auto)
    then show ?thesis by (rule bexI [rotated]) simp
  qed
  ultimately show ?thesis using fin by blast
qed

theorem remote_delivery:
  assumes des: "desired_flows env L c = Some (fs, k, u)" and nps: "netPolLister_List L Everything = Inr nps"
    and vs: "vswitchLister_List L Everything = Inr vs"
    and admitted: "\<not> denied nw L c nps s t l"
    and dst: "field nw (clusterCIDR c) t" "\<not> field nw (podCIDR c) t" "\<not> field nw (gatewayIP c) t"
    and own: "\<forall>v\<in>set vs. vs_Name v = nodeName c \<longrightarrow> \<not> field nw (OverlayIP (Spec v)) t"
    and remote: "v \<in> set vs" "vs_Name v \<noteq> nodeName c" "field nw (PodCIDR (Spec v)) t"
  shows "\<exists>fin. traverse 5 nw fs 0 (IP s t l) = Some fin \<and> fin \<noteq> [] \<and>
    (\<forall>f\<in>set fin. \<exists>w\<in>set vs. vs_Name w \<noteq> nodeName c \<and> field nw (PodCIDR (Spec w)) t \<and>
       tunDest f = OverlayIP (Spec w) \<and> outPort f = overlayOFPort c)"
proof -
  let ?pkt = "IP s t l"
  from des obtain pods where "podLister_List L Everything = Inr pods" by (auto elim: desired_flows_parts)
  with des vs obtain pfs nfs where sy: "synced env c fs k vs pods pfs nfs" by (auto elim: desired_synced)
  obtain fin where fin: "traverse 5 nw fs 0 ?pkt = Some fin" using pipeline_total [OF des, of nw ?pkt] by auto
  from after_verdict [OF des nps sy fin] admitted
  obtain gs where gs: "traverse 3 nw fs 20 ?pkt = Some gs" "set fin = set gs" by auto
  have hit: "lookup nw fs 20 ?pkt \<noteq> []"
    using table20_hits(3) [OF sy, of nw s t l] dst(1) by (intro lookup_nonempty) auto
  have "resubmit g = 30" if "g \<in> set (lookup nw fs 20 ?pkt)" for g using table20_cluster [OF sy dst own that] by simp
  from traverse_step [OF gs(1) _ hit this, of 2] obtain hs where
    hs: "traverse 2 nw fs 30 ?pkt = Some hs" "set gs = set hs" by auto
  have "resubmit g = 0" if "g \<in> set (lookup nw fs 30 ?pkt)" for g using table30_remote [OF sy remote that] by auto
  from traverse_last [OF hs(1) _ this, of 1] have "hs = lookup nw fs 30 ?pkt" by simp
  with gs hs have set: "set fin = set (lookup nw fs 30 ?pkt)" by simp
  have "hits nw fs 30 ?pkt \<noteq> []" using table30_hit [OF sy remote, of s l] by (cases "hits nw fs 30 ?pkt") simp_all
  then have "fin \<noteq> []" using lookup_nonempty [of nw fs 30 ?pkt] set by auto
  moreover have "\<exists>w\<in>set vs. vs_Name w \<noteq> nodeName c \<and> field nw (PodCIDR (Spec w)) t \<and>
      tunDest f = OverlayIP (Spec w) \<and> outPort f = overlayOFPort c" if "f \<in> set fin" for f
  proof -
    have "f \<in> set (lookup nw fs 30 ?pkt)" using that set by simp
    from table30_remote [OF sy remote this] show ?thesis by (elim bexE conjE) (intro bexI, auto)
  qed
  ultimately show ?thesis using fin by blast
qed

lemma desired_forward_only:
  assumes "desired_flows env L c = Some (fs, k, t)"
  shows "forward_only fs"
proof -
  from assms obtain vs pods where "vswitchLister_List L Everything = Inr vs" "podLister_List L Everything = Inr pods"
    by (auto elim: desired_flows_parts)
  with assms obtain pfs nfs where "synced env c fs k vs pods pfs nfs" by (rule desired_synced)
  then show ?thesis by (rule synced_forward_only)
qed

end
