(* ===== verification/Panics.thy ===== *)
theory Panics
  imports Forwarding
begin

text \<open>
  When the controller's process panics.  Two places of the code can: a policy port without number or
  protocol (\<^verbatim>\<open>port.Port.IntValue()\<close> and \<^verbatim>\<open>*port.Protocol\<close> in \<^verbatim>\<open>flows.go\<close>), and the answer of \<^verbatim>\<open>ovs-vsctl find\<close>
  whose first row has no column (\<^verbatim>\<open>dbData.Data[0][0]\<close> in \<^verbatim>\<open>port_cache.go\<close>).  The lemmas say exactly when
  a policy reaches the first, and that a synchronisation free of both returns.
\<close>

section \<open>A policy\<close>

definition nil_port :: "NetworkPolicyPort \<Rightarrow> bool" where
  "nil_port port \<longleftrightarrow> Port port = None \<or> Protocol port = None"

text \<open>A rule whose ports the code looks at for a local pod.\<close>

definition reads_ports :: "listers \<Rightarrow> string \<Rightarrow> rule \<Rightarrow> bool" where
  "reads_ports L ns r \<longleftrightarrow>
     snd r = [] \<or> (\<exists>peer\<in>set (snd r). peer_IPBlock peer = None \<and> peer_ips L ns peer \<noteq> [])"

definition panics :: "direction \<Rightarrow> listers \<Rightarrow> NetworkPolicy \<Rightarrow> bool" where
  "panics d L np \<longleftrightarrow>
     (\<exists>r\<in>set (policy_rules d np). reads_ports L (np_Namespace np) r \<and> (\<exists>port\<in>set (fst r). nil_port port))"

lemma nonempty_iff: "xs \<noteq> [] \<longleftrightarrow> (\<exists>x. x \<in> set xs)"
  by (cases xs) auto

lemma IntValue_None: "IntValue p = None \<longleftrightarrow> p = None"
  by (cases p) (simp_all add: IntValue_def)

lemma allow_port_None: "allow_port d lc rm port = None \<longleftrightarrow> nil_port port"
  by (cases "IntValue (Port port)"; cases "Protocol port")
    (auto simp: allow_port_def nil_port_def IntValue_None [symmetric])

lemma allow_pair_None: "allow_pair d ports lc rm = None \<longleftrightarrow> (\<exists>port\<in>set ports. nil_port port)"
  by (auto simp: allow_pair_def collect_None_iff allow_port_None)

lemma namespace_flows_None:
  "namespace_flows d L ports sel locals ns = None \<longleftrightarrow>
     locals \<noteq> [] \<and> namespace_ips L sel ns \<noteq> [] \<and> (\<exists>port\<in>set ports. nil_port port)"
  by (auto simp: namespace_flows_def namespace_ips_def collect_None_iff allow_pair_None nonempty_iff
      split: sum.split)

lemma peer_flows_None:
  "peer_flows d L ns ports locals peer = None \<longleftrightarrow>
     locals \<noteq> [] \<and> peer_IPBlock peer = None \<and> peer_ips L ns peer \<noteq> [] \<and> (\<exists>port\<in>set ports. nil_port port)"
  by (auto simp: peer_flows_def peer_ips_def collect_None_iff namespace_flows_None split: option.split)

lemma rule_flows_None:
  "rule_flows d L ns locals r = None \<longleftrightarrow>
     locals \<noteq> [] \<and> reads_ports L ns r \<and> (\<exists>port\<in>set (fst r). nil_port port)"
  by (auto simp: rule_flows_def reads_ports_def collect_None_iff allow_pair_None peer_flows_None nonempty_iff)

theorem policy_flows_None:
  "policy_flows d L np locals = None \<longleftrightarrow> locals \<noteq> [] \<and> panics d L np"
proof -
  have "policy_flows d L np locals = None \<longleftrightarrow>
      collect (rule_flows d L (np_Namespace np) locals) (policy_rules d np) = None"
    by (cases "collect (rule_flows d L (np_Namespace np) locals) (policy_rules d np)") (simp_all add: policy_flows_def)
  then show ?thesis by (auto simp: collect_None_iff rule_flows_None panics_def)
qed

lemma netpol_result_None:
  "netpol_result L c np = None \<longleftrightarrow> selected_ips L c np \<noteq> [] \<and> (\<exists>d. panics d L np)"
proof -
  have dir: "(\<exists>d. panics d L np) \<longleftrightarrow> panics IngressDir L np \<or> panics EgressDir L np"
    by (metis direction.exhaust)
  have "network_policy_flows L c np = None \<longleftrightarrow> policy_flows IngressDir L np (selected_ips L c np) = None \<or>
      policy_flows EgressDir L np (selected_ips L c np) = None"
    by (cases "policy_flows IngressDir L np (selected_ips L c np)";
        cases "policy_flows EgressDir L np (selected_ips L c np)") (simp_all add: network_policy_flows_def)
  then show ?thesis
    unfolding dir policy_flows_None
    by (cases "podLister_Pods_List L (np_Namespace np) (AsSelector (MatchLabels (np_PodSelector (np_Spec np))))")
      (auto simp: netpol_result_def selected_ips_def)
qed

section \<open>A synchronisation\<close>

definition rows_ok :: "os \<Rightarrow> bool" where
  "rows_ok env \<longleftrightarrow> (\<forall>cmd out rows. Output env cmd = Inr out \<longrightarrow> Unmarshal_Data out \<noteq> Inr ([] # rows))"

lemma findPort_total: "rows_ok env \<Longrightarrow> findPort env ns n \<noteq> None"
  by (auto simp: findPort_def rows_ok_def Let_def split: sum.split list.split)

lemma GetPortInfo_total:
  assumes "rows_ok env"
  shows "GetPortInfo env pod p \<noteq> None"
proof -
  from findPort_total [OF assms] obtain found t
    where f: "findPort env (pod_Namespace pod) (pod_Name pod) = Some (found, t)" by fastforce
  then show ?thesis
    by (cases found) (auto simp: GetPortInfo_def Let_def split: option.split sum.split prod.split)
qed

lemma pods_result_total:
  assumes "rows_ok env"
  shows "pods_result env c pods cache \<noteq> None"
proof (induction pods arbitrary: cache)
  case (Cons pod pods)
  have "pod_result env c pod cache \<noteq> None"
    using GetPortInfo_total [OF assms, of pod cache] by (auto simp: pod_result_def)
  then obtain fs k t where "pod_result env c pod cache = Some (fs, k, t)" by (cases "pod_result env c pod cache") auto
  with Cons [of k] show ?case by auto
qed simp

definition policies_ok :: "listers \<Rightarrow> controller \<Rightarrow> bool" where
  "policies_ok L c \<longleftrightarrow>
     (\<forall>nps. netPolLister_List L Everything = Inr nps \<longrightarrow>
        (\<forall>np\<in>set nps. \<forall>d. selected_ips L c np \<noteq> [] \<longrightarrow> \<not> panics d L np))"

theorem desired_flows_total:
  assumes "lists_ok L" and "rows_ok env" and "policies_ok L c"
  shows "desired_flows env L c \<noteq> None"
proof -
  from assms(1) obtain vs pods nps where lists: "vswitchLister_List L Everything = Inr vs"
      "podLister_List L Everything = Inr pods" "netPolLister_List L Everything = Inr nps"
    by (auto simp: lists_ok_def isl_def) (metis sum.exhaust)
  have "collect (netpol_result L c) nps \<noteq> None"
    using assms(3) lists(3) by (auto simp: collect_None_iff netpol_result_None policies_ok_def)
  with pods_result_total [OF assms(2), of c pods "portCache c"] lists show ?thesis
    by (auto simp: desired_flows_def)
qed

end
