(* ===== verification/OFSystem.thy ===== *)
theory OFSystem
  imports Panics
begin

text \<open>
  The controller over time: informer events and resynchronisations, each reading the cluster's
  objects of its moment and an \<^verbatim>\<open>os\<close> of its moment.  \<^verbatim>\<open>flowsLock\<close> serialises the synchronisations, so
  every event is one step.  The invariants: the configuration never changes, and every command
  that reached \<^verbatim>\<open>ovs-ofctl\<close> installed a complete set of flows: the text of the buffer of a
  synchronisation that failed half-way is never sent.
\<close>

section \<open>Events\<close>

datatype event =
    AddVSwitch "VSwitchConfig informer_obj"
  | UpdateVSwitch "VSwitchConfig informer_obj" "VSwitchConfig informer_obj"
  | DeleteVSwitch "VSwitchConfig informer_obj"
  | AddPod "Pod informer_obj"
  | UpdatePod "Pod informer_obj" "Pod informer_obj"
  | DeletePod "Pod informer_obj"
  | AddNetworkPolicy "NetworkPolicy informer_obj"
  | UpdateNetworkPolicy "NetworkPolicy informer_obj" "NetworkPolicy informer_obj"
  | DeleteNetworkPolicy "NetworkPolicy informer_obj"
  | FullResync

fun handle :: "os \<Rightarrow> listers \<Rightarrow> event \<Rightarrow> controller \<Rightarrow> controller option" where
  "handle env L (AddVSwitch obj) c = OnAddVSwitch env L obj c"
| "handle env L (UpdateVSwitch old new) c = OnUpdateVSwitch env L old new c"
| "handle env L (DeleteVSwitch obj) c = OnDeleteVSwitch obj c"
| "handle env L (AddPod obj) c = OnAddPod env L obj c"
| "handle env L (UpdatePod old new) c = OnUpdatePod env L old new c"
| "handle env L (DeletePod obj) c = OnDeletePod obj c"
| "handle env L (AddNetworkPolicy obj) c = OnAddNetworkPolicy env L obj c"
| "handle env L (UpdateNetworkPolicy old new) c = OnUpdateNetworkPolicy env L old new c"
| "handle env L (DeleteNetworkPolicy obj) c = OnDeleteNetworkPolicy env L obj c"
| "handle env L FullResync c = handler_sync env L c"

lemmas handler_defs =
  OnAddVSwitch_def OnUpdateVSwitch_def OnDeleteVSwitch_def OnAddPod_def OnUpdatePod_def OnDeletePod_def
  OnAddNetworkPolicy_def OnUpdateNetworkPolicy_def OnDeleteNetworkPolicy_def

text \<open>Every event synchronises, or leaves all but the port cache as it is.\<close>

lemma handle_cases:
  assumes "handle env L ev c = Some c'"
  obtains (sync) "handler_sync env L c = Some c'"
  | (cache) k where "c' = c\<lparr>portCache := k\<rparr>"
proof (cases ev)
  case (AddPod obj)
  with assms show ?thesis
    by (cases obj) (auto simp: handler_defs split: sum.split_asm if_splits intro: sync cache [of "portCache c"])
next
  case (UpdatePod old obj)
  with assms show ?thesis
    by (cases obj) (auto simp: handler_defs split: sum.split_asm if_splits intro: sync cache [of "portCache c"])
next
  case (DeletePod obj)
  with assms show ?thesis
    by (cases obj) (auto simp: handler_defs intro: cache cache [of "portCache c"])
qed (use assms in \<open>auto simp: handler_defs intro: sync cache [of "portCache c"]\<close>)

section \<open>The commands of one synchronisation\<close>

definition is_replace :: "command \<Rightarrow> bool" where
  "is_replace cmd \<longleftrightarrow> program cmd = ''ovs-ofctl''"

definition only_vsctl :: "command list \<Rightarrow> bool" where
  "only_vsctl t \<longleftrightarrow> filter is_replace t = []"

lemma only_vsctl_simps [simp]:
  "only_vsctl []" "only_vsctl (t @ u) \<longleftrightarrow> only_vsctl t \<and> only_vsctl u"
  "only_vsctl (cmd # t) \<longleftrightarrow> \<not> is_replace cmd \<and> only_vsctl t"
  by (simp_all add: only_vsctl_def)

lemma vsctl_not_replace [simp]: "\<not> is_replace (vsctl a)"
  by (simp add: is_replace_def vsctl_def)

lemma is_replace_flows [simp]: "is_replace (replace_flows br b)"
  by (simp add: is_replace_def replace_flows_def)

lemma findPort_vsctl: "findPort env ns n = Some (r, t) \<Longrightarrow> only_vsctl t"
  by (auto simp: findPort_def Let_def split: sum.split_asm list.split_asm)

lemma macAddrFromPort_vsctl: "macAddrFromPort env n = (r, t) \<Longrightarrow> only_vsctl t"
  by (auto simp: macAddrFromPort_def Let_def split: sum.split_asm)

lemma ofPortFromName_vsctl: "ofPortFromName env n = (r, t) \<Longrightarrow> only_vsctl t"
  by (auto simp: ofPortFromName_def Let_def split: sum.split_asm prod.split_asm option.split_asm)

lemma GetPortInfo_vsctl:
  assumes "GetPortInfo env pod p = Some (r, p', t)"
  shows "only_vsctl t"
proof (cases "p (portCacheKeyForPod pod)")
  case (Some v)
  with assms show ?thesis by (simp add: GetPortInfo_def)
next
  case None
  with assms obtain found t1 where f: "findPort env (pod_Namespace pod) (pod_Name pod) = Some (found, t1)"
    by (auto simp: GetPortInfo_def Option.bind_eq_Some_conv)
  note t1 = findPort_vsctl [OF f]
  show ?thesis
  proof (cases found)
    case (Inl e)
    with assms None f t1 show ?thesis by (simp add: GetPortInfo_def)
  next
    case (Inr name)
    obtain mres t2 where m: "macAddrFromPort env name = (mres, t2)" by fastforce
    obtain ores t3 where o': "ofPortFromName env name = (ores, t3)" by fastforce
    from assms None f Inr m o' t1 macAddrFromPort_vsctl [OF m] ofPortFromName_vsctl [OF o'] show ?thesis
      by (cases mres; cases ores) (auto simp: GetPortInfo_def Let_def)
  qed
qed

lemma pods_result_vsctl:
  assumes "pods_result env c pods cache = Some (fs, k, t)"
  shows "only_vsctl t"
  using assms
proof (induction pods arbitrary: cache fs t)
  case (Cons pod pods)
  then obtain gs k1 t1 hs t2 where p: "pod_result env c pod cache = Some (gs, k1, t1)"
    and ps: "pods_result env c pods k1 = Some (hs, k, t2)" and t: "t = t1 @ t2"
    by (auto simp: Option.bind_eq_Some_conv)
  from p have "only_vsctl t1"
    by (auto simp: pod_result_def Option.bind_eq_Some_conv split: if_splits dest: GetPortInfo_vsctl)
  with Cons.IH [OF ps] t show ?case by simp
qed simp

lemma same_config_advance: "same_config c (advance fs k t (c\<lparr>flows := b\<rparr>))"
  by (simp add: same_config_def advance_def)

lemma same_config_refl [simp]: "same_config c c"
  by (simp add: same_config_def)

lemma same_configD:
  assumes "same_config c c'"
  shows "nodeName c' = nodeName c" "bridgeName c' = bridgeName c" "gatewayIP c' = gatewayIP c"
    "bridgeMAC c' = bridgeMAC c" "clusterWideMAC c' = clusterWideMAC c" "podCIDR c' = podCIDR c"
    "clusterCIDR c' = clusterCIDR c" "clusterWideOFPort c' = clusterWideOFPort c" "overlayOFPort c' = overlayOFPort c"
  using arg_cong [OF assms [unfolded same_config_def], of nodeName]
    arg_cong [OF assms [unfolded same_config_def], of bridgeName]
    arg_cong [OF assms [unfolded same_config_def], of gatewayIP]
    arg_cong [OF assms [unfolded same_config_def], of bridgeMAC]
    arg_cong [OF assms [unfolded same_config_def], of clusterWideMAC]
    arg_cong [OF assms [unfolded same_config_def], of podCIDR]
    arg_cong [OF assms [unfolded same_config_def], of clusterCIDR]
    arg_cong [OF assms [unfolded same_config_def], of clusterWideOFPort]
    arg_cong [OF assms [unfolded same_config_def], of overlayOFPort]
  by simp_all

lemma same_config_trans: "same_config a b \<Longrightarrow> same_config b c \<Longrightarrow> same_config a c"
  by (cases a; cases b; cases c) (simp add: same_config_def)

text \<open>
  All outcomes of \<^const>\<open>syncFlows\<close>: an error before the command, an error of the pipe, or the command
  with the whole of \<^const>\<open>desired_flows\<close>.
\<close>

theorem syncFlows_outcomes:
  assumes "syncFlows env L c = Some (r, c')"
  shows "same_config c c' \<and> (\<exists>t. trace c' = trace c @ t \<and>
    (only_vsctl t \<and> r \<noteq> None \<or>
     (\<exists>fs k u. lists_ok L \<and> desired_flows env L c = Some (fs, k, u) \<and> portCache c' = k \<and>
        t = u @ [install c fs] \<and> only_vsctl u \<and>
        (r = None \<longleftrightarrow> \<not> isl (CombinedOutput env (install c fs))))))"
proof (cases "lists_ok L")
  case False
  let ?c = "c\<lparr>flows := Reset (flows c)\<rparr>"
  have adv: "same_config c (advance fs k t ?c)" "trace (advance fs k t ?c) = trace c @ t" for fs k t
    by (simp_all add: same_config_advance)
  have early: ?thesis if "c' = advance fs k t ?c" "only_vsctl t" "r \<noteq> None" for fs k t
    using adv [of fs k t] that by auto
  show ?thesis
  proof (cases "vswitchLister_List L Everything")
    case (Inl e)
    with assms show ?thesis by (intro early) (auto simp: syncFlows_eq Let_def)
  next
    case vs: (Inr vs)
    show ?thesis
    proof (cases "podLister_List L Everything")
      case (Inl e)
      with assms vs show ?thesis by (intro early) (auto simp: syncFlows_eq Let_def)
    next
      case pods: (Inr pods)
      with False vs obtain e where nps: "netPolLister_List L Everything = Inl e"
        by (cases "netPolLister_List L Everything") (auto simp: lists_ok_def)
      from assms vs pods nps obtain pfs k t where "pods_result env c pods (portCache c) = Some (pfs, k, t)"
        and "r = Some (Errorf ''error getting network policies'' e)"
        and "c' = advance ((default_flows c @ concat (map (vswitch_flows c) vs)) @ pfs) k t ?c"
        by (auto simp: syncFlows_eq Let_def Option.bind_eq_Some_conv)
      with pods_result_vsctl show ?thesis by (intro early) auto
    qed
  qed
next
  case True
  with assms obtain fs k u where des: "desired_flows env L c = Some (fs, k, u)"
    using syncFlows_panics_iff [OF True, of env c] by (cases "desired_flows env L c") auto
  have vs: "only_vsctl u"
    using des by (auto elim!: desired_flows_parts dest: pods_result_vsctl)
  let ?c' = "advance fs k u (c\<lparr>flows := Reset (flows c)\<rparr>)"
  show ?thesis
  proof (cases "StdinPipe env")
    case (Some e)
    with assms syncFlows_desired [OF True des] have "r \<noteq> None" "c' = ?c'"
      by (auto simp: Buffer_SyncFlows_def Let_def)
    with vs same_config_advance show ?thesis by auto
  next
    case None
    have sc: "same_config c (?c'\<lparr>trace := t\<rparr>)" for t by (simp add: same_config_def advance_def)
    from None assms syncFlows_desired [OF True des] have "c' = ?c'\<lparr>trace := trace ?c' @ [install c fs]\<rparr>"
      "r = None \<longleftrightarrow> \<not> isl (CombinedOutput env (install c fs))"
      by (auto simp: Buffer_SyncFlows_def install_def Let_def split: sum.split_asm)
    with des vs True sc show ?thesis by auto
  qed
qed

section \<open>The system\<close>

record system =
  ctrl :: controller
  cluster :: store

text \<open>Between two events the cluster changes in any way.\<close>

inductive step :: "system \<Rightarrow> system \<Rightarrow> bool" where
  event: "handle env (cache_listers st) ev (ctrl s) = Some c' \<Longrightarrow> step s \<lparr>ctrl = c', cluster = st\<rparr>"

inductive reach :: "system \<Rightarrow> system \<Rightarrow> bool" for s0 where
  init: "reach s0 s0"
| next_step: "reach s0 s \<Longrightarrow> step s s' \<Longrightarrow> reach s0 s'"

inductive_cases stepE: "step s s'"

text \<open>The command that defines the bridge's flows: the last one to \<^verbatim>\<open>ovs-ofctl\<close>.\<close>

definition installed :: "command list \<Rightarrow> command option" where
  "installed t = (let cmds = filter is_replace t in if cmds = [] then None else Some (last cmds))"

lemma installed_snoc: "only_vsctl u \<Longrightarrow> is_replace cmd \<Longrightarrow> installed (t @ u @ [cmd]) = Some cmd"
  by (simp add: installed_def only_vsctl_def)

lemma installed_vsctl: "only_vsctl u \<Longrightarrow> installed (t @ u) = installed t"
  by (simp add: installed_def only_vsctl_def)

definition complete_install :: "controller \<Rightarrow> command \<Rightarrow> bool" where
  "complete_install c cmd \<longleftrightarrow> (\<exists>rest. cmd = install c (default_flows c @ rest))"

definition system_inv :: "controller \<Rightarrow> controller \<Rightarrow> bool" where
  "system_inv c0 c \<longleftrightarrow> same_config c0 c \<and> (\<forall>cmd\<in>set (trace c). is_replace cmd \<longrightarrow> complete_install c0 cmd)"

lemma install_same_config: "same_config c0 c \<Longrightarrow> install c fs = install c0 fs"
  by (simp add: install_def same_configD)

lemma default_flows_same_config: "same_config c0 c \<Longrightarrow> default_flows c = default_flows c0"
  by (simp add: default_flows_def same_configD)

lemma only_vsctl_mem: "only_vsctl t \<Longrightarrow> cmd \<in> set t \<Longrightarrow> \<not> is_replace cmd"
  by (auto simp: only_vsctl_def filter_empty_conv)

lemma system_inv_sync:
  assumes "system_inv c0 c" and "syncFlows env L c = Some (r, c')"
  shows "system_inv c0 c'"
proof -
  from assms(1) have sc: "same_config c0 c" and old: "\<forall>cmd\<in>set (trace c). is_replace cmd \<longrightarrow> complete_install c0 cmd"
    by (simp_all add: system_inv_def)
  from syncFlows_outcomes [OF assms(2)] obtain t where sc': "same_config c c'" and t: "trace c' = trace c @ t"
    and out: "only_vsctl t \<or> (\<exists>fs k u. desired_flows env L c = Some (fs, k, u) \<and> t = u @ [install c fs] \<and> only_vsctl u)"
    by blast
  from out have "\<forall>cmd\<in>set t. is_replace cmd \<longrightarrow> complete_install c0 cmd"
  proof
    assume "only_vsctl t"
    then show ?thesis by (auto dest: only_vsctl_mem)
  next
    assume "\<exists>fs k u. desired_flows env L c = Some (fs, k, u) \<and> t = u @ [install c fs] \<and> only_vsctl u"
    then obtain fs k u where des: "desired_flows env L c = Some (fs, k, u)" and t': "t = u @ [install c fs]"
      and u: "only_vsctl u" by blast
    from desired_flows_parts [OF des] obtain rest where "fs = default_flows c @ rest" by blast
    with sc have "complete_install c0 (install c fs)"
      by (auto simp: complete_install_def install_same_config [OF sc] default_flows_same_config [OF sc])
    with t' u show ?thesis by (auto dest: only_vsctl_mem)
  qed
  with old t same_config_trans [OF sc sc'] show ?thesis by (auto simp: system_inv_def)
qed

lemma system_inv_step:
  assumes "step s s'" and "system_inv c0 (ctrl s)"
  shows "system_inv c0 (ctrl s')"
proof -
  from assms(1) obtain st env ev c' where hd: "handle env (cache_listers st) ev (ctrl s) = Some c'" and s': "ctrl s' = c'"
    by (auto elim: stepE)
  from hd have "system_inv c0 c'"
  proof (cases rule: handle_cases)
    case sync
    then obtain r where "syncFlows env (cache_listers st) (ctrl s) = Some (r, c')"
      by (auto simp: handler_sync_def)
    with assms(2) show ?thesis by (rule system_inv_sync)
  next
    case (cache k)
    with assms(2) show ?thesis
      by (simp add: system_inv_def same_config_def)
  qed
  with s' show ?thesis by simp
qed

theorem reach_inv:
  assumes "reach s0 s" and "only_vsctl (trace (ctrl s0))"
  shows "system_inv (ctrl s0) (ctrl s)"
  using assms(1)
proof induction
  case init
  from assms(2) show ?case by (auto simp: system_inv_def dest: only_vsctl_mem)
next
  case (next_step s s')
  then show ?case by (blast intro: system_inv_step)
qed

section \<open>A resynchronisation repairs the bridge\<close>

lemma cache_lists_ok: "lists_ok (cache_listers st)"
  by (simp add: lists_ok_def cache_listers_def ListAll_eq)

theorem resync_installs:
  assumes "rows_ok env" and "policies_ok (cache_listers st) c" and "StdinPipe env = None"
  shows "\<exists>c' fs k u. handle env (cache_listers st) FullResync c = Some c' \<and>
    desired_flows env (cache_listers st) c = Some (fs, k, u) \<and> installed (trace c') = Some (install c fs)"
proof -
  let ?L = "cache_listers st"
  from desired_flows_total [OF cache_lists_ok assms(1,2)] obtain fs k u
    where des: "desired_flows env ?L c = Some (fs, k, u)" by auto
  from syncFlows_panics_iff [OF cache_lists_ok, of env st c] des obtain r c'
    where s: "syncFlows env ?L c = Some (r, c')" by auto
  have "only_vsctl u" using des by (auto elim!: desired_flows_parts dest: pods_result_vsctl)
  moreover have "trace c' = trace c @ u @ [install c fs]"
    using s syncFlows_desired [OF cache_lists_ok des] assms(3)
    by (auto simp: Buffer_SyncFlows_def install_def Let_def split: sum.split_asm)
  ultimately have "installed (trace c') = Some (install c fs)"
    using installed_snoc [of u "install c fs"] by (simp add: install_def)
  with s des show ?thesis by (auto simp: handler_sync_def)
qed

text \<open>Once the ports of all local pods are cached, a synchronisation asks nothing and keeps the cache.\<close>

definition all_cached :: "controller \<Rightarrow> Pod list \<Rightarrow> bool" where
  "all_cached c pods \<longleftrightarrow> (\<forall>pod\<in>set pods. PodIP pod \<noteq> [] \<and> isLocalIP c (PodIP pod) = Inr True \<longrightarrow>
     portCache c (portCacheKeyForPod pod) \<noteq> None)"

definition cached_flows :: "controller \<Rightarrow> Pod \<Rightarrow> Flow list" where
  "cached_flows c pod =
     (if PodIP pod = [] \<or> isLocalIP c (PodIP pod) \<noteq> Inr True then []
      else pod_flows (PodIP pod) (the (portCache c (portCacheKeyForPod pod))))"

lemma pods_result_all_cached:
  assumes "all_cached c pods"
  shows "pods_result env c pods (portCache c) = Some (concat (map (cached_flows c) pods), portCache c, [])"
  using assms
proof (induction pods)
  case (Cons pod pods)
  have "pod_result env c pod (portCache c) = Some (cached_flows c pod, portCache c, [])"
    using Cons.prems pc.get_hit [of "portCache c" pod _ env]
    by (auto simp: pod_result_def cached_flows_def all_cached_def)
  with Cons show ?case by (simp add: all_cached_def)
qed simp

theorem resync_stable:
  assumes "podLister_List L Everything = Inr pods" and "all_cached c pods"
    and "desired_flows env L c = Some (fs, k, u)"
  shows "desired_flows env' L c = Some (fs, portCache c, []) \<and> k = portCache c \<and> u = []"
proof -
  from assms(1,3) obtain vs nps pfs nfs where "vswitchLister_List L Everything = Inr vs"
    "netPolLister_List L Everything = Inr nps" "pods_result env c pods (portCache c) = Some (pfs, k, u)"
    "collect (netpol_result L c) nps = Some nfs" "fs = default_flows c @ concat (map (vswitch_flows c) vs) @ pfs @ nfs"
    by (auto elim!: desired_flows_parts)
  with assms(1) pods_result_all_cached [OF assms(2)] show ?thesis by (simp add: desired_flows_def)
qed

text \<open>A synchronisation that reports success has installed its flows.\<close>

lemma syncFlows_success:
  assumes "syncFlows env L c = Some (None, c')"
  obtains fs k u where "lists_ok L" "desired_flows env L c = Some (fs, k, u)" "portCache c' = k"
    "installed (trace c') = Some (install c fs)" "same_config c c'"
proof -
  from syncFlows_outcomes [OF assms] obtain t fs k u where "same_config c c'" "trace c' = trace c @ t" "lists_ok L"
    "desired_flows env L c = Some (fs, k, u)" "portCache c' = k" "t = u @ [install c fs]" "only_vsctl u"
    by blast
  then show ?thesis
    using installed_snoc [of u "install c fs" "trace c"] by (intro that) (simp_all add: install_def)
qed

lemma syncFlows_succeeds:
  assumes "lists_ok L" "rows_ok env" "policies_ok L c" "StdinPipe env = None"
    and "\<And>cmd. \<not> isl (CombinedOutput env cmd)"
  shows "\<exists>c'. syncFlows env L c = Some (None, c')"
proof -
  from desired_flows_total [OF assms(1-3)] obtain fs k u where des: "desired_flows env L c = Some (fs, k, u)" by auto
  from assms(5) obtain out where "CombinedOutput env (replace_flows (bridgeName c) \<lparr>buffer = render fs\<rparr>) = Inr out"
    by (cases "CombinedOutput env (replace_flows (bridgeName c) \<lparr>buffer = render fs\<rparr>)") (metis sum.disc(1), blast)
  with syncFlows_desired [OF assms(1) des] assms(4) show ?thesis by (auto simp: Buffer_SyncFlows_def Let_def)
qed

lemma installed_mem: "installed t = Some cmd \<Longrightarrow> cmd \<in> set t \<and> is_replace cmd"
  using last_mem_filter [of is_replace t] by (auto simp: installed_def Let_def split: if_splits)

end
