(* ===== verification/OFWire.thy ===== *)
theory OFWire
  imports GoNet
begin

text \<open>
  The OpenFlow 1.3 messages the controller exchanges, from the vendored
  \<^verbatim>\<open>Kmotiko/gofc/ofprotocol/ofp13/ofp13_parser.go\<close>: the header, hello, echo and features messages, the
  dispatch of \<^verbatim>\<open>Parse\<close>, and \<^verbatim>\<open>connection/openflow.go\<close>.  A read past the end of the packet panics
  (\<^const>\<open>None\<close>).  The codecs of the messages the controller ignores are a parameter of \<open>ofp13_Parse\<close>.
\<close>

section \<open>Big-endian integers\<close>

type_synonym bytes = "8 word list"

primrec put_be :: "nat \<Rightarrow> nat \<Rightarrow> bytes" where
  "put_be 0 v = []"
| "put_be (Suc n) v = word_of_nat (v div 256 ^ n) # put_be n v"

definition get_be :: "nat \<Rightarrow> bytes \<Rightarrow> nat option" where
  "get_be n bs = (if length bs < n then None else Some (be_val (take n bs)))"

definition byte_at :: "bytes \<Rightarrow> nat \<Rightarrow> 8 word option" where
  "byte_at bs i = (if i < length bs then Some (bs ! i) else None)"

lemma length_put_be [simp]: "length (put_be n v) = n"
  by (induction n) simp_all

lemma be_val_put_be [simp]: "be_val (put_be n v) = v mod 256 ^ n"
proof (induction n)
  case (Suc n)
  have "v mod 256 ^ Suc n = 256 ^ n * (v div 256 ^ n mod 256) + v mod 256 ^ n"
    using mod_mult2_eq [of v "256 ^ n" 256] by (simp add: mult.commute)
  with Suc show ?case by (simp add: be_val_Cons unat_of_nat mult.commute)
qed simp

lemma get_be_put_be [simp]: "get_be n (put_be n v @ bs) = Some (v mod 256 ^ n)"
  by (simp add: get_be_def)

lemma unat_mod_16: "unat (w :: 16 word) mod 256 ^ 2 = unat w"
  using unsigned_less [of w, where 'a = nat] by (intro mod_less) simp

lemma unat_mod_32: "unat (w :: 32 word) mod 256 ^ 4 = unat w"
  using unsigned_less [of w, where 'a = nat] by (intro mod_less) simp

section \<open>The header\<close>

record OfpHeader =
  Version :: "8 word"
  Type :: "8 word"
  Length :: "16 word"
  Xid :: "32 word"

definition OFPT_HELLO :: "8 word" where "OFPT_HELLO = 0"
definition OFPT_ECHO_REQUEST :: "8 word" where "OFPT_ECHO_REQUEST = 2"
definition OFPT_ECHO_REPLY :: "8 word" where "OFPT_ECHO_REPLY = 3"
definition OFPT_FEATURES_REQUEST :: "8 word" where "OFPT_FEATURES_REQUEST = 5"
definition OFPT_FEATURES_REPLY :: "8 word" where "OFPT_FEATURES_REPLY = 6"

lemmas OFPT_defs =
  OFPT_HELLO_def OFPT_ECHO_REQUEST_def OFPT_ECHO_REPLY_def OFPT_FEATURES_REQUEST_def OFPT_FEATURES_REPLY_def

text \<open>The transaction id is the next value of a global counter; it is returned with the header.\<close>

definition nextXid :: "32 word \<Rightarrow> 32 word \<times> 32 word" where
  "nextXid xid = (let tmp = xid in (tmp, xid + 1))"

definition NewOfpHeader :: "8 word \<Rightarrow> 32 word \<Rightarrow> OfpHeader \<times> 32 word" where
  "NewOfpHeader t xid =
     (let (x, xid) = nextXid xid in (\<lparr>Version = 4, Type = t, Length = 8, Xid = x\<rparr>, xid))"

definition OfpHeader_Serialize :: "OfpHeader \<Rightarrow> bytes" where
  "OfpHeader_Serialize h =
     [Version h, Type h] @ put_be 2 (unat (Length h)) @ put_be 4 (unat (Xid h))"

definition OfpHeader_Parse :: "bytes \<Rightarrow> OfpHeader option" where
  "OfpHeader_Parse packet = do {
     v \<leftarrow> byte_at packet 0;
     t \<leftarrow> byte_at packet 1;
     l \<leftarrow> get_be 2 (drop 2 packet);
     x \<leftarrow> get_be 4 (drop 4 packet);
     Some \<lparr>Version = v, Type = t, Length = word_of_nat l, Xid = word_of_nat x\<rparr> }"

definition OfpHeader_Size :: "OfpHeader \<Rightarrow> nat" where
  "OfpHeader_Size h = 8"

lemma length_OfpHeader_Serialize [simp]: "length (OfpHeader_Serialize h) = OfpHeader_Size h"
  by (simp add: OfpHeader_Serialize_def OfpHeader_Size_def)

theorem OfpHeader_roundtrip: "OfpHeader_Parse (OfpHeader_Serialize h @ bs) = Some h"
proof -
  have 2: "unat (Length h) mod 256 ^ 2 = unat (Length h)" by (rule unat_mod_16)
  have 4: "unat (Xid h) mod 256 ^ 4 = unat (Xid h)" by (rule unat_mod_32)
  have d: "drop 2 (OfpHeader_Serialize h @ bs) = put_be 2 (unat (Length h)) @ put_be 4 (unat (Xid h)) @ bs"
    "drop 4 (OfpHeader_Serialize h @ bs) = put_be 4 (unat (Xid h)) @ bs"
    by (simp_all add: OfpHeader_Serialize_def)
  have b: "byte_at (OfpHeader_Serialize h @ bs) 0 = Some (Version h)"
    "byte_at (OfpHeader_Serialize h @ bs) 1 = Some (Type h)"
    by (simp_all add: byte_at_def OfpHeader_Serialize_def)
  show ?thesis unfolding OfpHeader_Parse_def d b by (simp only: get_be_put_be 2 4) simp
qed

section \<open>Hello\<close>

record OfpHelloElemHeader =
  elem_Type :: "16 word"
  elem_Length :: "16 word"

record OfpHello =
  hello_Header :: OfpHeader
  Elements :: "OfpHelloElemHeader list"

definition OfpHelloElemHeader_Serialize :: "OfpHelloElemHeader \<Rightarrow> bytes" where
  "OfpHelloElemHeader_Serialize h =
     put_be 2 (unat (elem_Type h)) @ put_be 2 (unat (elem_Length h)) @ replicate 4 0"

definition OfpHelloElemHeader_Parse :: "bytes \<Rightarrow> OfpHelloElemHeader option" where
  "OfpHelloElemHeader_Parse packet = do {
     t \<leftarrow> get_be 2 packet;
     l \<leftarrow> get_be 2 (drop 2 packet);
     Some \<lparr>elem_Type = word_of_nat t, elem_Length = word_of_nat l\<rparr> }"

definition NewOfpHello :: "32 word \<Rightarrow> OfpHello \<times> 32 word" where
  "NewOfpHello xid = (let (h, xid) = NewOfpHeader OFPT_HELLO xid in (\<lparr>hello_Header = h, Elements = []\<rparr>, xid))"

definition OfpHello_Serialize :: "OfpHello \<Rightarrow> bytes" where
  "OfpHello_Serialize m =
     OfpHeader_Serialize (hello_Header m) @ concat (map OfpHelloElemHeader_Serialize (Elements m))"

text \<open>The elements are parsed and thrown away: the append is commented out in the code.\<close>

function hello_elements :: "bytes \<Rightarrow> unit option" where
  "hello_elements packet =
     (if packet = [] then Some ()
      else do { e \<leftarrow> OfpHelloElemHeader_Parse packet; hello_elements (drop 8 packet) })"
  by pat_completeness auto
termination by (relation "measure length") auto

declare hello_elements.simps [simp del]

definition OfpHello_Parse :: "bytes \<Rightarrow> OfpHello option" where
  "OfpHello_Parse packet = do {
     h \<leftarrow> OfpHeader_Parse packet;
     _ \<leftarrow> hello_elements (drop 8 packet);
     Some \<lparr>hello_Header = h, Elements = []\<rparr> }"

section \<open>Echo and features\<close>

definition NewOfpEchoReply :: "32 word \<Rightarrow> OfpHeader \<times> 32 word" where
  "NewOfpEchoReply xid = NewOfpHeader OFPT_ECHO_REPLY xid"

definition NewOfpFeaturesRequest :: "32 word \<Rightarrow> OfpHeader \<times> 32 word" where
  "NewOfpFeaturesRequest xid = NewOfpHeader OFPT_FEATURES_REQUEST xid"

record OfpSwitchFeatures =
  sf_Header :: OfpHeader
  DatapathId :: "64 word"
  NBuffers :: "32 word"
  NTables :: "8 word"
  AuxiliaryId :: "8 word"
  Pad0 :: "8 word"
  Pad1 :: "8 word"
  Capabilities :: "32 word"
  Reserved :: "32 word"

definition OfpSwitchFeatures_Parse :: "bytes \<Rightarrow> OfpSwitchFeatures option" where
  "OfpSwitchFeatures_Parse packet = do {
     h \<leftarrow> OfpHeader_Parse packet;
     dpid \<leftarrow> get_be 8 (drop 8 packet);
     nbuf \<leftarrow> get_be 4 (drop 16 packet);
     ntab \<leftarrow> byte_at packet 20;
     aux \<leftarrow> byte_at packet 21;
     p0 \<leftarrow> byte_at packet 22;
     p1 \<leftarrow> byte_at packet 23;
     cap \<leftarrow> get_be 4 (drop 24 packet);
     res \<leftarrow> get_be 4 (drop 28 packet);
     Some \<lparr>sf_Header = h, DatapathId = word_of_nat dpid, NBuffers = word_of_nat nbuf, NTables = ntab,
           AuxiliaryId = aux, Pad0 = p0, Pad1 = p1, Capabilities = word_of_nat cap, Reserved = word_of_nat res\<rparr> }"

section \<open>The dispatch\<close>

text \<open>
  An \<^verbatim>\<open>OFMessage\<close>: \<open>NilMsg\<close> is the nil interface of an unknown type, \<open>OtherMsg\<close> a message the controller
  has no case for.
\<close>

datatype OFMessage =
    HeaderMsg OfpHeader
  | HelloMsg OfpHello
  | SwitchFeaturesMsg OfpSwitchFeatures
  | OtherMsg "8 word" "bytes"
  | NilMsg

type_synonym codec = "8 word \<Rightarrow> bytes \<Rightarrow> 32 word \<Rightarrow> (OFMessage \<times> 32 word) option"

text \<open>The echo and features messages are made by their constructors, which draw a transaction id.\<close>

definition ofp13_Parse :: "codec \<Rightarrow> bytes \<Rightarrow> 32 word \<Rightarrow> (OFMessage \<times> 32 word) option" where
  "ofp13_Parse other packet xid = do {
     t \<leftarrow> byte_at packet 1;
     (if t = OFPT_HELLO then do { m \<leftarrow> OfpHello_Parse packet; Some (HelloMsg m, xid) }
      else if t = OFPT_ECHO_REQUEST then do { h \<leftarrow> OfpHeader_Parse packet; Some (HeaderMsg h, snd (nextXid xid)) }
      else if t = OFPT_ECHO_REPLY then do { h \<leftarrow> OfpHeader_Parse packet; Some (HeaderMsg h, snd (nextXid xid)) }
      else if t = OFPT_FEATURES_REPLY
        then do { m \<leftarrow> OfpSwitchFeatures_Parse packet; Some (SwitchFeaturesMsg m, snd (nextXid xid)) }
      else other t packet xid) }"

section \<open>\<^verbatim>\<open>connection/openflow.go\<close>\<close>

definition ParseMessage :: "codec \<Rightarrow> bytes \<Rightarrow> 32 word \<Rightarrow> (OFMessage \<times> 32 word) option" where
  "ParseMessage other buf xid = ofp13_Parse other buf xid"

definition MessageLength :: "bytes \<Rightarrow> nat option" where
  "MessageLength buf = (if length buf < 2 then None else get_be 2 (drop 2 buf))"

lemma MessageLength_header: "MessageLength (OfpHeader_Serialize h @ bs) = Some (unat (Length h))"
proof -
  have "drop 2 (OfpHeader_Serialize h @ bs) = put_be 2 (unat (Length h)) @ put_be 4 (unat (Xid h)) @ bs"
    by (simp add: OfpHeader_Serialize_def)
  moreover note unat_mod_16 [of "Length h"]
  ultimately show ?thesis by (simp add: MessageLength_def OfpHeader_Size_def)
qed

theorem MessageLength_bound:
  assumes "MessageLength buf = Some n"
  shows "n < 65536 \<and> 4 \<le> length buf"
proof -
  from assms have len: "4 \<le> length buf" and n: "n = be_val (take 2 (drop 2 buf))"
    by (auto simp: MessageLength_def get_be_def split: if_splits)
  with be_val_less [of "take 2 (drop 2 buf)"] show ?thesis by simp
qed

end
