(* ===== verification/OFConnect.thy ===== *)
theory OFConnect
  imports OFWire
begin

text \<open>
  \<^verbatim>\<open>connection/connection.go\<close>: the send queue with its goroutine \<^verbatim>\<open>ProcessQueue\<close>, and the receiving loop
  \<^verbatim>\<open>handleConn\<close>.

  The goroutine is a program counter over its two critical sections; \<^verbatim>\<open>Send\<close> and \<^verbatim>\<open>SetConnection\<close> of
  other goroutines interleave wherever the mutexes let them.  A \<^verbatim>\<open>sync.Cond\<close> wakes its waiter only on a
  broadcast.  The code tests its conditions once (\<^verbatim>\<open>if\<close>, not \<^verbatim>\<open>for\<close>), so that the head of the queue
  exists when it is read is a property of the interleavings, proved below.
\<close>

section \<open>The queue\<close>

datatype pc =
    PStart          \<comment> \<open>before \<^verbatim>\<open>connMu.Lock()\<close>\<close>
  | PConnWait       \<comment> \<open>in \<^verbatim>\<open>connCond.Wait()\<close>\<close>
  | PQueue          \<comment> \<open>before \<^verbatim>\<open>queueMu.Lock()\<close>\<close>
  | PQueueWait      \<comment> \<open>in \<^verbatim>\<open>queueCond.Wait()\<close>\<close>
  | PWoken          \<comment> \<open>woken, before it has \<^verbatim>\<open>queueMu\<close> again\<close>
  | PRead           \<comment> \<open>holding \<^verbatim>\<open>queueMu\<close>, before \<^verbatim>\<open>of.queue[0]\<close>\<close>
  | PPanic          \<comment> \<open>index out of range\<close>

text \<open>\<open>sent\<close> and \<open>written\<close> are ghosts: the messages handed to \<^verbatim>\<open>Send\<close>, and those written with their connection.\<close>

record ('m, 'k) OFConnect =
  queue :: "'m list"
  conn :: "'k option"
  proc :: pc
  sent :: "'m list"
  written :: "('k \<times> 'm) list"

definition NewOFConnect :: "('m, 'k) OFConnect" where
  "NewOFConnect = \<lparr>queue = [], conn = None, proc = PStart, sent = [], written = []\<rparr>"

text \<open>\<^verbatim>\<open>Send\<close> needs \<^verbatim>\<open>queueMu\<close>, which \<^verbatim>\<open>ProcessQueue\<close> holds from the read to the pop.\<close>

definition Send :: "'m \<Rightarrow> ('m, 'k) OFConnect \<Rightarrow> ('m, 'k) OFConnect option" where
  "Send msg s =
     (if proc s = PRead then None
      else Some (s\<lparr>queue := queue s @ [msg], sent := sent s @ [msg],
                   proc := (if proc s = PQueueWait then PWoken else proc s)\<rparr>))"

definition SetConnection :: "'k \<Rightarrow> ('m, 'k) OFConnect \<Rightarrow> ('m, 'k) OFConnect" where
  "SetConnection k s = s\<lparr>conn := Some k, proc := (if proc s = PConnWait then PQueue else proc s)\<rparr>"

text \<open>\<open>wres\<close> is the result of \<^verbatim>\<open>conn.Write\<close>.\<close>

definition WriteConnection :: "err option \<Rightarrow> 'm \<Rightarrow> ('m, 'k) OFConnect \<Rightarrow> err option \<times> ('m, 'k) OFConnect" where
  "WriteConnection wres msg s =
     (case conn s of
        None \<Rightarrow> (Some (ErrorMsg ''main connection not established yet''), s)
      | Some k \<Rightarrow>
          (case wres of
             None \<Rightarrow> (None, s\<lparr>written := written s @ [(k, msg)]\<rparr>)
           | Some e \<Rightarrow> (Some e, s)))"

text \<open>One step of \<^verbatim>\<open>ProcessQueue\<close>; \<^const>\<open>None\<close> where it waits.\<close>

definition ProcessQueue :: "err option \<Rightarrow> ('m, 'k) OFConnect \<Rightarrow> ('m, 'k) OFConnect option" where
  "ProcessQueue wres s =
     (case proc s of
        PStart \<Rightarrow> Some (s\<lparr>proc := (if conn s = None then PConnWait else PQueue)\<rparr>)
      | PConnWait \<Rightarrow> None
      | PQueue \<Rightarrow> Some (s\<lparr>proc := (if length (queue s) = 0 then PQueueWait else PRead)\<rparr>)
      | PQueueWait \<Rightarrow> None
      | PWoken \<Rightarrow> Some (s\<lparr>proc := PRead\<rparr>)
      | PRead \<Rightarrow>
          (case queue s of
             [] \<Rightarrow> Some (s\<lparr>proc := PPanic\<rparr>)
           | msg # rest \<Rightarrow>
               (case WriteConnection wres msg s of
                  (Some e, s) \<Rightarrow> Some (s\<lparr>proc := PStart\<rparr>)
                | (None, s) \<Rightarrow> Some (s\<lparr>queue := rest, proc := PStart\<rparr>)))
      | PPanic \<Rightarrow> None)"

inductive conn_step :: "('m, 'k) OFConnect \<Rightarrow> ('m, 'k) OFConnect \<Rightarrow> bool" where
  send: "Send msg s = Some s' \<Longrightarrow> conn_step s s'"
| accept: "SetConnection k s = s' \<Longrightarrow> conn_step s s'"
| process: "ProcessQueue wres s = Some s' \<Longrightarrow> conn_step s s'"

inductive conn_reach :: "('m, 'k) OFConnect \<Rightarrow> bool" where
  start: "conn_reach NewOFConnect"
| step: "conn_reach s \<Longrightarrow> conn_step s s' \<Longrightarrow> conn_reach s'"

section \<open>No message is lost, reordered or read from an empty queue\<close>

definition queue_inv :: "('m, 'k) OFConnect \<Rightarrow> bool" where
  "queue_inv s \<longleftrightarrow>
     map snd (written s) @ queue s = sent s \<and> proc s \<noteq> PPanic \<and>
     (proc s \<in> {PWoken, PRead} \<longrightarrow> queue s \<noteq> []) \<and>
     (proc s = PQueueWait \<longrightarrow> queue s = []) \<and>
     (proc s \<in> {PQueue, PQueueWait, PWoken, PRead} \<longrightarrow> conn s \<noteq> None) \<and>
     (proc s = PConnWait \<longrightarrow> conn s = None)"

lemma queue_inv_Send: "queue_inv s \<Longrightarrow> Send msg s = Some s' \<Longrightarrow> queue_inv s'"
  by (cases "proc s") (auto simp: Send_def queue_inv_def split: if_splits)

lemma queue_inv_SetConnection: "queue_inv s \<Longrightarrow> queue_inv (SetConnection k s)"
  by (cases "proc s") (auto simp: SetConnection_def queue_inv_def)

lemma queue_inv_ProcessQueue:
  assumes "queue_inv s" and "ProcessQueue wres s = Some s'"
  shows "queue_inv s'"
proof (cases "proc s")
  case PRead
  with assms(1) obtain k msg rest where "conn s = Some k" "queue s = msg # rest"
    by (cases "queue s") (auto simp: queue_inv_def)
  with assms PRead show ?thesis
    by (cases wres) (auto simp: ProcessQueue_def WriteConnection_def queue_inv_def)
qed (use assms in \<open>auto simp: ProcessQueue_def queue_inv_def split: if_splits\<close>)

theorem conn_reach_inv:
  assumes "conn_reach s"
  shows "queue_inv s"
  using assms
proof induction
  case start
  show ?case by (simp add: queue_inv_def NewOFConnect_def)
next
  case (step s s')
  from step.hyps(2) step.IH show ?case
    by (cases rule: conn_step.cases) (auto intro: queue_inv_Send queue_inv_SetConnection queue_inv_ProcessQueue)
qed

theorem send_queue_fifo:
  assumes "conn_reach s"
  shows "map snd (written s) @ queue s = sent s \<and> proc s \<noteq> PPanic"
  using conn_reach_inv [OF assms] by (simp add: queue_inv_def)

text \<open>With a connection and working writes, the goroutine alone drains the queue.\<close>

primrec process_n :: "nat \<Rightarrow> ('m, 'k) OFConnect \<Rightarrow> ('m, 'k) OFConnect" where
  "process_n 0 s = s"
| "process_n (Suc n) s = (case ProcessQueue None s of None \<Rightarrow> s | Some s' \<Rightarrow> process_n n s')"

lemma drain_PStart:
  assumes "conn s = Some k" and "proc s = PStart"
  shows "\<exists>n s'. process_n n s = s' \<and> queue s' = [] \<and> conn s' = Some k \<and>
    map snd (written s') = map snd (written s) @ queue s"
  using assms
proof (induction "queue s" arbitrary: s)
  case Nil
  then have "process_n 0 s = s \<and> queue s = []" by simp
  with Nil show ?case by (intro exI [of _ 0]) simp
next
  case (Cons msg rest)
  let ?t = "s\<lparr>queue := rest, written := written s @ [(k, msg)]\<rparr>"
  have q: "queue s = msg # rest" using Cons.hyps(2) by simp
  have three: "process_n (3 + n) s = process_n n ?t" for n
  proof -
    have "ProcessQueue None s = Some (s\<lparr>proc := PQueue\<rparr>)"
      using Cons.prems by (simp add: ProcessQueue_def)
    moreover have "ProcessQueue None (s\<lparr>proc := PQueue\<rparr>) = Some (s\<lparr>proc := PRead\<rparr>)"
      using q by (simp add: ProcessQueue_def)
    moreover have "ProcessQueue None (s\<lparr>proc := PRead\<rparr>) = Some ?t"
      using q Cons.prems by (simp add: ProcessQueue_def WriteConnection_def)
    ultimately show ?thesis by (simp add: numeral_3_eq_3)
  qed
  have "\<exists>n s'. process_n n ?t = s' \<and> queue s' = [] \<and> conn s' = Some k \<and>
      map snd (written s') = map snd (written ?t) @ queue ?t"
    by (rule Cons.hyps(1)) (use Cons.prems in simp_all)
  then obtain n s' where "process_n n ?t = s'" "queue s' = []" "conn s' = Some k"
      "map snd (written s') = map snd (written ?t) @ queue ?t" by blast
  with q show ?case by (intro exI [of _ "3 + n"]) (simp add: three)
qed

theorem drains:
  assumes "conn_reach s" and "conn s = Some k"
  shows "\<exists>n. queue (process_n n s) = [] \<and> map snd (written (process_n n s)) = sent s"
proof -
  from conn_reach_inv [OF assms(1)] have inv: "queue_inv s" .
  then have all: "map snd (written s) @ queue s = sent s" by (simp add: queue_inv_def)
  have from_start: "\<exists>n. queue (process_n n t) = [] \<and> map snd (written (process_n n t)) = sent s"
    if "conn t = Some k" "proc t = PStart" "map snd (written t) @ queue t = sent s" for t
    using drain_PStart [OF that(1,2)] that(3) by auto
  have read: "\<exists>n. queue (process_n n t) = [] \<and> map snd (written (process_n n t)) = sent s"
    if "conn t = Some k" "proc t = PRead" "queue t \<noteq> []" "map snd (written t) @ queue t = sent s" for t
  proof -
    from that(3) obtain msg rest where q: "queue t = msg # rest" by (cases "queue t") auto
    let ?t = "t\<lparr>queue := rest, written := written t @ [(k, msg)], proc := PStart\<rparr>"
    have "ProcessQueue None t = Some ?t" using that q by (simp add: ProcessQueue_def WriteConnection_def)
    moreover have "\<exists>n. queue (process_n n ?t) = [] \<and> map snd (written (process_n n ?t)) = sent s"
      by (rule from_start) (use that q in simp_all)
    then obtain n where "queue (process_n n ?t) = []" "map snd (written (process_n n ?t)) = sent s" by blast
    ultimately show ?thesis by (intro exI [of _ "Suc n"]) simp
  qed
  have step: "\<exists>n. queue (process_n n s) = [] \<and> map snd (written (process_n n s)) = sent s"
    if "ProcessQueue None s = Some t" "\<exists>n. queue (process_n n t) = [] \<and> map snd (written (process_n n t)) = sent s" for t
    using that by (auto intro: exI [of _ "Suc n" for n])
  show ?thesis
  proof (cases "proc s")
    case PStart
    with assms(2) all show ?thesis by (intro from_start)
  next
    case PQueueWait
    with inv all show ?thesis by (intro exI [of _ 0]) (simp add: queue_inv_def)
  next
    case PWoken
    with inv assms(2) all show ?thesis
      by (intro step [of "s\<lparr>proc := PRead\<rparr>"] read) (simp_all add: ProcessQueue_def queue_inv_def)
  next
    case PRead
    with inv assms(2) all show ?thesis by (intro read) (simp_all add: queue_inv_def)
  next
    case PQueue
    show ?thesis
    proof (cases "queue s")
      case Nil
      with all show ?thesis by (intro exI [of _ 0]) simp
    next
      case (Cons msg rest)
      with PQueue assms(2) all show ?thesis
        by (intro step [of "s\<lparr>proc := PRead\<rparr>"] read) (simp_all add: ProcessQueue_def)
    qed
  qed (use inv assms(2) in \<open>simp_all add: queue_inv_def\<close>)
qed

section \<open>The receiving loop\<close>

text \<open>
  A connection is the byte chunks its reads will return, each non-empty; after the last one the peer
  has closed it.  \<open>Peek\<close> is \<^verbatim>\<open>bufio.Reader.Peek(8)\<close> on a reader with its default buffer of 4096 bytes: it
  reads until 8 bytes are buffered.
\<close>

function Peek :: "bytes \<Rightarrow> bytes list \<Rightarrow> (bytes \<times> bytes list) option" where
  "Peek buffered chunks =
     (if length buffered \<ge> 8 then Some (buffered, chunks)
      else (case chunks of
              [] \<Rightarrow> None
            | ch # chs \<Rightarrow>
                (let n = 4096 - length buffered in
                 Peek (buffered @ take n ch) (if drop n ch = [] then chs else drop n ch # chs))))"
  by pat_completeness auto
termination
proof (relation "measure (\<lambda>(b, chunks). sum_list (map length chunks) + length chunks)", goal_cases)
  case (2 buffered chunks ch chs n)
  then have "0 < n" by simp
  then have "drop n ch \<noteq> [] \<Longrightarrow> length (drop n ch) < length ch" by (cases ch) auto
  with 2 show ?case by auto
qed simp

declare Peek.simps [simp del]

text \<open>
  One round of \<^verbatim>\<open>handleConn\<close>: a new reader, the header, and one \<^verbatim>\<open>Read\<close>, which copies at most what is
  buffered; the rest of the message's buffer stays zero, and what else the reader held is dropped with it.
\<close>

definition handleConn_round :: "bytes list \<Rightarrow> (bytes \<times> bytes list) option" where
  "handleConn_round chunks = do {
     (buffered, chunks) \<leftarrow> Peek [] chunks;
     msgLen \<leftarrow> MessageLength (take 8 buffered);
     Some (take msgLen buffered @ replicate (msgLen - length buffered) 0, chunks) }"

text \<open>The buffers handed to \<^verbatim>\<open>ParseMessage\<close>, for at most \<open>n\<close> rounds.\<close>

primrec handleConn :: "nat \<Rightarrow> bytes list \<Rightarrow> bytes list" where
  "handleConn 0 chunks = []"
| "handleConn (Suc n) chunks =
     (case handleConn_round chunks of None \<Rightarrow> [] | Some (buf, chunks) \<Rightarrow> buf # handleConn n chunks)"

text \<open>A whole message: its length field is its length, and it fits the reader's buffer.\<close>

definition whole_message :: "bytes \<Rightarrow> bool" where
  "whole_message m \<longleftrightarrow> 8 \<le> length m \<and> length m \<le> 4096 \<and> MessageLength m = Some (length m)"

lemma MessageLength_take: "8 \<le> length m \<Longrightarrow> MessageLength (take 8 m) = MessageLength m"
  by (simp add: MessageLength_def get_be_def drop_take)

lemma Peek_chunk:
  assumes "8 \<le> length ch" and "length ch \<le> 4096"
  shows "Peek [] (ch # chs) = Some (ch, chs)"
proof -
  have "Peek [] (ch # chs) = Peek ch chs"
    using assms(2) by (subst Peek.simps) (simp add: Let_def)
  also have "\<dots> = Some (ch, chs)" using assms(1) by (subst Peek.simps) simp
  finally show ?thesis .
qed

lemma handleConn_round_chunk:
  assumes "8 \<le> length ch" "length ch \<le> 4096" "MessageLength ch = Some n"
  shows "handleConn_round (ch # chs) = Some (take n ch @ replicate (n - length ch) 0, chs)"
  using assms by (simp add: handleConn_round_def Peek_chunk MessageLength_take)

theorem handleConn_take:
  assumes "list_all whole_message chunks"
  shows "handleConn n chunks = take n chunks"
  using assms
proof (induction n arbitrary: chunks)
  case (Suc n)
  show ?case
  proof (cases chunks)
    case Nil
    then show ?thesis by (simp add: handleConn_round_def Peek.simps)
  next
    case (Cons ch chs)
    with Suc.prems have "handleConn_round chunks = Some (ch, chs)"
      by (simp add: whole_message_def handleConn_round_chunk)
    with Cons Suc show ?thesis by simp
  qed
qed simp

text \<open>Two messages that arrive in one read: the second one is lost with the reader.\<close>

theorem handleConn_coalesced:
  assumes "whole_message m" and "length (m @ m') \<le> 4096"
  shows "handleConn (Suc n) ((m @ m') # chs) = m # handleConn n chs"
proof -
  from assms(1) have "MessageLength (m @ m') = Some (length m)"
    by (simp add: whole_message_def MessageLength_def get_be_def split: if_splits)
  with assms show ?thesis by (simp add: handleConn_round_chunk whole_message_def)
qed

end
