(* ===== verification/OFSession.thy ===== *)
theory OFSession
  imports OFConnect OFController
begin

text \<open>
  The OpenFlow session: \<^verbatim>\<open>Initialize\<close> and the receiving loop of \<^verbatim>\<open>Run\<close> in
  \<^verbatim>\<open>controllers/openflow/controller.go\<close>.  The connection manager is an interface of the controller; an
  operation returns the messages it hands to \<^verbatim>\<open>Send\<close>.  The global transaction counter of the
  library is threaded.  The periodic resynchronisation that \<^verbatim>\<open>Run\<close> starts is \<^verbatim>\<open>FullResync\<close> of \<^verbatim>\<open>OFSystem\<close>.
\<close>

record session =
  xid :: "32 word"
  of_ctrl :: controller
  outbox :: "OFMessage list"

definition session_Send :: "OFMessage \<Rightarrow> session \<Rightarrow> session" where
  "session_Send m s = s\<lparr>outbox := outbox s @ [m]\<rparr>"

definition Initialize :: "session \<Rightarrow> err option \<times> session" where
  "Initialize s =
     (let (hello, x) = NewOfpHello (xid s) in (None, session_Send (HelloMsg hello) (s\<lparr>xid := x\<rparr>)))"

text \<open>The body of the loop of \<^verbatim>\<open>Run\<close> on a received message.\<close>

definition Run_message :: "OFMessage \<Rightarrow> session \<Rightarrow> session" where
  "Run_message msg s =
     (case msg of
        HeaderMsg h \<Rightarrow>
          (if Type h = OFPT_ECHO_REQUEST then
             (let (echoReply, x) = NewOfpEchoReply (xid s)
              in session_Send (HeaderMsg echoReply) (s\<lparr>xid := x\<rparr>))
           else s)
      | HelloMsg h \<Rightarrow>
          (let (featureReq, x) = NewOfpFeaturesRequest (xid s)
           in session_Send (HeaderMsg featureReq) (s\<lparr>xid := x\<rparr>))
      | SwitchFeaturesMsg m \<Rightarrow> s\<lparr>of_ctrl := (of_ctrl s)\<lparr>datapathID := DatapathId m\<rparr>\<rparr>
      | _ \<Rightarrow> s)"

definition Run :: "OFMessage list \<Rightarrow> session \<Rightarrow> session" where
  "Run msgs s = fold Run_message msgs s"

section \<open>What the session answers\<close>

text \<open>The type of the answer to a message, and the datapath id after some messages.\<close>

definition answer :: "OFMessage \<Rightarrow> 8 word option" where
  "answer m =
     (case m of
        HeaderMsg h \<Rightarrow> if Type h = OFPT_ECHO_REQUEST then Some OFPT_ECHO_REPLY else None
      | HelloMsg h \<Rightarrow> Some OFPT_FEATURES_REQUEST
      | _ \<Rightarrow> None)"

definition message_header :: "OFMessage \<Rightarrow> OfpHeader option" where
  "message_header m =
     (case m of HeaderMsg h \<Rightarrow> Some h | HelloMsg h \<Rightarrow> Some (hello_Header h)
      | SwitchFeaturesMsg f \<Rightarrow> Some (sf_Header f) | _ \<Rightarrow> None)"

fun last_datapath :: "OFMessage list \<Rightarrow> 64 word \<Rightarrow> 64 word" where
  "last_datapath [] d = d"
| "last_datapath (SwitchFeaturesMsg m # ms) d = last_datapath ms (DatapathId m)"
| "last_datapath (_ # ms) d = last_datapath ms d"

text \<open>The headers of consecutive answers: their types, and transaction ids counted from \<open>x\<close>.\<close>

primrec answers :: "32 word \<Rightarrow> 8 word list \<Rightarrow> OFMessage list" where
  "answers x [] = []"
| "answers x (t # ts) = HeaderMsg \<lparr>Version = 4, Type = t, Length = 8, Xid = x\<rparr> # answers (x + 1) ts"

lemma Run_message_answer:
  "Run_message m s =
     (case answer m of
        None \<Rightarrow> s\<lparr>of_ctrl := (of_ctrl s)\<lparr>datapathID := last_datapath [m] (datapathID (of_ctrl s))\<rparr>\<rparr>
      | Some t \<Rightarrow> s\<lparr>outbox := outbox s @ answers (xid s) [t], xid := xid s + 1\<rparr>)"
  by (cases m)
    (auto simp: Run_message_def answer_def session_Send_def NewOfpEchoReply_def NewOfpFeaturesRequest_def
      NewOfpHeader_def nextXid_def Let_def)

lemma answers_append: "answers x (ts @ us) = answers x ts @ answers (x + word_of_nat (length ts)) us"
  by (induction ts arbitrary: x) (simp_all add: algebra_simps)

lemma last_datapath_cons: "last_datapath (m # ms) d = last_datapath ms (last_datapath [m] d)"
  by (cases m) simp_all

lemma last_datapath_answer: "answer m = Some t \<Longrightarrow> last_datapath [m] d = d"
  by (cases m) (simp_all add: answer_def)

theorem Run_answers:
  "outbox (Run msgs s) = outbox s @ answers (xid s) (List.map_filter answer msgs) \<and>
   datapathID (of_ctrl (Run msgs s)) = last_datapath msgs (datapathID (of_ctrl s))"
proof (induction msgs arbitrary: s)
  case Nil
  then show ?case by (simp add: Run_def)
next
  case (Cons m ms)
  have run: "Run (m # ms) s = Run ms (Run_message m s)" by (simp add: Run_def)
  show ?case
  proof (cases "answer m")
    case None
    with Cons [of "Run_message m s"] show ?thesis
      by (simp add: run Run_message_answer last_datapath_cons [of m ms])
  next
    case (Some t)
    with Cons [of "Run_message m s"] show ?thesis
      by (simp add: run Run_message_answer last_datapath_cons [of m ms] last_datapath_answer)
  qed
qed

end
