(* ===== verification/OFServer.thy ===== *)
theory OFServer
  imports OFSession
begin

text \<open>
  The connection and the session together: \<^verbatim>\<open>Serve\<close> accepts connections and starts a \<^verbatim>\<open>handleConn\<close> for each, which hands its
  messages over the unbuffered channel \<^verbatim>\<open>receiveCh\<close> to the loop of \<^verbatim>\<open>Run\<close>, whose answers \<^verbatim>\<open>ProcessQueue\<close> writes to the
  connection that was accepted last.  The goroutines interleave as a step relation; a panic of one ends the process.

  \<open>server_reach_inv\<close>: what is received are the parsed messages of the connections, and what is written answers it, in order.
  \<open>server_drains\<close>: from wherever it is, the server can write all its answers.
\<close>

section \<open>The server\<close>

text \<open>The reader of a connection; \<open>rd_input\<close> is a ghost, all that its reads return.\<close>

record reader =
  rd_input :: "bytes list"
  rd_chunks :: "bytes list"
  rd_pending :: "OFMessage option"
  rd_open :: bool

text \<open>\<open>received\<close> is a ghost: the messages the session has received, with their connection.\<close>

record of_server =
  link :: "(OFMessage, nat) OFConnect"
  readers :: "reader list"
  sess :: session
  received :: "(nat \<times> OFMessage) list"
  crashed :: bool

text \<open>A round of \<^verbatim>\<open>Serve\<close>: the result of \<^verbatim>\<open>AcceptTCP\<close> is an error or what the new connection will send.\<close>

definition Serve :: "err + bytes list \<Rightarrow> of_server \<Rightarrow> of_server" where
  "Serve accepted s =
     (case accepted of
        Inl e \<Rightarrow> s
      | Inr chunks \<Rightarrow>
          s\<lparr>link := SetConnection (length (readers s)) (link s),
            readers := readers s @ [\<lparr>rd_input = chunks, rd_chunks = chunks, rd_pending = None, rd_open = True\<rparr>]\<rparr>)"

text \<open>A round of \<^verbatim>\<open>handleConn\<close> on connection \<open>i\<close>, up to the send on the channel, where it blocks.\<close>

definition handleConn_step :: "codec \<Rightarrow> nat \<Rightarrow> of_server \<Rightarrow> of_server option" where
  "handleConn_step other i s =
     (if length (readers s) \<le> i then None
      else
        (let r = readers s ! i in
         if \<not> rd_open r \<or> rd_pending r \<noteq> None then None
         else
           Some (case handleConn_round (rd_chunks r) of
                   None \<Rightarrow> s\<lparr>readers := (readers s)[i := r\<lparr>rd_open := False\<rparr>]\<rparr>
                 | Some (buf, chunks) \<Rightarrow>
                     (case ParseMessage other buf (xid (sess s)) of
                        None \<Rightarrow> s\<lparr>crashed := True\<rparr>
                      | Some (msg, x) \<Rightarrow>
                          s\<lparr>readers := (readers s)[i := r\<lparr>rd_chunks := chunks, rd_pending := Some msg\<rparr>],
                            sess := (sess s)\<lparr>xid := x\<rparr>\<rparr>))))"

definition Receive :: "nat \<Rightarrow> of_server \<Rightarrow> (OFMessage \<times> of_server) option" where
  "Receive i s =
     (if length (readers s) \<le> i then None
      else
        (case rd_pending (readers s ! i) of
           None \<Rightarrow> None
         | Some msg \<Rightarrow> Some (msg, s\<lparr>readers := (readers s)[i := (readers s ! i)\<lparr>rd_pending := None\<rparr>]\<rparr>)))"

text \<open>\<^verbatim>\<open>Run\<close> receives when all it had to send is in the queue.\<close>

definition Run_receive :: "nat \<Rightarrow> of_server \<Rightarrow> of_server option" where
  "Run_receive i s =
     (if length (sent (link s)) < length (outbox (sess s)) then None
      else do { (msg, s) \<leftarrow> Receive i s;
        Some (s\<lparr>sess := Run_message msg (sess s), received := received s @ [(i, msg)]\<rparr>) })"

definition Run_send :: "of_server \<Rightarrow> of_server option" where
  "Run_send s =
     (let n = length (sent (link s)) in
      if n < length (outbox (sess s))
      then do { l \<leftarrow> Send (outbox (sess s) ! n) (link s); Some (s\<lparr>link := l\<rparr>) }
      else None)"

definition queue_step :: "err option \<Rightarrow> of_server \<Rightarrow> of_server option" where
  "queue_step wres s = do { l \<leftarrow> ProcessQueue wres (link s); Some (s\<lparr>link := l\<rparr>) }"

text \<open>The start: \<^verbatim>\<open>Initialize\<close> has sent its hello.\<close>

definition start_server :: "32 word \<Rightarrow> controller \<Rightarrow> of_server option" where
  "start_server x c = do {
     let s = snd (Initialize \<lparr>xid = x, of_ctrl = c, outbox = []\<rparr>);
     l \<leftarrow> Send (last (outbox s)) NewOFConnect;
     Some \<lparr>link = l, readers = [], sess = s, received = [], crashed = False\<rparr> }"

inductive server_step :: "codec \<Rightarrow> of_server \<Rightarrow> of_server \<Rightarrow> bool" for other where
  serve: "\<not> crashed s \<Longrightarrow> server_step other s (Serve accepted s)"
| handle: "\<not> crashed s \<Longrightarrow> handleConn_step other i s = Some s' \<Longrightarrow> server_step other s s'"
| run: "\<not> crashed s \<Longrightarrow> Run_receive i s = Some s' \<Longrightarrow> server_step other s s'"
| send: "\<not> crashed s \<Longrightarrow> Run_send s = Some s' \<Longrightarrow> server_step other s s'"
| process: "\<not> crashed s \<Longrightarrow> queue_step wres s = Some s' \<Longrightarrow> server_step other s s'"

inductive server_reach :: "codec \<Rightarrow> of_server \<Rightarrow> bool" for other where
  started: "start_server x c = Some s \<Longrightarrow> server_reach other s"
| stepped: "server_reach other s \<Longrightarrow> server_step other s s' \<Longrightarrow> server_reach other s'"

section \<open>What is received, and what is sent\<close>

definition message_type :: "OFMessage \<Rightarrow> 8 word option" where
  "message_type m = map_option Type (message_header m)"

definition parsed :: "codec \<Rightarrow> bytes \<Rightarrow> OFMessage \<Rightarrow> bool" where
  "parsed other buf m \<longleftrightarrow> (\<exists>x x'. ParseMessage other buf x = Some (m, x'))"

text \<open>What the session has received of connection \<open>i\<close>.\<close>

definition received_from :: "nat \<Rightarrow> of_server \<Rightarrow> OFMessage list" where
  "received_from i s = map snd (filter (\<lambda>(k, _). k = i) (received s))"

definition reader_inv :: "codec \<Rightarrow> OFMessage list \<Rightarrow> reader \<Rightarrow> bool" where
  "reader_inv other ms r \<longleftrightarrow>
     (\<exists>bufs. list_all2 (parsed other) bufs (ms @ (case rd_pending r of None \<Rightarrow> [] | Some m \<Rightarrow> [m])) \<and>
       (\<forall>n. handleConn (length bufs + n) (rd_input r) = bufs @ handleConn n (rd_chunks r)))"

definition session_inv :: "of_server \<Rightarrow> bool" where
  "session_inv s \<longleftrightarrow>
     map message_type (outbox (sess s)) =
       Some OFPT_HELLO # map Some (List.map_filter answer (map snd (received s))) \<and>
     (\<exists>rest. outbox (sess s) = sent (link s) @ rest)"

definition server_inv :: "codec \<Rightarrow> of_server \<Rightarrow> bool" where
  "server_inv other s \<longleftrightarrow> conn_reach (link s) \<and> session_inv s \<and>
     (\<forall>(i, m)\<in>set (received s). i < length (readers s)) \<and>
     (\<forall>i<length (readers s). reader_inv other (received_from i s) (readers s ! i))"

lemma reader_inv_new: "reader_inv other [] \<lparr>rd_input = cs, rd_chunks = cs, rd_pending = None, rd_open = True\<rparr>"
  by (simp add: reader_inv_def)

lemma reader_inv_handle:
  assumes "reader_inv other ms r" and "rd_pending r = None" and "handleConn_round (rd_chunks r) = Some (buf, cs)"
    and "ParseMessage other buf x = Some (m, x')"
  shows "reader_inv other ms (r\<lparr>rd_chunks := cs, rd_pending := Some m\<rparr>)"
proof -
  from assms(1,2) obtain bufs where b: "list_all2 (parsed other) bufs ms"
    "\<And>n. handleConn (length bufs + n) (rd_input r) = bufs @ handleConn n (rd_chunks r)"
    by (auto simp: reader_inv_def)
  have "handleConn (length (bufs @ [buf]) + n) (rd_input r) = (bufs @ [buf]) @ handleConn n cs" for n
    using b(2) [of "Suc n"] assms(3) by simp
  moreover from assms(4) have "parsed other buf m" by (auto simp: parsed_def)
  with b(1) have "list_all2 (parsed other) (bufs @ [buf]) (ms @ [m])" by (simp add: list_all2_appendI)
  ultimately show ?thesis unfolding reader_inv_def by fastforce
qed

lemma reader_inv_cong:
  assumes "reader_inv other ms r" and "rd_input r' = rd_input r" "rd_chunks r' = rd_chunks r"
    and "ms' @ (case rd_pending r' of None \<Rightarrow> [] | Some m \<Rightarrow> [m]) = ms @ (case rd_pending r of None \<Rightarrow> [] | Some m \<Rightarrow> [m])"
  shows "reader_inv other ms' r'"
  using assms by (simp add: reader_inv_def)

lemma session_inv_answer:
  assumes "session_inv s"
  shows "session_inv (s\<lparr>sess := Run_message m (sess s), received := received s @ [(i, m)], readers := rs\<rparr>)"
  using assms
  by (cases "answer m")
    (auto simp: session_inv_def Run_message_answer List.map_filter_def message_type_def message_header_def)

lemma readers_update:
  assumes "\<forall>k<length rs. P k (rs ! k)" and "P i r"
  shows "\<forall>k<length rs. P k (rs[i := r] ! k)"
  using assms by (metis nth_list_update_eq nth_list_update_neq)

lemma Serve_inv:
  assumes "server_inv other s"
  shows "server_inv other (Serve accepted s)"
proof (cases accepted)
  case (Inr cs)
  let ?n = "length (readers s)"
  have "received_from ?n s = []"
    using assms by (auto simp: server_inv_def received_from_def filter_empty_conv)
  moreover have "conn_reach (SetConnection ?n (link s))"
    using assms by (auto simp: server_inv_def intro: conn_reach.step conn_step.accept)
  moreover have "session_inv (Serve accepted s)"
    using assms Inr by (simp add: Serve_def server_inv_def session_inv_def SetConnection_def)
  ultimately show ?thesis
    using assms Inr reader_inv_new [of other cs]
    by (auto simp: server_inv_def Serve_def received_from_def nth_append less_Suc_eq)
qed (use assms in \<open>simp add: Serve_def\<close>)

lemma handleConn_step_inv:
  assumes "server_inv other s" and "handleConn_step other i s = Some s'"
  shows "server_inv other s'"
proof -
  let ?r = "readers s ! i"
  from assms(2) have i: "i < length (readers s)" "rd_pending ?r = None"
    by (auto simp: handleConn_step_def Let_def split: if_splits)
  have r: "reader_inv other (received_from i s) ?r" using assms(1) i(1) by (simp add: server_inv_def)
  have keep: "server_inv other (s\<lparr>readers := (readers s)[i := r'], sess := (sess s)\<lparr>xid := x\<rparr>\<rparr>)"
    if "reader_inv other (received_from i s) r'" for r' x
    using assms(1) readers_update [of "readers s" "\<lambda>k. reader_inv other (received_from k s)" i r'] that
    by (simp add: server_inv_def session_inv_def received_from_def)
  show ?thesis
  proof (cases "handleConn_round (rd_chunks ?r)")
    case None
    with assms(2) i have "s' = s\<lparr>readers := (readers s)[i := ?r\<lparr>rd_open := False\<rparr>]\<rparr>"
      by (simp add: handleConn_step_def Let_def split: if_splits)
    moreover have "reader_inv other (received_from i s) (?r\<lparr>rd_open := False\<rparr>)"
      using r by (rule reader_inv_cong) simp_all
    ultimately show ?thesis using keep [of _ "xid (sess s)"] by simp
  next
    case (Some p)
    obtain buf cs where p: "p = (buf, cs)" by (cases p)
    show ?thesis
    proof (cases "ParseMessage other buf (xid (sess s))")
      case None
      with assms Some i p show ?thesis
        by (auto simp: handleConn_step_def Let_def server_inv_def session_inv_def received_from_def split: if_splits)
    next
      case (Some q)
      obtain m x where q: "q = (m, x)" by (cases q)
      have "reader_inv other (received_from i s) (?r\<lparr>rd_chunks := cs, rd_pending := Some m\<rparr>)"
        using r i(2) \<open>handleConn_round (rd_chunks ?r) = Some p\<close> Some by (intro reader_inv_handle) (simp_all add: p q)
      from keep [OF this] assms(2) i Some \<open>handleConn_round (rd_chunks ?r) = Some p\<close> show ?thesis
        by (auto simp: handleConn_step_def Let_def p q split: if_splits)
    qed
  qed
qed

lemma Run_receive_inv:
  assumes "server_inv other s" and "Run_receive i s = Some s'"
  shows "server_inv other s'"
proof -
  let ?r = "readers s ! i"
  from assms(2) have "i < length (readers s) \<and> rd_pending ?r \<noteq> None"
    by (simp add: Run_receive_def Receive_def split: if_splits option.splits)
  then obtain m where i: "i < length (readers s)" "rd_pending ?r = Some m" by blast
  have "\<not> length (sent (link s)) < length (outbox (sess s))"
    using assms(2) by (simp add: Run_receive_def split: if_splits)
  with i have "Run_receive i s = Some (s\<lparr>sess := Run_message m (sess s), received := received s @ [(i, m)],
      readers := (readers s)[i := ?r\<lparr>rd_pending := None\<rparr>]\<rparr>)"
    by (simp add: Run_receive_def Receive_def)
  with assms(2) have s': "s' = s\<lparr>sess := Run_message m (sess s), received := received s @ [(i, m)],
      readers := (readers s)[i := ?r\<lparr>rd_pending := None\<rparr>]\<rparr>" by simp
  have "reader_inv other (received_from i s @ [m]) (?r\<lparr>rd_pending := None\<rparr>)"
    by (rule reader_inv_cong [of other "received_from i s" ?r]) (use assms(1) i in \<open>simp_all add: server_inv_def\<close>)
  moreover have "received_from k s' = received_from k s @ (if k = i then [m] else [])" for k
    by (simp add: received_from_def s')
  ultimately have "\<forall>k<length (readers s). reader_inv other (received_from k s') (readers s' ! k)"
    using assms(1) i(1) by (auto simp: server_inv_def s' nth_list_update)
  moreover have "session_inv s'" using assms(1) by (simp add: s' server_inv_def session_inv_answer)
  ultimately show ?thesis using assms(1) i(1) by (simp add: server_inv_def s')
qed

lemma link_inv:
  assumes "server_inv other s" and "conn_step (link s) l" and "\<exists>rest. outbox (sess s) = sent l @ rest"
  shows "server_inv other (s\<lparr>link := l\<rparr>)"
  using assms by (auto simp: server_inv_def session_inv_def received_from_def intro: conn_reach.step)

lemma Run_send_inv:
  assumes "server_inv other s" and "Run_send s = Some s'"
  shows "server_inv other s'"
proof -
  let ?n = "length (sent (link s))"
  from assms(2) obtain l where l: "?n < length (outbox (sess s))" "Send (outbox (sess s) ! ?n) (link s) = Some l"
    "s' = s\<lparr>link := l\<rparr>"
    by (auto simp: Run_send_def Let_def split: if_splits bind_splits)
  from assms(1) obtain rest where rest: "outbox (sess s) = sent (link s) @ rest"
    by (auto simp: server_inv_def session_inv_def)
  with l(1) obtain m ms where m: "rest = m # ms" by (cases rest) auto
  with l(2) rest have "sent l = sent (link s) @ [m]" by (auto simp: Send_def split: if_splits)
  with rest m have "\<exists>rest. outbox (sess s) = sent l @ rest" by simp
  with link_inv [OF assms(1) conn_step.send [OF l(2)]] l(3) show ?thesis by simp
qed

lemma queue_step_inv:
  assumes "server_inv other s" and "queue_step wres s = Some s'"
  shows "server_inv other s'"
proof -
  from assms(2) obtain l where l: "ProcessQueue wres (link s) = Some l" "s' = s\<lparr>link := l\<rparr>"
    by (auto simp: queue_step_def split: bind_splits)
  have "sent l = sent (link s)"
    using l(1) by (auto simp: ProcessQueue_def WriteConnection_def split: pc.splits list.splits option.splits)
  with link_inv [OF assms(1) conn_step.process [OF l(1)]] l(2) assms(1) show ?thesis
    by (auto simp: server_inv_def session_inv_def)
qed

lemma start_server_inv:
  assumes "start_server x c = Some s"
  shows "server_inv other s"
proof -
  let ?l = "NewOFConnect :: (OFMessage, nat) OFConnect"
  from assms obtain h l where l: "Send h ?l = Some l" "link s = l" "outbox (sess s) = [h]" "message_type h = Some OFPT_HELLO"
    "received s = []" "readers s = []"
    by (auto simp: start_server_def Initialize_def session_Send_def NewOfpHello_def NewOfpHeader_def nextXid_def Let_def
        message_type_def message_header_def split: bind_splits)
  from l(1) have "sent l = [h]" by (auto simp: Send_def NewOFConnect_def)
  moreover have "conn_reach l" using l(1) by (blast intro: conn_reach.intros conn_step.intros)
  ultimately show ?thesis using l by (simp add: server_inv_def session_inv_def List.map_filter_def)
qed

theorem server_reach_inv:
  assumes "server_reach other s"
  shows "server_inv other s"
  using assms
proof induction
  case (stepped s s')
  from stepped.hyps(2) stepped.IH show ?case
    by (cases rule: server_step.cases)
      (auto intro: Serve_inv handleConn_step_inv Run_receive_inv Run_send_inv queue_step_inv)
qed (rule start_server_inv)

section \<open>Every answer can be written\<close>

text \<open>A later state of the server that differs only in its queue and what it has written.\<close>

definition only_link :: "of_server \<Rightarrow> of_server \<Rightarrow> bool" where
  "only_link s s' \<longleftrightarrow> readers s' = readers s \<and> sess s' = sess s \<and> received s' = received s \<and> crashed s' = crashed s \<and>
     conn (link s') = conn (link s)"

lemma only_link_trans: "only_link s s' \<Longrightarrow> only_link s' s'' \<Longrightarrow> only_link s s''"
  by (simp add: only_link_def)

lemma server_steps_inv:
  assumes "(server_step other)\<^sup>*\<^sup>* s s'" and "server_reach other s"
  shows "server_reach other s'"
  using assms by induction (auto intro: stepped)

lemma process_steps:
  assumes "\<not> crashed s"
  shows "(server_step other)\<^sup>*\<^sup>* s (s\<lparr>link := process_n n (link s)\<rparr>)"
  using assms
proof (induction n arbitrary: s)
  case (Suc n)
  show ?case
  proof (cases "ProcessQueue None (link s)")
    case (Some l)
    then have "server_step other s (s\<lparr>link := l\<rparr>)"
      using Suc.prems by (intro process [of _ None]) (simp_all add: queue_step_def)
    moreover have "(server_step other)\<^sup>*\<^sup>* (s\<lparr>link := l\<rparr>) (s\<lparr>link := process_n n l\<rparr>)"
      using Suc.IH [of "s\<lparr>link := l\<rparr>"] Suc.prems by simp
    ultimately show ?thesis using Some by (simp add: converse_rtranclp_into_rtranclp)
  qed simp
qed simp

lemma process_n_conn: "conn (process_n n l) = conn l \<and> sent (process_n n l) = sent l"
proof (induction n arbitrary: l)
  case (Suc n)
  have "conn l' = conn l \<and> sent l' = sent l" if "ProcessQueue None l = Some l'" for l'
    using that by (auto simp: ProcessQueue_def WriteConnection_def split: pc.splits list.splits option.splits)
  with Suc show ?case by (simp split: option.split)
qed simp

lemma send_one:
  assumes "server_reach other s" and "\<not> crashed s" and "length (sent (link s)) < length (outbox (sess s))"
  shows "\<exists>s'. (server_step other)\<^sup>*\<^sup>* s s' \<and> only_link s s' \<and> length (sent (link s')) = Suc (length (sent (link s)))"
proof -
  have send: "\<exists>s'. server_step other t s' \<and> only_link t s' \<and> length (sent (link s')) = Suc (length (sent (link t)))"
    if t: "\<not> crashed t" "length (sent (link t)) < length (outbox (sess t))" "proc (link t) \<noteq> PRead" for t
  proof -
    obtain l where l: "Send (outbox (sess t) ! length (sent (link t))) (link t) = Some l"
      "conn l = conn (link t)" "length (sent l) = Suc (length (sent (link t)))"
      using t(3) by (simp add: Send_def)
    then have "Run_send t = Some (t\<lparr>link := l\<rparr>)" using t(2) by (simp add: Run_send_def Let_def)
    with t(1) l show ?thesis
      by (intro exI [of _ "t\<lparr>link := l\<rparr>"]) (auto simp: only_link_def intro: server_step.send)
  qed
  show ?thesis
  proof (cases "proc (link s) = PRead")
    case True
    let ?l = "process_n 1 (link s)"
    have inv: "queue_inv (link s)" using server_reach_inv [OF assms(1)] by (auto simp: server_inv_def intro: conn_reach_inv)
    then obtain m ms k where "queue (link s) = m # ms" "conn (link s) = Some k"
      using True by (cases "queue (link s)") (auto simp: queue_inv_def)
    with True have "proc ?l \<noteq> PRead" by (simp add: ProcessQueue_def WriteConnection_def)
    with assms(2,3) send [of "s\<lparr>link := ?l\<rparr>"] process_n_conn [of 1 "link s"] obtain s' where
      "server_step other (s\<lparr>link := ?l\<rparr>) s'" "only_link (s\<lparr>link := ?l\<rparr>) s'"
      "length (sent (link s')) = Suc (length (sent (link s)))" by auto
    moreover have "only_link s (s\<lparr>link := ?l\<rparr>)" using process_n_conn [of 1 "link s"] by (simp add: only_link_def)
    ultimately show ?thesis
      using process_steps [OF assms(2), of other 1] by (meson only_link_trans rtranclp.rtrancl_into_rtrancl)
  qed (use send [OF assms(2,3)] in \<open>auto intro: r_into_rtranclp\<close>)
qed

lemma send_all:
  assumes "server_reach other s" and "\<not> crashed s"
  shows "\<exists>s'. (server_step other)\<^sup>*\<^sup>* s s' \<and> only_link s s' \<and> sent (link s') = outbox (sess s)"
  using assms
proof (induction "length (outbox (sess s)) - length (sent (link s))" arbitrary: s)
  case 0
  with server_reach_inv [of other s] have "sent (link s) = outbox (sess s)"
    by (auto simp: server_inv_def session_inv_def)
  then show ?case by (intro exI [of _ s]) (simp add: only_link_def)
next
  case (Suc n)
  then have "length (sent (link s)) < length (outbox (sess s))" by simp
  from send_one [OF Suc.prems this] obtain t where t: "(server_step other)\<^sup>*\<^sup>* s t" "only_link s t"
    "length (sent (link t)) = Suc (length (sent (link s)))" by blast
  have same: "sess t = sess s" "crashed t = crashed s"
    using t(2) by (simp_all add: only_link_def)
  have "n = length (outbox (sess t)) - length (sent (link t))" using Suc.hyps(2) t(3) same by simp
  from Suc.hyps(1) [OF this server_steps_inv [OF t(1) Suc.prems(1)]] Suc.prems(2) same obtain s' where
    "(server_step other)\<^sup>*\<^sup>* t s'" "only_link t s'" "sent (link s') = outbox (sess s)" by auto
  with t show ?case by (meson only_link_trans rtranclp_trans)
qed

theorem server_drains:
  assumes "server_reach other s" and "\<not> crashed s" and "conn (link s) = Some k"
  shows "\<exists>s'. (server_step other)\<^sup>*\<^sup>* s s' \<and> only_link s s' \<and> queue (link s') = [] \<and>
    map snd (written (link s')) = outbox (sess s)"
proof -
  from send_all [OF assms(1,2)] obtain t where t: "(server_step other)\<^sup>*\<^sup>* s t" "only_link s t" "sent (link t) = outbox (sess s)"
    by blast
  have same: "\<not> crashed t" "conn (link t) = Some k"
    using t(2) assms(2,3) by (simp_all add: only_link_def)
  have "conn_reach (link t)"
    using server_reach_inv [OF server_steps_inv [OF t(1) assms(1)]] by (simp add: server_inv_def)
  from drains [OF this same(2)] obtain n where n: "queue (process_n n (link t)) = []"
    "map snd (written (process_n n (link t))) = sent (link t)" by blast
  have "only_link t (t\<lparr>link := process_n n (link t)\<rparr>)" using process_n_conn [of n "link t"] by (simp add: only_link_def)
  with t n process_steps [OF same(1), of other n] show ?thesis
    by (intro exI [of _ "t\<lparr>link := process_n n (link t)\<rparr>"]) (auto intro: rtranclp_trans only_link_trans)
qed

section \<open>Whole messages, and short ones\<close>

lemma server_received:
  assumes "server_reach other s" and "i < length (readers s)"
  shows "\<exists>n. list_all2 (parsed other) (handleConn n (rd_input (readers s ! i)))
    (received_from i s @ (case rd_pending (readers s ! i) of None \<Rightarrow> [] | Some m \<Rightarrow> [m]))"
proof -
  from server_reach_inv [OF assms(1)] assms(2) have "reader_inv other (received_from i s) (readers s ! i)"
    by (simp add: server_inv_def)
  then obtain bufs where "list_all2 (parsed other) bufs
      (received_from i s @ (case rd_pending (readers s ! i) of None \<Rightarrow> [] | Some m \<Rightarrow> [m]))"
    and "\<forall>n. handleConn (length bufs + n) (rd_input (readers s ! i)) = bufs @ handleConn n (rd_chunks (readers s ! i))"
    unfolding reader_inv_def by blast
  moreover from this(2) have "handleConn (length bufs) (rd_input (readers s ! i)) = bufs" by (metis add_0_right append_Nil2 handleConn.simps(1))
  ultimately show ?thesis by metis
qed

lemma server_sent:
  assumes "server_reach other s"
  shows "\<exists>rest. map (message_type \<circ> snd) (written (link s)) @ rest =
    Some OFPT_HELLO # map Some (List.map_filter answer (map snd (received s)))" and "proc (link s) \<noteq> PPanic"
proof -
  from server_reach_inv [OF assms] have inv: "session_inv s" "queue_inv (link s)"
    by (auto simp: server_inv_def intro: conn_reach_inv)
  from inv(1) obtain rest where "outbox (sess s) = sent (link s) @ rest" by (auto simp: session_inv_def)
  moreover from inv(2) have "sent (link s) = map snd (written (link s)) @ queue (link s)" by (simp add: queue_inv_def)
  ultimately have "map (message_type \<circ> snd) (written (link s)) @ map message_type (queue (link s) @ rest) =
      map message_type (outbox (sess s))" by simp
  with inv(1) show "\<exists>rest. map (message_type \<circ> snd) (written (link s)) @ rest =
      Some OFPT_HELLO # map Some (List.map_filter answer (map snd (received s)))"
    unfolding session_inv_def by metis
  from inv(2) show "proc (link s) \<noteq> PPanic" by (simp add: queue_inv_def)
qed

text \<open>A message of a known type whose length field says less than a header: the parser reads past the end of its buffer.\<close>

definition known_types :: "8 word set" where
  "known_types = {OFPT_HELLO, OFPT_ECHO_REQUEST, OFPT_ECHO_REPLY, OFPT_FEATURES_REPLY}"

lemma Parse_short:
  assumes "length buf < 8" and "2 \<le> length buf \<Longrightarrow> buf ! 1 \<in> known_types"
  shows "ParseMessage other buf x = None"
proof -
  have "OfpHeader_Parse buf = None" using assms(1) by (auto simp: OfpHeader_Parse_def get_be_def split: bind_splits)
  then have "OfpHello_Parse buf = None" "OfpSwitchFeatures_Parse buf = None" "OfpHeader_Parse buf = None"
    by (simp_all add: OfpHello_Parse_def OfpSwitchFeatures_Parse_def)
  with assms(2) show ?thesis
    by (cases "2 \<le> length buf") (auto simp: ParseMessage_def ofp13_Parse_def byte_at_def known_types_def OFPT_defs)
qed

lemma short_message_crashes:
  assumes "i < length (readers s)" "rd_open (readers s ! i)" "rd_pending (readers s ! i) = None"
    and "rd_chunks (readers s ! i) = ch # chs" "8 \<le> length ch" "length ch \<le> 4096"
    and "MessageLength ch = Some n" "n < 8" "ch ! 1 \<in> known_types"
  shows "handleConn_step other i s = Some (s\<lparr>crashed := True\<rparr>)"
proof -
  have "handleConn_round (ch # chs) = Some (take n ch, chs)"
    using assms(5-8) by (simp add: handleConn_round_chunk)
  moreover have "ParseMessage other (take n ch) x = None" for x
    by (rule Parse_short) (use assms(5,8,9) in auto)
  ultimately show ?thesis using assms(1-4) by (simp add: handleConn_step_def Let_def)
qed

inductive_simps server_step_simps: "server_step other s s'"

lemma crashed_stuck: "crashed s \<Longrightarrow> \<not> server_step other s s'"
  by (simp add: server_step_simps)

end
