(* ===== verification/VSwitchCfg.thy ===== *)
theory VSwitchCfg
  imports KubeApi
begin

text \<open>
  \<^verbatim>\<open>controllers/vswitchcfg/vswitchcfg.go\<close>: the controller that keeps one \<^verbatim>\<open>VSwitchConfig\<close> per node, with the
  generated lister's \<^verbatim>\<open>Get\<close>.  The API server is a parameter: an operation returns the requests it makes
  and reads their results from an \<open>api\<close>.  A handler that is given something else than a node
  goes on with a nil pointer in two of three cases, which is a panic (\<^const>\<open>None\<close>).
\<close>

section \<open>The controller and its environment\<close>

record vswitchConfig =
  vc_overlayType :: string
  vc_clusterCIDR :: string
  vc_serviceCIDR :: string

definition NewVSwitchConfigController :: "string \<Rightarrow> string \<Rightarrow> string \<Rightarrow> vswitchConfig" where
  "NewVSwitchConfigController overlayType clusterCIDR serviceCIDR =
     \<lparr>vc_overlayType = overlayType, vc_clusterCIDR = clusterCIDR, vc_serviceCIDR = serviceCIDR\<rparr>"

datatype request =
    Create VSwitchConfig
  | Update VSwitchConfig
  | Delete string

type_synonym api = "request \<Rightarrow> err option"

type_synonym vswitch_get = "string \<Rightarrow> err + VSwitchConfig"

definition IsNotFound :: "err \<Rightarrow> bool" where
  "IsNotFound e = (case e of NotFound _ \<Rightarrow> True | _ \<Rightarrow> False)"

text \<open>The generated lister over the informer's cache: the name is the key.\<close>

definition vswitchLister_Get :: "VSwitchConfig list \<Rightarrow> vswitch_get" where
  "vswitchLister_Get items name =
     (case List.find (\<lambda>v. vs_Name v = name) items of
        None \<Rightarrow> Inl (NotFound name)
      | Some v \<Rightarrow> Inr v)"

section \<open>A node's addresses\<close>

definition nodeOverlayIP :: "Node \<Rightarrow> err + string" where
  "nodeOverlayIP node =
     (let (internalIP, externalIP) = fold (\<lambda>nodeAddress (internalIP, externalIP).
            (let internalIP = (if addr_Type nodeAddress = ''InternalIP'' then Address nodeAddress else internalIP);
                 externalIP = (if addr_Type nodeAddress = ''ExternalIP'' then Address nodeAddress else externalIP)
             in (internalIP, externalIP))) (Addresses node) ('''', '''')
      in if internalIP \<noteq> [] then Inr internalIP
         else if externalIP \<noteq> [] then Inr externalIP
         else Inl (ErrorMsg ''no valid node IP found for tunnel overlay''))"

definition nodePodCIDR :: "Node \<Rightarrow> err + string" where
  "nodePodCIDR node =
     (let podCIDR = node_PodCIDR node in
      if podCIDR \<noteq> [] then Inr podCIDR else Inl (ErrorMsg ''node did not have pod CIDR set''))"

definition nodeToVSwitchConfig ::
  "Node \<Rightarrow> string \<Rightarrow> string \<Rightarrow> string \<Rightarrow> string \<Rightarrow> string \<Rightarrow> VSwitchConfig" where
  "nodeToVSwitchConfig node overlayType overlayIP podCIDR clusterCIDR serviceCIDR =
     \<lparr>vs_Name = node_Name node, vs_Labels = [],
      Spec = \<lparr>PodCIDR = podCIDR, ClusterCIDR = clusterCIDR, ServiceCIDR = serviceCIDR,
              OverlayIP = overlayIP, OverlayType = overlayType\<rparr>\<rparr>"

section \<open>Synchronisation\<close>

definition needsUpdate :: "vswitchConfig \<Rightarrow> vswitch_get \<Rightarrow> Node \<Rightarrow> err + bool" where
  "needsUpdate v get node =
     (let found = get (node_Name node) in
      case found of
        Inl e \<Rightarrow>
          if IsNotFound e then Inr True
          else Inl (Errorf ''error getting vswitch config from lister'' e)
      | Inr vswitchCfg \<Rightarrow>
          (case nodeOverlayIP node of
             Inl e \<Rightarrow> Inl (Errorf ''failed to get overlay IP for node'' e)
           | Inr overlayIP \<Rightarrow>
               (case nodePodCIDR node of
                  Inl e \<Rightarrow> Inl (Errorf ''failed to get pod CIDR for node'' e)
                | Inr podCIDR \<Rightarrow>
                    (let overlayIPChanged = OverlayIP (Spec vswitchCfg) \<noteq> overlayIP;
                         overlayTypeChanged = OverlayType (Spec vswitchCfg) \<noteq> vc_overlayType v;
                         podCIDRChanged = PodCIDR (Spec vswitchCfg) \<noteq> podCIDR;
                         clusterCIDRChanged = ClusterCIDR (Spec vswitchCfg) \<noteq> vc_clusterCIDR v
                     in Inr (overlayIPChanged \<or> overlayTypeChanged \<or> podCIDRChanged \<or> clusterCIDRChanged)))))"

definition syncVSwitchConfig ::
  "vswitchConfig \<Rightarrow> vswitch_get \<Rightarrow> api \<Rightarrow> Node \<Rightarrow> err option \<times> request list" where
  "syncVSwitchConfig v get api node =
     (case nodeOverlayIP node of
        Inl e \<Rightarrow> (Some (Errorf ''error getting overlay IP for node'' e), [])
      | Inr overlayIP \<Rightarrow>
          (case nodePodCIDR node of
             Inl e \<Rightarrow> (Some (Errorf ''failed to get pod CIDR for node'' e), [])
           | Inr podCIDR \<Rightarrow>
               (case get (node_Name node) of
                  Inl e \<Rightarrow>
                    if IsNotFound e then
                      (let vswitchCfg = nodeToVSwitchConfig node (vc_overlayType v) overlayIP podCIDR
                             (vc_clusterCIDR v) (vc_serviceCIDR v)
                       in (api (Create vswitchCfg), [Create vswitchCfg]))
                    else (Some (Errorf ''error getting vswitch config from cache'' e), [])
                | Inr vswitchCfg \<Rightarrow>
                    (let newVSwitchCfg = vswitchCfg\<lparr>Spec := (Spec vswitchCfg)\<lparr>OverlayIP := overlayIP,
                           OverlayType := vc_overlayType v, PodCIDR := podCIDR,
                           ClusterCIDR := vc_clusterCIDR v, ServiceCIDR := vc_serviceCIDR v\<rparr>\<rparr>
                     in (api (Update newVSwitchCfg), [Update newVSwitchCfg])))))"

section \<open>The handlers\<close>

text \<open>The object of an event: a node, or anything else.\<close>

datatype node_obj = NodeObj Node | NotANode

definition VS_OnAdd :: "vswitchConfig \<Rightarrow> vswitch_get \<Rightarrow> api \<Rightarrow> node_obj \<Rightarrow> request list option" where
  "VS_OnAdd v get api obj =
     (case obj of
        NotANode \<Rightarrow> Some []
      | NodeObj node \<Rightarrow>
          (case needsUpdate v get node of
             Inl e \<Rightarrow> Some []
           | Inr shouldUpdate \<Rightarrow>
               if \<not> shouldUpdate then Some [] else Some (snd (syncVSwitchConfig v get api node))))"

definition VS_OnUpdate ::
  "vswitchConfig \<Rightarrow> vswitch_get \<Rightarrow> api \<Rightarrow> node_obj \<Rightarrow> node_obj \<Rightarrow> request list option" where
  "VS_OnUpdate v get api oldObj newObj =
     (case newObj of
        NotANode \<Rightarrow> None
      | NodeObj node \<Rightarrow>
          (case needsUpdate v get node of
             Inl e \<Rightarrow> Some []
           | Inr shouldUpdate \<Rightarrow>
               if \<not> shouldUpdate then Some [] else Some (snd (syncVSwitchConfig v get api node))))"

definition VS_OnDelete :: "api \<Rightarrow> node_obj \<Rightarrow> request list option" where
  "VS_OnDelete api obj =
     (case obj of
        NotANode \<Rightarrow> None
      | NodeObj node \<Rightarrow> Some [Delete (node_Name node)])"

section \<open>What the addresses are\<close>

definition last_address :: "string \<Rightarrow> Node \<Rightarrow> string" where
  "last_address t node =
     (let xs = filter (\<lambda>a. addr_Type a = t) (Addresses node) in if xs = [] then [] else Address (last xs))"

lemma addresses_loop:
  "fold (\<lambda>a (i, x).
      (let i = (if addr_Type a = ''InternalIP'' then Address a else i);
           x = (if addr_Type a = ''ExternalIP'' then Address a else x) in (i, x))) xs (i, x) =
   (if filter (\<lambda>a. addr_Type a = ''InternalIP'') xs = [] then i
      else Address (last (filter (\<lambda>a. addr_Type a = ''InternalIP'') xs)),
    if filter (\<lambda>a. addr_Type a = ''ExternalIP'') xs = [] then x
      else Address (last (filter (\<lambda>a. addr_Type a = ''ExternalIP'') xs)))"
  by (induction xs arbitrary: i x) (auto simp: Let_def)

theorem nodeOverlayIP_eq:
  "nodeOverlayIP node =
     (if last_address ''InternalIP'' node \<noteq> [] then Inr (last_address ''InternalIP'' node)
      else if last_address ''ExternalIP'' node \<noteq> [] then Inr (last_address ''ExternalIP'' node)
      else Inl (ErrorMsg ''no valid node IP found for tunnel overlay''))"
  unfolding nodeOverlayIP_def addresses_loop last_address_def by (simp add: Let_def)

section \<open>Convergence\<close>

text \<open>The configuration a node should have.\<close>

definition up_to_date :: "vswitchConfig \<Rightarrow> Node \<Rightarrow> VSwitchConfig \<Rightarrow> bool" where
  "up_to_date v node cfg \<longleftrightarrow>
     vs_Name cfg = node_Name node \<and> nodeOverlayIP node = Inr (OverlayIP (Spec cfg)) \<and>
     nodePodCIDR node = Inr (PodCIDR (Spec cfg)) \<and> OverlayType (Spec cfg) = vc_overlayType v \<and>
     ClusterCIDR (Spec cfg) = vc_clusterCIDR v"

fun written_config :: "request \<Rightarrow> VSwitchConfig option" where
  "written_config (Create cfg) = Some cfg"
| "written_config (Update cfg) = Some cfg"
| "written_config (Delete n) = None"

text \<open>
  What the controller relies on in its lister: the object it returns is the one of that name.  The
  generated lister over the informer's cache provides it.
\<close>

locale vswitch_getter =
  fixes get :: vswitch_get
  assumes get_name: "get n = Inr cfg \<Longrightarrow> vs_Name cfg = n"
begin

lemma sync_writes:
  assumes "syncVSwitchConfig v get api node = (r, reqs)"
  shows "reqs = [] \<and> r \<noteq> None \<or>
    (\<exists>req cfg. reqs = [req] \<and> r = api req \<and> written_config req = Some cfg \<and> up_to_date v node cfg \<and>
       ServiceCIDR (Spec cfg) = vc_serviceCIDR v)"
  using assms get_name
  by (auto simp: syncVSwitchConfig_def Let_def up_to_date_def nodeToVSwitchConfig_def
      split: sum.split_asm if_splits)

lemma needsUpdate_iff:
  assumes "get (node_Name node) = Inr cfg"
    and "nodeOverlayIP node = Inr oip" and "nodePodCIDR node = Inr pc"
  shows "needsUpdate v get node = Inr (\<not> up_to_date v node cfg)"
  using assms get_name [OF assms(1)] by (auto simp: needsUpdate_def up_to_date_def Let_def)

text \<open>A node without a configuration, or with an outdated one, gets the right one written.\<close>

lemma outdated_sync:
  assumes "nodeOverlayIP node = Inr oip" and "nodePodCIDR node = Inr pc"
    and "case get (node_Name node) of Inl e \<Rightarrow> IsNotFound e | Inr cfg \<Rightarrow> \<not> up_to_date v node cfg"
  shows "\<exists>req cfg. VS_OnAdd v get api (NodeObj node) = Some [req] \<and>
    written_config req = Some cfg \<and> up_to_date v node cfg \<and> ServiceCIDR (Spec cfg) = vc_serviceCIDR v"
proof -
  obtain r reqs where sy: "syncVSwitchConfig v get api node = (r, reqs)" by fastforce
  have "needsUpdate v get node = Inr True \<and> reqs \<noteq> []"
  proof (cases "get (node_Name node)")
    case (Inl e)
    with assms sy show ?thesis by (auto simp: needsUpdate_def syncVSwitchConfig_def Let_def)
  next
    case (Inr cfg)
    with assms sy needsUpdate_iff [OF Inr assms(1,2)] show ?thesis by (auto simp: syncVSwitchConfig_def Let_def)
  qed
  with sync_writes [OF sy] sy show ?thesis by (auto simp: VS_OnAdd_def)
qed

end

interpretation vlist: vswitch_getter "vswitchLister_Get items" for items
  by unfold_locales (auto simp: vswitchLister_Get_def find_Some_iff split: option.split_asm)

lemma up_to_date_quiet:
  assumes "get (node_Name node) = Inr cfg" and "up_to_date v node cfg"
  shows "VS_OnAdd v get api (NodeObj node) = Some [] \<and> VS_OnUpdate v get api old (NodeObj node) = Some []"
  using assms by (simp add: VS_OnAdd_def VS_OnUpdate_def needsUpdate_def up_to_date_def Let_def)

theorem settled_config_quiet:
  assumes "get (node_Name node) = Inr cfg" and "up_to_date v node cfg"
  shows "VS_OnAdd (v\<lparr>vc_serviceCIDR := sc\<rparr>) get api (NodeObj node) = Some [] \<and>
    VS_OnUpdate (v\<lparr>vc_serviceCIDR := sc\<rparr>) get api old (NodeObj node) = Some []"
  using up_to_date_quiet [of get node cfg "v\<lparr>vc_serviceCIDR := sc\<rparr>"] assms by (simp add: up_to_date_def)

lemma outdated_written:
  assumes "nodeOverlayIP node = Inr oip" and "nodePodCIDR node = Inr pc"
    and "\<nexists>cfg. cfg \<in> set items \<and> up_to_date v node cfg"
  shows "\<exists>req cfg. VS_OnAdd v (vswitchLister_Get items) api (NodeObj node) = Some [req] \<and>
    written_config req = Some cfg \<and> up_to_date v node cfg \<and> ServiceCIDR (Spec cfg) = vc_serviceCIDR v"
proof (rule vlist.outdated_sync [OF assms(1,2)])
  show "case vswitchLister_Get items (node_Name node) of Inl e \<Rightarrow> IsNotFound e | Inr cfg \<Rightarrow> \<not> up_to_date v node cfg"
    using assms(3) by (auto simp: vswitchLister_Get_def IsNotFound_def find_Some_iff split: option.split)
qed

end
