(* ===== verification/Examples.thy ===== *)
theory Examples
  imports OFSystem OFServer VSwitchCfg
begin

text \<open>
  A concrete cluster, on which the properties are instantiated: two nodes, a web and a database pod on
  the first one, and a policy that lets only the web pod reach the database's port.  The text of
  addresses is read as \<^verbatim>\<open>ovs-ofctl\<close> documents it for \<^verbatim>\<open>nw_src\<close> and \<^verbatim>\<open>nw_dst\<close>: a dotted address or a CIDR.
\<close>

section \<open>IPv4 texts\<close>

definition v4 :: "8 word \<Rightarrow> 8 word \<Rightarrow> 8 word \<Rightarrow> 8 word \<Rightarrow> ip" where
  "v4 a b c d = v4InV6Prefix @ [a, b, c, d]"

definition nw4 :: "string \<Rightarrow> ip \<Rightarrow> bool" where
  "nw4 s a = (case ParseCIDR s of Inr (_, n) \<Rightarrow> IPNet_Contains n a | Inl _ \<Rightarrow> ParseIP s = a)"

lemma nw4_cidr:
  "n \<le> 32 \<Longrightarrow> nw4 (cidr_text a b c d n) (v4 w x y z) \<longleftrightarrow>
     be_val [a, b, c, d] div 2 ^ (32 - n) = be_val [w, x, y, z] div 2 ^ (32 - n)"
  by (simp add: nw4_def v4_def ParseCIDR_v4 Contains_v4)

lemma nw4_addr: "nw4 (dotted a b c d) (v4 w x y z) \<longleftrightarrow> [a, b, c, d] = [w, x, y, z]"
proof -
  have "\<exists>e. ParseCIDR (dotted a b c d) = Inl e"
    by (simp add: ParseCIDR_def cut_byte_None [OF dotted_no_slash])
  then show ?thesis by (auto simp: nw4_def v4_def)
qed

section \<open>The cluster\<close>

definition web_pod :: Pod where
  "web_pod = \<lparr>pod_Name = ''web'', pod_Namespace = ''default'', pod_Labels = [(''app'', ''web'')],
     PodIP = dotted 10 0 1 5\<rparr>"

definition db_pod :: Pod where
  "db_pod = \<lparr>pod_Name = ''db'', pod_Namespace = ''default'', pod_Labels = [(''app'', ''db'')],
     PodIP = dotted 10 0 1 6\<rparr>"

definition vs1 :: VSwitchConfig where
  "vs1 = \<lparr>vs_Name = ''n1'', vs_Labels = [], Spec = \<lparr>PodCIDR = cidr_text 10 0 1 0 24,
     ClusterCIDR = cidr_text 10 0 0 0 16, ServiceCIDR = cidr_text 10 96 0 0 16,
     OverlayIP = dotted 192 168 0 1, OverlayType = ''vxlan''\<rparr>\<rparr>"

definition vs2 :: VSwitchConfig where
  "vs2 = vs1\<lparr>vs_Name := ''n2'', Spec := (Spec vs1)\<lparr>PodCIDR := cidr_text 10 0 2 0 24,
     OverlayIP := dotted 192 168 0 2\<rparr>\<rparr>"

definition tcp_5432 :: NetworkPolicyPort where
  "tcp_5432 = \<lparr>Protocol = Some ''TCP'', Port = Some \<lparr>ios_Type = IntType, IntVal = 5432, StrVal = ''''\<rparr>\<rparr>"

definition db_policy :: NetworkPolicy where
  "db_policy = \<lparr>np_Name = ''db'', np_Namespace = ''default'', np_Labels = [],
     np_Spec = \<lparr>np_PodSelector = \<lparr>MatchLabels = [(''app'', ''db'')], MatchExpressions = []\<rparr>,
       Ingress = [\<lparr>ing_Ports = [tcp_5432],
         From = [\<lparr>PodSelector = Some \<lparr>MatchLabels = [(''app'', ''web'')], MatchExpressions = []\<rparr>,
           NamespaceSelector = None, peer_IPBlock = None\<rparr>]\<rparr>],
       Egress = [], PolicyTypes = [''Ingress'']\<rparr>\<rparr>"

definition cluster1 :: store where
  "cluster1 = \<lparr>st_pods = [web_pod, db_pod], st_namespaces = [\<lparr>ns_Name = ''default'', ns_Labels = []\<rparr>],
     st_netpols = [db_policy], st_vswitches = [vs1, vs2]\<rparr>"

definition port5 :: portInfo where
  "port5 = \<lparr>port_name = ''vethA'', ofport = 5, mac = ''0a:58:0a:00:01:05''\<rparr>"

definition node1 :: controller where
  "node1 = \<lparr>datapathID = 0, nodeName = ''n1'', bridgeName = ''k-vswitch0'', gatewayIP = dotted 10 0 1 1,
     bridgeMAC = ''0a:58:0a:00:01:01'', clusterWideMAC = ''0a:58:0a:00:01:02'', podCIDR = cidr_text 10 0 1 0 24,
     clusterCIDR = cidr_text 10 0 0 0 16, clusterWideOFPort = 2, overlayOFPort = 3,
     flows = NewFlowsBuffer, portCache = [''default/web'' \<mapsto> port5], trace = []\<rparr>"

text \<open>An \<^verbatim>\<open>os\<close> whose \<^verbatim>\<open>ovs-vsctl\<close> knows no port and whose \<^verbatim>\<open>ovs-ofctl\<close> succeeds.\<close>

definition quiet_os :: os where
  "quiet_os = \<lparr>StdinPipe = None, Output = (\<lambda>cmd. Inl (ExecError (program cmd))), CombinedOutput = (\<lambda>cmd. Inr '''')\<rparr>"

lemmas cluster_defs =
  web_pod_def db_pod_def vs1_def vs2_def tcp_5432_def db_policy_def cluster1_def port5_def node1_def

lemma quiet_rows_ok: "rows_ok quiet_os"
  by (simp add: rows_ok_def quiet_os_def)

lemma cluster1_policies_ok: "policies_ok (cache_listers cluster1) node1"
proof -
  have "\<not> panics d (cache_listers cluster1) db_policy" for d
    by (cases d) (simp_all add: panics_def policy_rules_def db_policy_def nil_port_def tcp_5432_def)
  then show ?thesis
    by (simp add: policies_ok_def cache_listers_def ListAll_eq cluster1_def)
qed

lemma cluster1_syncs: "\<exists>c'. syncFlows quiet_os (cache_listers cluster1) node1 = Some (None, c')"
  by (rule syncFlows_succeeds [OF cache_lists_ok quiet_rows_ok cluster1_policies_ok]) (simp_all add: quiet_os_def)

lemma cluster1_lists:
  "netPolLister_List (cache_listers cluster1) Everything = Inr [db_policy]"
  "podLister_List (cache_listers cluster1) Everything = Inr [web_pod, db_pod]"
  "vswitchLister_List (cache_listers cluster1) Everything = Inr [vs1, vs2]"
  by (simp_all add: cache_listers_def ListAll_eq cluster1_def)

section \<open>The policy on this cluster\<close>

lemma app_selector:
  assumes "v = ''web'' \<or> v = ''db''"
  shows "Selector_Matches (AsSelector [(''app'', v)]) ls \<longleftrightarrow> map_of ls ''app'' = Some v"
proof -
  have "valid_labels [(''app'', ''web'')]" "valid_labels [(''app'', ''db'')]" by code_simp+
  with assms have "valid_labels [(''app'', v)]" by auto
  from SelectorFromSet_Matches [OF this] show ?thesis by (simp add: AsSelector_def)
qed

lemma local_node1:
  "isLocalIP node1 (dotted 10 0 1 5) = Inr True" "isLocalIP node1 (dotted 10 0 1 6) = Inr True"
  using isLocalIP_v4 [of node1 10 0 1 0 24] by (simp_all add: node1_def be_val_Cons)

lemma db_selected: "selected_ips (cache_listers cluster1) node1 db_policy = [dotted 10 0 1 6]"
  using local_node1 dotted_nonempty [of 10 0 1 6]
  by (simp add: selected_ips_def cache_listers_def ListAllByNamespace_eq local_ips_def app_selector
      db_policy_def cluster1_def web_pod_def db_pod_def)

lemma web_peers:
  "namespace_ips (cache_listers cluster1) \<lparr>MatchLabels = [(''app'', ''web'')], MatchExpressions = []\<rparr> ''default'' =
     [dotted 10 0 1 5]"
  using dotted_nonempty [of 10 0 1 5]
  by (simp add: namespace_ips_def peer_labelSelector_def cache_listers_def ListAllByNamespace_eq app_selector
      getPodIPs_eq cluster1_def web_pod_def db_pod_def)

lemma db_admits_ingress:
  "policy_admits nw IngressDir (cache_listers cluster1) db_policy a l \<longleftrightarrow>
     nw (dotted 10 0 1 5) a \<and> (\<exists>sp. l = TCP sp 5432)"
proof -
  have tcp: "ToLower ''TCP'' = ''tcp''" by code_simp
  have "port_admits tcp_5432 l \<longleftrightarrow> (\<exists>sp. l = TCP sp 5432)"
    by (cases l) (auto simp: port_admits_def tcp_5432_def IntValue_def tcp port_match_def)
  then show ?thesis
    by (simp add: policy_admits_def policy_rules_def rule_admits_def peer_admits_def ports_admit_def peer_ips_def
        peer_namespaces_def db_policy_def web_peers
        conj_commute)
qed

lemma db_admits_egress: "\<not> policy_admits nw EgressDir (cache_listers cluster1) db_policy a l"
  by (simp add: policy_admits_def policy_rules_def db_policy_def)

lemma db_excepts: "\<not> policy_excepts nw d db_policy a"
  by (cases d) (simp_all add: policy_excepts_def policy_rules_def db_policy_def peer_excepts_def)

lemma db_denied:
  "denied nw (cache_listers cluster1) node1 [db_policy] s t l \<longleftrightarrow>
     (nw (dotted 10 0 1 6) t \<or> nw (dotted 10 0 1 6) s) \<and>
     \<not> (nw (dotted 10 0 1 6) t \<and> nw (dotted 10 0 1 5) s \<and> (\<exists>sp. l = TCP sp 5432))"
proof -
  have dir: "(\<exists>d. P d) \<longleftrightarrow> P IngressDir \<or> P EgressDir" for P by (metis direction.exhaust)
  show ?thesis
    unfolding denied_def dir
    by (simp add: np_covers_def np_admits_def np_excepts_def db_selected covers_def local_of_def remote_of_def
        db_admits_ingress db_admits_egress db_excepts)
qed

lemma web_policies_ok: "policies_ok (cache_listers (cluster1\<lparr>st_pods := [web_pod]\<rparr>)) node1"
proof -
  have "\<not> panics d L db_policy" for d L
    by (cases d) (simp_all add: panics_def policy_rules_def db_policy_def nil_port_def tcp_5432_def)
  then show ?thesis
    by (simp add: policies_ok_def cache_listers_def ListAll_eq cluster1_def)
qed

text \<open>An \<^verbatim>\<open>os\<close> where every port is \<^verbatim>\<open>veth0\<close>, with number 7 and no MAC address.\<close>

definition one_port_os :: os where
  "one_port_os = \<lparr>StdinPipe = None,
     Output = (\<lambda>cmd. Inr (if hd (args cmd) = ''get'' then ''[]'' else ''{\"data\":[[\"veth0\"]]}'')),
     CombinedOutput = (\<lambda>cmd. Inr ''7'')\<rparr>"

lemma one_port_texts:
  "Unmarshal_Data ''{\"data\":[[\"veth0\"]]}'' = Inr [[''veth0'']]" "Atoi (TrimSpace ''7'') = (7, None)"
  "TrimSuffix (TrimPrefix (TrimSpace ''[]'') [CHR 0x22]) [CHR 0x22] = ''[]''"
proof -
  show "Unmarshal_Data ''{\"data\":[[\"veth0\"]]}'' = Inr [[''veth0'']]" by code_simp
  have "TrimSpace ''7'' = ''7''" by code_simp
  then show "Atoi (TrimSpace ''7'') = (7, None)"
    by (simp add: Atoi_def atoi_signed_def parse_uint_def is_digit_def digit_val_def)
  show "TrimSuffix (TrimPrefix (TrimSpace ''[]'') [CHR 0x22]) [CHR 0x22] = ''[]''" by code_simp
qed

lemma one_port_ofport: "ofPortFromName one_port_os p = (Inr 7, [vsctl [''get'', ''Interface'', p, ''ofport'']])"
  by (simp add: ofPortFromName_def one_port_os_def one_port_texts Let_def)

lemma one_port_mac: "macAddrFromPort one_port_os p = (Inr ''[]'', [vsctl [''get'', ''port'', p, ''mac'']])"
  by (simp add: macAddrFromPort_def one_port_os_def vsctl_def one_port_texts Let_def)

lemma one_port_found:
  "\<exists>p' t. GetPortInfo one_port_os pod NewPortCache = Some (Inr \<lparr>port_name = ''veth0'', ofport = 7, mac = ''[]''\<rparr>, p', t)"
proof -
  have "\<exists>t. findPort one_port_os (pod_Namespace pod) (pod_Name pod) = Some (Inr ''veth0'', t)"
    by (simp add: findPort_def one_port_os_def vsctl_def one_port_texts Let_def)
  then obtain t where "findPort one_port_os (pod_Namespace pod) (pod_Name pod) = Some (Inr ''veth0'', t)" by blast
  then show ?thesis
    by (simp add: GetPortInfo_def NewPortCache_def one_port_mac one_port_ofport Let_def)
qed

section \<open>A session\<close>

definition hello_bytes :: bytes where "hello_bytes = [4, 0, 0, 8, 0, 0, 0, 1]"
definition echo_bytes :: bytes where "echo_bytes = [4, 2, 0, 8, 0, 0, 0, 2]"

definition no_codec :: codec where "no_codec t packet x = Some (NilMsg, x)"

definition session1 :: "of_server option" where
  "session1 = do {
     s \<leftarrow> start_server 1 node1;
     s \<leftarrow> handleConn_step no_codec 0 (Serve (Inr [hello_bytes, echo_bytes]) s);
     s \<leftarrow> Run_receive 0 s;
     s \<leftarrow> Run_send s;
     s \<leftarrow> handleConn_step no_codec 0 s;
     Run_receive 0 s }"

lemma whole_bytes: "whole_message hello_bytes" "whole_message echo_bytes"
  by (simp_all add: hello_bytes_def echo_bytes_def whole_message_def MessageLength_def get_be_def be_val_Cons)

lemma round_bytes: "whole_message m \<Longrightarrow> handleConn_round (m # ms) = Some (m, ms)"
  by (simp add: whole_message_def handleConn_round_chunk)

lemma parse_bytes:
  "ParseMessage no_codec hello_bytes x =
     Some (HelloMsg \<lparr>hello_Header = \<lparr>Version = 4, Type = 0, Length = 8, Xid = 1\<rparr>, Elements = []\<rparr>, x)"
  "ParseMessage no_codec echo_bytes x = Some (HeaderMsg \<lparr>Version = 4, Type = 2, Length = 8, Xid = 2\<rparr>, x + 1)"
  by (simp_all add: hello_bytes_def echo_bytes_def ParseMessage_def ofp13_Parse_def byte_at_def OFPT_defs OfpHello_Parse_def
      OfpHeader_Parse_def get_be_def be_val_Cons hello_elements.simps nextXid_def)

lemma crashed_keeps:
  "crashed s \<Longrightarrow> crashed (Serve a s)" "handleConn_step other i s = Some s' \<Longrightarrow> crashed s \<Longrightarrow> crashed s'"
  "Run_receive i s = Some s' \<Longrightarrow> crashed s \<Longrightarrow> crashed s'" "Run_send s = Some s' \<Longrightarrow> crashed s \<Longrightarrow> crashed s'"
  by (auto simp: Serve_def handleConn_step_def Run_receive_def Receive_def Run_send_def Let_def
      split: sum.splits if_splits option.splits bind_splits)

lemma session1_reach:
  assumes "session1 = Some s" and "\<not> crashed s"
  shows "server_reach no_codec s"
proof -
  from assms(1) obtain s0 s1 s2 s3 s4 where s: "start_server 1 node1 = Some s0"
    "handleConn_step no_codec 0 (Serve (Inr [hello_bytes, echo_bytes]) s0) = Some s1" "Run_receive 0 s1 = Some s2"
    "Run_send s2 = Some s3" "handleConn_step no_codec 0 s3 = Some s4" "Run_receive 0 s4 = Some s"
    unfolding session1_def by (auto split: bind_splits)
  note ok = assms(2)
  have 4: "\<not> crashed s4" using ok crashed_keeps(3) [OF s(6)] by blast
  have 3: "\<not> crashed s3" using 4 crashed_keeps(2) [OF s(5)] by blast
  have 2: "\<not> crashed s2" using 3 crashed_keeps(4) [OF s(4)] by blast
  have 1: "\<not> crashed s1" using 2 crashed_keeps(3) [OF s(3)] by blast
  have 0: "\<not> crashed (Serve (Inr [hello_bytes, echo_bytes]) s0)" using 1 crashed_keeps(2) [OF s(2)] by blast
  have "\<not> crashed s0" using 0 crashed_keeps(1) by blast
  then have "server_reach no_codec (Serve (Inr [hello_bytes, echo_bytes]) s0)"
    by (rule stepped [OF started [OF s(1)] serve])
  note stepped [OF this handle [OF 0 s(2)]]
  note stepped [OF this run [OF 1 s(3)]]
  note stepped [OF this send [OF 2 s(4)]]
  note stepped [OF this handle [OF 3 s(5)]]
  from stepped [OF this run [OF 4 s(6)]] show ?thesis .
qed

lemma session1:
  "\<exists>s. session1 = Some s \<and> \<not> crashed s \<and> conn (link s) = Some 0 \<and>
    List.map_filter answer (map snd (received s)) = [OFPT_FEATURES_REQUEST, OFPT_ECHO_REPLY] \<and>
    length (readers s) = 1 \<and> rd_input (readers s ! 0) = [hello_bytes, echo_bytes] \<and> received_from 0 s = map snd (received s) \<and>
    rd_pending (readers s ! 0) = None \<and> length (received s) = 2"
  unfolding session1_def
  by (simp add: start_server_def Initialize_def session_Send_def NewOfpHello_def NewOfpHeader_def nextXid_def Let_def
      Send_def NewOFConnect_def Serve_def SetConnection_def handleConn_step_def round_bytes whole_bytes parse_bytes
      Run_receive_def Receive_def Run_message_def Run_send_def NewOfpFeaturesRequest_def NewOfpEchoReply_def OFPT_defs
      List.map_filter_def answer_def received_from_def)


end
