(* ===== verification/GoIO.thy ===== *)
theory GoIO
  imports Prelude "HOL-Library.State_Monad" "HOL-Library.Sublist"
begin

text \<open>
  Programs that act on their host: the daemon's set-up and the CNI plugin.  Such a program is a computation
  of the state monad over the history of the calls it has made (\<^verbatim>\<open>'c list\<close>, oldest first); what a call answers
  may depend on everything that was called before, so no behaviour of the host is excluded.

  \<^item> \<open>call\<close> makes one call; \<open>ok\<close> and \<open>fail\<close> are \<^verbatim>\<open>return x, nil\<close> and \<^verbatim>\<open>return err\<close>.
  \<^item> \<open>check w m k\<close> is \<^verbatim>\<open>x, err := m; if err != nil { return w(err) }\<close> followed by \<open>k x\<close>.
  \<^item> \<open>each\<close> is a \<^verbatim>\<open>range\<close> loop whose body may return an error, \<open>deferred\<close> a \<^verbatim>\<open>defer\<close>, and \<open>on_failure\<close> a \<^verbatim>\<open>defer\<close>
    that acts only if the function fails.

  Two predicates describe what a program does to its host whatever the answers: \<open>performs P\<close> bounds the calls it
  makes, \<open>follows f ds\<close> says that its calls, seen through \<open>f\<close>, are \<open>ds\<close> when it succeeds and a prefix of \<open>ds\<close>
  when it fails.
\<close>

type_synonym ('c, 'a) io = "('c list, err + 'a) state"

section \<open>Programs\<close>

definition call :: "('c list \<Rightarrow> 'a) \<Rightarrow> 'c \<Rightarrow> ('c list, 'a) state" where
  "call answer c = State (\<lambda>h. (answer h, h @ [c]))"

definition ok :: "'a \<Rightarrow> ('c, 'a) io" where
  "ok x = State_Monad.return (Inr x)"

definition fail :: "err \<Rightarrow> ('c, 'a) io" where
  "fail e = State_Monad.return (Inl e)"

definition check :: "(err \<Rightarrow> err) \<Rightarrow> ('c, 'a) io \<Rightarrow> ('a \<Rightarrow> ('c, 'b) io) \<Rightarrow> ('c, 'b) io" where
  "check w m k = do { r \<leftarrow> m; case r of Inl e \<Rightarrow> fail (w e) | Inr x \<Rightarrow> k x }"

primrec each :: "('a \<Rightarrow> ('c, unit) io) \<Rightarrow> 'a list \<Rightarrow> ('c, unit) io" where
  "each body [] = ok ()"
| "each body (x # xs) = check id (body x) (\<lambda>_. each body xs)"

definition deferred :: "('c, 'a) io \<Rightarrow> ('c list, unit) state \<Rightarrow> ('c, 'a) io" where
  "deferred m d = do { r \<leftarrow> m; _ \<leftarrow> d; State_Monad.return r }"

definition on_failure :: "('c, 'a) io \<Rightarrow> ('c list, unit) state \<Rightarrow> ('c, 'a) io" where
  "on_failure m d =
     do { r \<leftarrow> m; case r of Inl e \<Rightarrow> do { _ \<leftarrow> d; fail e } | Inr x \<Rightarrow> ok x }"

section \<open>Running them\<close>

lemma run_call [simp]: "run_state (call answer c) h = (answer h, h @ [c])"
  by (simp add: call_def)

lemma run_ok [simp]: "run_state (ok x) h = (Inr x, h)"
  by (simp add: ok_def)

lemma run_fail [simp]: "run_state (fail e) h = (Inl e, h)"
  by (simp add: fail_def)

lemma run_check:
  "run_state (check w m k) h =
     (case run_state m h of (Inl e, h') \<Rightarrow> (Inl (w e), h') | (Inr x, h') \<Rightarrow> run_state (k x) h')"
proof (cases "run_state m h")
  case (Pair r h1)
  then show ?thesis by (cases r) (simp_all add: check_def)
qed

lemma run_check_simps [simp]:
  "run_state m h = (Inl e, h') \<Longrightarrow> run_state (check w m k) h = (Inl (w e), h')"
  "run_state m h = (Inr x, h') \<Longrightarrow> run_state (check w m k) h = run_state (k x) h'"
  by (simp_all add: run_check)

lemma run_check_cases:
  assumes "run_state (check w m k) h = (r, h')"
  obtains e where "run_state m h = (Inl e, h')" "r = Inl (w e)"
  | x h1 where "run_state m h = (Inr x, h1)" "run_state (k x) h1 = (r, h')"
proof (cases "run_state m h")
  case (Pair a h1)
  with assms that show ?thesis by (cases a) auto
qed

lemma run_check_Inr:
  assumes "run_state (check w m k) h = (Inr y, h')"
  obtains x h1 where "run_state m h = (Inr x, h1)" "run_state (k x) h1 = (Inr y, h')"
  using assms by (rule run_check_cases) auto

lemma run_deferred:
  "run_state (deferred m d) h = (let (r, h1) = run_state m h in (r, snd (run_state d h1)))"
  by (simp add: deferred_def split: prod.split)

lemma run_on_failure:
  "run_state (on_failure m d) h =
     (case run_state m h of (Inl e, h1) \<Rightarrow> (Inl e, snd (run_state d h1)) | (Inr x, h1) \<Rightarrow> (Inr x, h1))"
proof (cases "run_state m h")
  case (Pair r h1)
  then show ?thesis by (cases r) (simp_all add: on_failure_def split: prod.split)
qed

section \<open>The calls a program can make\<close>

named_theorems effects "the calls an operation can make"

definition performs :: "('c \<Rightarrow> bool) \<Rightarrow> ('c list, 'a) state \<Rightarrow> bool" where
  "performs P m \<longleftrightarrow> (\<forall>h. \<exists>t. snd (run_state m h) = h @ t \<and> list_all P t)"

lemma performsE:
  assumes "performs P m" and "run_state m h = (r, h')"
  obtains t where "h' = h @ t" "list_all P t"
  using assms unfolding performs_def by (metis snd_conv)

lemma performs_return [effects]: "performs P (State_Monad.return x)" "performs P (ok x)" "performs P (fail e)"
  by (simp_all add: performs_def ok_def fail_def)

lemma performs_call [effects]: "P c \<Longrightarrow> performs P (call answer c)"
  by (simp add: performs_def)

lemma performs_bind:
  assumes "performs P m" and "\<And>x. performs P (k x)"
  shows "performs P (State_Monad.bind m k)"
  unfolding performs_def
proof
  fix h
  obtain x h1 where m: "run_state m h = (x, h1)" by fastforce
  obtain r h2 where k: "run_state (k x) h1 = (r, h2)" by fastforce
  from assms(1) m obtain t where t: "h1 = h @ t" "list_all P t" by (rule performsE)
  from assms(2) k obtain u where "h2 = h1 @ u" "list_all P u" by (rule performsE)
  with m k t show "\<exists>t. snd (run_state (State_Monad.bind m k) h) = h @ t \<and> list_all P t" by simp
qed

lemma performs_check [effects]:
  assumes "performs P m" and "\<And>x. performs P (k x)"
  shows "performs P (check w m k)"
  unfolding check_def using assms by (auto intro!: performs_bind effects split: sum.split)

lemma performs_each [effects]: "(\<And>x. x \<in> set xs \<Longrightarrow> performs P (body x)) \<Longrightarrow> performs P (each body xs)"
  by (induction xs) (simp_all add: effects)

lemma performs_deferred [effects]: "performs P m \<Longrightarrow> performs P d \<Longrightarrow> performs P (deferred m d)"
  unfolding deferred_def by (intro performs_bind effects)

lemma performs_on_failure [effects]: "performs P m \<Longrightarrow> performs P d \<Longrightarrow> performs P (on_failure m d)"
  unfolding on_failure_def by (auto intro!: performs_bind effects split: sum.split)

lemma performs_mono: "performs P m \<Longrightarrow> (\<And>c. P c \<Longrightarrow> Q c) \<Longrightarrow> performs Q m"
  unfolding performs_def by (metis list.pred_mono_strong)

section \<open>The plan a program follows\<close>

definition follows :: "('c \<Rightarrow> 'd option) \<Rightarrow> 'd list \<Rightarrow> ('c, 'a) io \<Rightarrow> bool" where
  "follows f ds m \<longleftrightarrow>
     (\<forall>h. \<exists>t. snd (run_state m h) = h @ t \<and>
       (case fst (run_state m h) of
          Inl e \<Rightarrow> prefix (List.map_filter f t) ds
        | Inr x \<Rightarrow> List.map_filter f t = ds))"

lemma map_filter_append: "List.map_filter f (xs @ ys) = List.map_filter f xs @ List.map_filter f ys"
  by (simp add: List.map_filter_def)

lemma followsE:
  assumes "follows f ds m" and "run_state m h = (r, h')"
  obtains t where "h' = h @ t" "prefix (List.map_filter f t) ds" "isl r \<or> List.map_filter f t = ds"
proof -
  from assms obtain t where t: "h' = h @ t" and
    c: "case r of Inl e \<Rightarrow> prefix (List.map_filter f t) ds | Inr x \<Rightarrow> List.map_filter f t = ds"
    unfolding follows_def by (metis fst_conv snd_conv)
  show thesis
  proof (rule that [OF t])
    show "prefix (List.map_filter f t) ds" using c by (cases r) simp_all
    show "isl r \<or> List.map_filter f t = ds" using c by (cases r) simp_all
  qed
qed

lemma follows_ok: "follows f [] (ok x)"
  by (simp add: follows_def List.map_filter_def)

lemma follows_fail: "follows f ds (fail e)"
  by (simp add: follows_def List.map_filter_def)

lemma follows_call: "f c = Some d \<Longrightarrow> follows f [d] (call answer c)"
  by (auto simp: follows_def List.map_filter_def split: sum.split)

lemma follows_read: "f c = None \<Longrightarrow> follows f [] (call answer c)"
  by (auto simp: follows_def List.map_filter_def split: sum.split)

lemma follows_check:
  assumes m: "follows f ds m" and k: "\<And>h x h'. run_state m h = (Inr x, h') \<Longrightarrow> follows f es (k x)"
  shows "follows f (ds @ es) (check w m k)"
  unfolding follows_def
proof
  fix h
  obtain r h1 where run: "run_state m h = (r, h1)" by fastforce
  from m run obtain t where t: "h1 = h @ t" "prefix (List.map_filter f t) ds"
    "isl r \<or> List.map_filter f t = ds" by (rule followsE)
  show "\<exists>t. snd (run_state (check w m k) h) = h @ t \<and>
      (case fst (run_state (check w m k) h) of
         Inl e \<Rightarrow> prefix (List.map_filter f t) (ds @ es) | Inr x \<Rightarrow> List.map_filter f t = ds @ es)"
  proof (cases r)
    case (Inl e)
    with run t show ?thesis by (intro exI [of _ t]) (simp add: prefix_prefix)
  next
    case (Inr x)
    obtain r2 h2 where run2: "run_state (k x) h1 = (r2, h2)" by fastforce
    from k [OF run [unfolded Inr]] run2 obtain u where u: "h2 = h1 @ u" "prefix (List.map_filter f u) es"
      "isl r2 \<or> List.map_filter f u = es" by (rule followsE)
    from run Inr run2 have "run_state (check w m k) h = (r2, h2)" by simp
    with t(1,3) [unfolded Inr] u show ?thesis
      by (intro exI [of _ "t @ u"]) (auto simp: map_filter_append split: sum.split)
  qed
qed

lemma follows_reads: "performs (\<lambda>c. f c = None) m \<Longrightarrow> follows f [] m"
proof -
  assume p: "performs (\<lambda>c. f c = None) m"
  have "List.map_filter f t = []" if "list_all (\<lambda>c. f c = None) t" for t
    using that by (induction t) (simp_all add: List.map_filter_def)
  with p show ?thesis unfolding follows_def performs_def by (metis (mono_tags, lifting) prefix_order.refl sum.case_eq_if)
qed

lemma follows_deferred:
  assumes "follows f ds m" and "performs (\<lambda>c. f c = None) d"
  shows "follows f ds (deferred m d)"
  unfolding follows_def
proof
  fix h
  obtain r h1 where m: "run_state m h = (r, h1)" by fastforce
  from assms(1) m obtain t where t: "h1 = h @ t" "prefix (List.map_filter f t) ds" "isl r \<or> List.map_filter f t = ds"
    by (rule followsE)
  from assms(2) obtain u where u: "snd (run_state d h1) = h1 @ u" "list_all (\<lambda>c. f c = None) u"
    unfolding performs_def by blast
  from u(2) have "List.map_filter f u = []" by (induction u) (simp_all add: List.map_filter_def)
  with m t u(1) show "\<exists>t. snd (run_state (deferred m d) h) = h @ t \<and>
      (case fst (run_state (deferred m d) h) of Inl e \<Rightarrow> prefix (List.map_filter f t) ds | Inr x \<Rightarrow> List.map_filter f t = ds)"
    by (intro exI [of _ "t @ u"]) (auto simp: run_deferred map_filter_append split: sum.split)
qed

lemma each_map: "each f (map g xs) = each (\<lambda>x. f (g x)) xs"
  by (induction xs) simp_all

end
