(* ===== verification/Host.thy ===== *)
theory Host
  imports GoIO GoExec GoNet KubeApi
begin

text \<open>
  What the daemon's set-up and the CNI plugin call outside the repository: \<^verbatim>\<open>netlink\<close>, \<^verbatim>\<open>ovs-vsctl\<close> and
  \<^verbatim>\<open>iptables\<close>, files, network namespaces, the IPAM plugin and the API server.  A call is a value of
  \<open>call\<close>; what it answers is a field of the record \<open>host\<close> (extended by each program with the
  answers only it needs), a parameter of every program.  \<^verbatim>\<open>os.Getenv\<close> changes nothing and is not recorded.

  \<open>links_ok\<close> is what \<^verbatim>\<open>netlink.LinkByName\<close> documents: the link it answers has the name that was asked for, and
  \<open>ix\<close> as its index.
\<close>

section \<open>CNI and netlink types\<close>

record Link =
  link_Name :: string
  link_Index :: int
  link_HardwareAddr :: "8 word list"

record netRoute =
  route_LinkIndex :: int
  route_Dst :: IPNet

record Interface =
  if_Name :: string
  if_Mac :: string
  if_Sandbox :: string

record IPConfig =
  ipc_Version :: string
  ipc_Interface :: "int option"
  ipc_Address :: IPNet
  ipc_Gateway :: ip

record Route =
  rt_Dst :: IPNet
  rt_GW :: ip

record DNS =
  Nameservers :: "string list"
  Domain :: string
  Search :: "string list"
  Options :: "string list"

record Result =
  res_CNIVersion :: string
  Interfaces :: "Interface list"
  IPs :: "IPConfig list"
  Routes :: "Route list"
  res_DNS :: DNS

section \<open>Calls\<close>

text \<open>An operation on the nat table.\<close>

datatype nat_op =
    ListChains
  | NewChain string
  | AppendRule string "string list"  \<comment> \<open>\<^verbatim>\<open>AppendUnique\<close>\<close>
  | DeleteRule string "string list"
  | ClearChain string
  | DeleteChain string

datatype call =
    Exec command
  | ReadFile string
  | WriteFile string string
  | LinkByName string
  | LinkSetUp Link
  | LinkSetHardwareAddr Link "8 word list"
  | AddrList Link int
  | AddrAdd Link IPNet
  | AddrDel Link IPNet
  | AddrReplace Link IPNet
  | RouteReplace netRoute
  | InterfaceByName string
  | NewIPTables
  | AppendUnique string string "string list"
  | InClusterConfig
  | NewClientset string
  | GetNode string
  | GetVSwitchConfig string
  | Sleep nat
  | ListenTCP
  | Await "string list"              \<comment> \<open>\<^verbatim>\<open>WaitForCacheSync\<close>, and the informers it waits for\<close>
  | RunInformers "string list"       \<comment> \<open>\<^verbatim>\<open>Start\<close>, and the informers it starts\<close>
  | Go string                        \<comment> \<open>a goroutine\<close>
  | GetNS string
  | EnterNS string
  | LeaveNS string
  | CloseNS string
  | ReadEntropy
  | LinkAdd string string int
  | LinkDel string
  | LinkSetNs Link                   \<comment> \<open>into the namespace of the host\<close>
  | EnterHostNS
  | LeaveHostNS
  | IpamAdd string string
  | IpamDel string string
  | SettleAddresses string nat
  | RouteAdd IPNet ip Link
  | GratuitousArp ip string
  | IptNew bool                      \<comment> \<open>\<^verbatim>\<open>NewWithProtocol\<close>, true for IPv6\<close>
  | Ipt bool nat_op
  | PrintResult Result string

type_synonym history = "call list"

record host =
  h_act :: "history \<Rightarrow> call \<Rightarrow> err + unit"
  h_text :: "history \<Rightarrow> call \<Rightarrow> err + string"
  h_env :: "history \<Rightarrow> string \<Rightarrow> string"
  h_link :: "history \<Rightarrow> string \<Rightarrow> err + Link"
  h_iface :: "history \<Rightarrow> string \<Rightarrow> err + Interface"

definition act :: "'a host_scheme \<Rightarrow> call \<Rightarrow> (call, unit) io" where
  "act env c = call (\<lambda>h. h_act env h c) c"

definition run_command :: "'a host_scheme \<Rightarrow> command \<Rightarrow> (call, string) io" where
  "run_command env cmd = call (\<lambda>h. h_text env h (Exec cmd)) (Exec cmd)"

definition read_file :: "'a host_scheme \<Rightarrow> string \<Rightarrow> (call, string) io" where
  "read_file env f = call (\<lambda>h. h_text env h (ReadFile f)) (ReadFile f)"

definition link_by_name :: "'a host_scheme \<Rightarrow> string \<Rightarrow> (call, Link) io" where
  "link_by_name env name = call (\<lambda>h. h_link env h name) (LinkByName name)"

definition interface_by_name :: "'a host_scheme \<Rightarrow> string \<Rightarrow> (call, Interface) io" where
  "interface_by_name env name = call (\<lambda>h. h_iface env h name) (InterfaceByName name)"

definition Getenv :: "'a host_scheme \<Rightarrow> string \<Rightarrow> (call list, string) state" where
  "Getenv env name = State (\<lambda>h. (h_env env h name, h))"

text \<open>\<^verbatim>\<open>HardwareAddr.String\<close>\<close>

definition HardwareAddr_String :: "8 word list \<Rightarrow> string" where
  "HardwareAddr_String hw = Join (map (\<lambda>b. hexString [b]) hw) '':''"

lemmas host_ops = act_def run_command_def read_file_def link_by_name_def interface_by_name_def

lemma run_Getenv [simp]: "run_state (Getenv env name) h = (h_env env h name, h)"
  by (simp add: Getenv_def)

lemma performs_Getenv [effects]: "performs P (Getenv env name)"
  by (simp add: performs_def)

lemma performs_act [effects]: "P c \<Longrightarrow> performs P (act env c)"
  by (simp add: act_def effects)

lemma performs_run_command [effects]: "P (Exec c) \<Longrightarrow> performs P (run_command env c)"
  by (simp add: run_command_def effects)

lemma performs_read_file [effects]: "P (ReadFile f) \<Longrightarrow> performs P (read_file env f)"
  by (simp add: read_file_def effects)

lemma performs_link_by_name [effects]: "P (LinkByName n) \<Longrightarrow> performs P (link_by_name env n)"
  by (simp add: link_by_name_def effects)

lemma performs_interface_by_name [effects]: "P (InterfaceByName n) \<Longrightarrow> performs P (interface_by_name env n)"
  by (simp add: interface_by_name_def effects)

section \<open>What a link is\<close>

definition links_ok :: "'a host_scheme \<Rightarrow> (string \<Rightarrow> int) \<Rightarrow> bool" where
  "links_ok env ix \<longleftrightarrow> (\<forall>h n l. h_link env h n = Inr l \<longrightarrow> link_Name l = n \<and> link_Index l = ix n)"

lemma link_by_name_ok:
  assumes "links_ok env ix" and "run_state (link_by_name env n) h = (Inr l, h')"
  shows "link_Name l = n" "link_Index l = ix n"
  using assms by (auto simp: links_ok_def link_by_name_def)

end
