(* ===== verification/GoPath.thy ===== *)
theory GoPath
  imports KubeApi
begin

text \<open>
  Go's \<^verbatim>\<open>path.Clean\<close> and \<^verbatim>\<open>path.Join\<close>, and \<^verbatim>\<open>time.Duration.String\<close>.  \<open>Join_rooted\<close>: joining segments that are
  no dots and have no slashes appends them.
\<close>

section \<open>Paths\<close>

definition clean_step :: "bool \<Rightarrow> string \<Rightarrow> string list \<Rightarrow> string list" where
  "clean_step rooted seg out =
     (if seg = '''' \<or> seg = ''.'' then out
      else if seg = ''..'' then
        (if out \<noteq> [] \<and> hd out \<noteq> ''..'' then tl out else if rooted then out else ''..'' # out)
      else seg # out)"

definition Clean :: "string \<Rightarrow> string" where
  "Clean path =
     (if path = '''' then ''.''
      else
        (let rooted = hd path = CHR ''/'';
             out = Join (rev (fold (clean_step rooted) (Split path CHR ''/'') [])) ''/''
         in if rooted then CHR ''/'' # out else if out = '''' then ''.'' else out))"

definition path_Join :: "string list \<Rightarrow> string" where
  "path_Join elem =
     (let rest = dropWhile (\<lambda>e. e = '''') elem in if rest = [] then '''' else Clean (Join rest ''/''))"

definition segment :: "string \<Rightarrow> bool" where
  "segment s \<longleftrightarrow> s \<noteq> '''' \<and> s \<noteq> ''.'' \<and> s \<noteq> ''..'' \<and> CHR ''/'' \<notin> set s"

definition rooted_path :: "string list \<Rightarrow> string" where
  "rooted_path xs = CHR ''/'' # Join xs ''/''"

lemma clean_segments: "list_all segment xs \<Longrightarrow> fold (clean_step r) xs out = rev xs @ out"
  by (induction xs arbitrary: out) (simp_all add: clean_step_def segment_def)

lemma clean_empty: "fold (clean_step r) (filter (\<lambda>x. x \<noteq> '''') xs) = fold (clean_step r) xs"
proof
  show "fold (clean_step r) (filter (\<lambda>x. x \<noteq> '''') xs) out = fold (clean_step r) xs out" for out
    by (induction xs arbitrary: out) (simp_all add: clean_step_def)
qed

text \<open>The segments of a path.\<close>

definition segs :: "string \<Rightarrow> string list" where
  "segs p = filter (\<lambda>x. x \<noteq> '''') (Split p CHR ''/'')"

lemma segs_simps:
  "segs '''' = []" "segment x \<Longrightarrow> segs x = [x]"
  by (auto simp: segs_def segment_def Split_no_sep)

lemma segs_rooted: "list_all segment xs \<Longrightarrow> segs (rooted_path xs) = xs"
proof (cases "xs = []")
  case False
  moreover assume "list_all segment xs"
  moreover from this have "filter (\<lambda>x. x \<noteq> '''') xs = xs"
    by (induction xs) (auto simp: segment_def)
  ultimately show ?thesis using Split_Join [of xs "CHR ''/''"]
    by (auto simp: segs_def rooted_path_def segment_def list_all_iff)
qed (simp add: segs_def rooted_path_def)

lemma Join_segs:
  assumes "list_all segment (concat (map segs ((CHR ''/'' # e) # es)))"
  shows "path_Join ((CHR ''/'' # e) # es) = rooted_path (concat (map segs ((CHR ''/'' # e) # es)))"
proof -
  let ?p = "CHR ''/'' # e"
  have "Split (Join (?p # es) ''/'') CHR ''/'' = concat (map (\<lambda>x. Split x CHR ''/'') (?p # es))"
    by (rule Split_Join_concat) simp
  then have "fold (clean_step True) (Split (Join (?p # es) ''/'') CHR ''/'') [] =
      fold (clean_step True) (filter (\<lambda>x. x \<noteq> '''') (concat (map (\<lambda>x. Split x CHR ''/'') (?p # es)))) []"
    by (simp only: clean_empty)
  also have "filter (\<lambda>x. x \<noteq> '''') (concat (map (\<lambda>x. Split x CHR ''/'') (?p # es))) = concat (map segs (?p # es))"
    unfolding filter_concat map_map comp_def segs_def [abs_def] ..
  also have "fold (clean_step True) (concat (map segs (?p # es))) [] = rev (concat (map segs (?p # es)))"
    using clean_segments [OF assms] by simp
  finally have c: "fold (clean_step True) (Split (Join (?p # es) ''/'') CHR ''/'') [] = rev (concat (map segs (?p # es)))" .
  obtain s where s: "Join (?p # es) ''/'' = CHR ''/'' # s" by (cases es) auto
  from c show ?thesis
    by (simp add: path_Join_def Clean_def Let_def rooted_path_def s del: concat.simps list.map)
qed

text \<open>Joining segments appends them, and joining absolute paths puts one below the other.\<close>

lemma Join_rooted:
  assumes "list_all segment xs" and "list_all (\<lambda>x. x = '''' \<or> segment x) es"
  shows "path_Join (rooted_path xs # es) = rooted_path (xs @ filter (\<lambda>x. x \<noteq> '''') es)"
proof -
  have "concat (map segs es) = filter (\<lambda>x. x \<noteq> '''') es"
    using assms(2) by (induction es) (auto simp: segs_simps segment_def)
  moreover have "list_all segment (filter (\<lambda>x. x \<noteq> '''') es)"
    using assms(2) by (auto simp: list_all_iff)
  ultimately show ?thesis
    using Join_segs [of "Join xs ''/''" es] segs_rooted [OF assms(1)] assms(1)
    by (simp add: rooted_path_def)
qed

lemma Join_paths:
  assumes "list_all segment xs" and "list_all segment ys"
  shows "path_Join [rooted_path xs, rooted_path ys] = rooted_path (xs @ ys)"
  using Join_segs [of "Join xs ''/''" "[rooted_path ys]"] segs_rooted [OF assms(1)] segs_rooted [OF assms(2)] assms
  by (simp add: rooted_path_def)

section \<open>Durations\<close>

text \<open>The fraction \<^verbatim>\<open>v/10^prec\<close> without its trailing zeros.\<close>

definition fmtFrac :: "nat \<Rightarrow> nat \<Rightarrow> string \<times> nat" where
  "fmtFrac v prec =
     (let digits = map (\<lambda>i. digit_char (v div 10 ^ i mod 10)) [0..<prec];
          kept = dropWhile (\<lambda>c. c = CHR ''0'') digits
      in ((if kept = [] then '''' else CHR ''.'' # rev kept), v div 10 ^ prec))"

definition Duration_String :: "int \<Rightarrow> string" where
  "Duration_String d =
     (let u = nat \<bar>d\<bar>;
          s = (if u = 0 then ''0s''
               else if u < 1000000000 then
                 (let (unit, prec) = (if u < 1000 then (''ns'', 0) else if u < 1000000 then ([CHR 0xC2, CHR 0xB5, CHR ''s''], 3)
                                      else (''ms'', 6));
                      (frac, v) = fmtFrac u prec
                  in utoa v @ frac @ unit)
               else
                 (let (frac, secs) = fmtFrac u 9;
                      mins = secs div 60;
                      hours = mins div 60
                  in (if mins = 0 then '''' else (if hours = 0 then '''' else utoa hours @ ''h'') @ utoa (mins mod 60) @ ''m'') @
                     utoa (secs mod 60) @ frac @ ''s''))
      in if d < 0 then CHR ''-'' # s else s)"

end
