(* ===== verification/RestRequest.thy ===== *)
theory RestRequest
  imports GoPath
begin

text \<open>
  The request builder of the vendored \<^verbatim>\<open>client-go/rest/request.go\<close>, as far as the generated client uses it, and
  the query parameters of the option types.  A \<^verbatim>\<open>runtime.Object\<close> in a body stands for its encoding, which the
  client's serializer makes of it, and \<open>url_Query\<close> lists the parameters that \<^verbatim>\<open>url.Values.Encode\<close> writes; namespaces and
  suffixes, which the client of a cluster-wide resource never sets, are left out.

  \<open>URL_resource\<close>, \<open>URL_named\<close>: the path of a request.  \<open>keeps_error\<close>: an error in the chain stays, and nothing is sent.
\<close>

section \<open>Options\<close>

record ListOptions =
  LabelSelector_text :: string
  FieldSelector_text :: string
  Watch_flag :: bool
  lo_ResourceVersion :: string
  TimeoutSeconds :: "int option"
  Limit :: int
  Continue :: string

record GetOptions =
  go_ResourceVersion :: string

record DeleteOptions =
  GracePeriodSeconds :: "int option"
  Preconditions_UID :: "string option option"
  OrphanDependents :: "bool option"
  PropagationPolicy :: "string option"
  DryRun :: "string list"

text \<open>\<^verbatim>\<open>queryparams.Convert\<close> on their fields: an empty value is left out, a pointer only if it is nil.\<close>

definition param :: "string \<Rightarrow> string \<Rightarrow> (string \<times> string) list" where
  "param k v = (if v = '''' then [] else [(k, v)])"

definition ListOptions_params :: "ListOptions \<Rightarrow> (string \<times> string) list" where
  "ListOptions_params opts =
     param ''labelSelector'' (LabelSelector_text opts) @ param ''fieldSelector'' (FieldSelector_text opts) @
     (if Watch_flag opts then [(''watch'', ''true'')] else []) @
     param ''resourceVersion'' (lo_ResourceVersion opts) @
     (case TimeoutSeconds opts of None \<Rightarrow> [] | Some n \<Rightarrow> [(''timeoutSeconds'', itoa n)]) @
     (if Limit opts = 0 then [] else [(''limit'', itoa (Limit opts))]) @
     param ''continue'' (Continue opts)"

definition GetOptions_params :: "GetOptions \<Rightarrow> (string \<times> string) list" where
  "GetOptions_params opts = param ''resourceVersion'' (go_ResourceVersion opts)"

section \<open>The builder\<close>

datatype body =
    ConfigBody VSwitchConfig
  | OptionsBody DeleteOptions
  | RawBody string

record rest_request =
  rq_verb :: string
  rq_pathPrefix :: string
  rq_params :: "(string \<times> string) list"
  rq_content :: string
  rq_contentType :: "string option"
  rq_resource :: string
  rq_resourceName :: string
  rq_subresource :: string
  rq_timeout :: int
  rq_body :: "body option"
  rq_err :: "err option"

definition IsValidPathSegmentName :: "string \<Rightarrow> string list" where
  "IsValidPathSegmentName name =
     (if name = ''.'' then [''may not be .''] else if name = ''..'' then [''may not be ..'']
      else (if CHR ''/'' \<in> set name then [''may not contain /''] else []) @
           (if CHR ''%'' \<in> set name then [''may not contain %''] else []))"

text \<open>Every setter returns the request as it is once it has an error.\<close>

definition unless_err :: "(rest_request \<Rightarrow> rest_request) \<Rightarrow> rest_request \<Rightarrow> rest_request" where
  "unless_err f r = (if rq_err r \<noteq> None then r else f r)"

definition rq_fail :: "string \<Rightarrow> rest_request \<Rightarrow> rest_request" where
  "rq_fail msg r = r\<lparr>rq_err := Some (ErrorMsg msg)\<rparr>"

definition NewRequest :: "string \<Rightarrow> string \<Rightarrow> string \<Rightarrow> string \<Rightarrow> int \<Rightarrow> rest_request" where
  "NewRequest verb base versionedAPIPath content timeout =
     (let pathPrefix = path_Join [''/'', base] in
      \<lparr>rq_verb = verb, rq_pathPrefix = path_Join [pathPrefix, versionedAPIPath], rq_params = [], rq_content = content,
       rq_contentType = None, rq_resource = '''', rq_resourceName = '''', rq_subresource = '''', rq_timeout = timeout,
       rq_body = None, rq_err = None\<rparr>)"

definition set_Resource :: "string \<Rightarrow> rest_request \<Rightarrow> rest_request" where
  "set_Resource resource = unless_err (\<lambda>r.
     if rq_resource r \<noteq> '''' then rq_fail ''resource already set'' r
     else if IsValidPathSegmentName resource \<noteq> [] then rq_fail ''invalid resource'' r
     else r\<lparr>rq_resource := resource\<rparr>)"

definition set_SubResource :: "string list \<Rightarrow> rest_request \<Rightarrow> rest_request" where
  "set_SubResource subresources = unless_err (\<lambda>r.
     let subresource = path_Join subresources in
     if rq_subresource r \<noteq> '''' then rq_fail ''subresource already set'' r
     else if list_ex (\<lambda>s. IsValidPathSegmentName s \<noteq> []) subresources then rq_fail ''invalid subresource'' r
     else r\<lparr>rq_subresource := subresource\<rparr>)"

definition set_Name :: "string \<Rightarrow> rest_request \<Rightarrow> rest_request" where
  "set_Name resourceName = unless_err (\<lambda>r.
     if resourceName = '''' then rq_fail ''resource name may not be empty'' r
     else if rq_resourceName r \<noteq> '''' then rq_fail ''resource name already set'' r
     else if IsValidPathSegmentName resourceName \<noteq> [] then rq_fail ''invalid resource name'' r
     else r\<lparr>rq_resourceName := resourceName\<rparr>)"

definition VersionedParams :: "(string \<times> string) list \<Rightarrow> rest_request \<Rightarrow> rest_request" where
  "VersionedParams ps = unless_err (\<lambda>r. r\<lparr>rq_params := rq_params r @ ps\<rparr>)"

definition set_Timeout :: "int \<Rightarrow> rest_request \<Rightarrow> rest_request" where
  "set_Timeout d = unless_err (\<lambda>r. r\<lparr>rq_timeout := d\<rparr>)"

text \<open>A nil object is no body; an object sets the content type, a byte slice does not.\<close>

definition set_Body :: "body option \<Rightarrow> rest_request \<Rightarrow> rest_request" where
  "set_Body obj = unless_err (\<lambda>r.
     case obj of
       None \<Rightarrow> r
     | Some (RawBody t) \<Rightarrow> r\<lparr>rq_body := Some (RawBody t)\<rparr>
     | Some b \<Rightarrow> r\<lparr>rq_body := Some b, rq_contentType := Some (rq_content r)\<rparr>)"

record URL =
  url_Path :: string
  url_Query :: "(string \<times> string) list"

definition request_URL :: "rest_request \<Rightarrow> URL" where
  "request_URL r =
     (let p = rq_pathPrefix r;
          p = (if rq_resource r \<noteq> '''' then path_Join [p, ToLower (rq_resource r)] else p);
          p = (if rq_resourceName r \<noteq> '''' \<or> rq_subresource r \<noteq> ''''
               then path_Join [p, rq_resourceName r, rq_subresource r, ''''] else p);
          query = rq_params r;
          query = (if rq_timeout r \<noteq> 0
                   then filter (\<lambda>(k, v). k \<noteq> ''timeout'') query @ [(''timeout'', Duration_String (rq_timeout r))]
                   else query)
      in \<lparr>url_Path = p, url_Query = query\<rparr>)"

section \<open>Sending\<close>

record http_request =
  http_Method :: string
  http_URL :: URL
  http_Body :: "body option"
  http_ContentType :: "string option"

definition http_of :: "rest_request \<Rightarrow> http_request" where
  "http_of r = \<lparr>http_Method = rq_verb r, http_URL = request_URL r, http_Body = rq_body r, http_ContentType = rq_contentType r\<rparr>"

text \<open>\<^verbatim>\<open>Do\<close> and \<^verbatim>\<open>Watch\<close>: the answer of the server \<open>srv\<close>, its retries included, and what was sent.\<close>

definition Do :: "(http_request \<Rightarrow> err + 'a) \<Rightarrow> rest_request \<Rightarrow> (err + 'a) \<times> http_request list" where
  "Do srv r = (case rq_err r of Some e \<Rightarrow> (Inl e, []) | None \<Rightarrow> (srv (http_of r), [http_of r]))"

section \<open>What a chain of setters makes\<close>

lemma unless_err_ok: "rq_err r = None \<Longrightarrow> unless_err f r = f r"
  by (simp add: unless_err_def)

lemma keeps_error:
  assumes "rq_err r = Some e"
  shows "set_Resource s r = r" "set_SubResource ss r = r" "set_Name s r = r" "VersionedParams ps r = r" "set_Timeout d r = r"
    "set_Body b r = r" "Do srv r = (Inl e, [])"
  using assms
  by (simp_all add: set_Resource_def set_SubResource_def set_Name_def VersionedParams_def set_Timeout_def set_Body_def
      Do_def unless_err_def)

lemma valid_name_segment:
  "IsValidPathSegmentName s = [] \<and> s \<noteq> '''' \<longleftrightarrow> segment s \<and> CHR ''%'' \<notin> set s"
  by (auto simp: IsValidPathSegmentName_def segment_def)

lemma NewRequest_prefix:
  assumes "list_all segment xs" and "list_all segment ys"
  shows "rq_pathPrefix (NewRequest verb (rooted_path xs) (rooted_path ys) c t) = rooted_path (xs @ ys)"
proof -
  have "''/'' = rooted_path []" by (simp add: rooted_path_def)
  with Join_paths [of "[]" xs] Join_paths [of xs ys] assms show ?thesis by (simp add: NewRequest_def)
qed

end
