(* ===== verification/InformerFactory.thy ===== *)
theory InformerFactory
  imports RestRequest
begin

text \<open>
  \<^verbatim>\<open>apis/generated/informers/externalversions/factory.go\<close>: which informers exist, which were started, and which a
  wait looks at.  A type (\<^verbatim>\<open>reflect.Type\<close>) is its name and an informer what \<^verbatim>\<open>newFunc\<close> makes of the
  resync period.  The Go maps are association lists, in the order of insertion; no operation depends on it.
  The vendored factory of \<^verbatim>\<open>client-go\<close> is the same code.
\<close>

record 'i factory =
  namespace :: string
  tweakListOptions :: "(ListOptions \<Rightarrow> ListOptions) option"
  defaultResync :: int
  customResync :: "(string \<times> int) list"
  informers :: "(string \<times> 'i) list"
  startedInformers :: "string list"

definition WithCustomResyncConfig :: "(string \<times> int) list \<Rightarrow> 'i factory \<Rightarrow> 'i factory" where
  "WithCustomResyncConfig resyncConfig f = f\<lparr>customResync := resyncConfig @ customResync f\<rparr>"

definition WithTweakListOptions :: "(ListOptions \<Rightarrow> ListOptions) option \<Rightarrow> 'i factory \<Rightarrow> 'i factory" where
  "WithTweakListOptions tweak f = f\<lparr>tweakListOptions := tweak\<rparr>"

definition WithNamespace :: "string \<Rightarrow> 'i factory \<Rightarrow> 'i factory" where
  "WithNamespace ns f = f\<lparr>namespace := ns\<rparr>"

definition NewSharedInformerFactoryWithOptions ::
  "int \<Rightarrow> ('i factory \<Rightarrow> 'i factory) list \<Rightarrow> 'i factory" where
  "NewSharedInformerFactoryWithOptions resync options =
     fold (\<lambda>opt f. opt f) options
       \<lparr>namespace = '''', tweakListOptions = None, defaultResync = resync, customResync = [], informers = [], startedInformers = []\<rparr>"

definition NewSharedInformerFactory :: "int \<Rightarrow> 'i factory" where
  "NewSharedInformerFactory resync = NewSharedInformerFactoryWithOptions resync []"

definition NewFilteredSharedInformerFactory ::
  "int \<Rightarrow> string \<Rightarrow> (ListOptions \<Rightarrow> ListOptions) option \<Rightarrow> 'i factory" where
  "NewFilteredSharedInformerFactory resync ns tweak =
     NewSharedInformerFactoryWithOptions resync [WithNamespace ns, WithTweakListOptions tweak]"

definition InformerFor :: "string \<Rightarrow> (int \<Rightarrow> 'i) \<Rightarrow> 'i factory \<Rightarrow> 'i \<times> 'i factory" where
  "InformerFor informerType newFunc f =
     (case map_of (informers f) informerType of
        Some informer \<Rightarrow> (informer, f)
      | None \<Rightarrow>
          (let resyncPeriod = (case map_of (customResync f) informerType of None \<Rightarrow> defaultResync f | Some p \<Rightarrow> p);
               informer = newFunc resyncPeriod
           in (informer, f\<lparr>informers := informers f @ [(informerType, informer)]\<rparr>)))"

text \<open>The informers that \<^verbatim>\<open>Start\<close> runs, each on a goroutine of its own, and the factory after it.\<close>

definition Start :: "'i factory \<Rightarrow> string list \<times> 'i factory" where
  "Start f =
     (let run = filter (\<lambda>t. t \<notin> set (startedInformers f)) (map fst (informers f))
      in (run, f\<lparr>startedInformers := startedInformers f @ run\<rparr>))"

text \<open>The informers whose \<^verbatim>\<open>HasSynced\<close> a wait polls, and its result; \<open>sync\<close> is what \<^verbatim>\<open>cache.WaitForCacheSync\<close> returns.\<close>

definition awaited :: "'i factory \<Rightarrow> string list" where
  "awaited f = filter (\<lambda>t. t \<in> set (startedInformers f)) (map fst (informers f))"

definition WaitForCacheSync :: "(string \<Rightarrow> bool) \<Rightarrow> 'i factory \<Rightarrow> (string \<times> bool) list" where
  "WaitForCacheSync sync f = map (\<lambda>t. (t, sync t)) (awaited f)"

section \<open>Properties\<close>

lemma InformerFor_known:
  assumes "InformerFor t new f = (i, f')"
  shows "InformerFor t new' f' = (i, f')"
  using assms by (auto simp: InformerFor_def Let_def map_add_def split: option.splits)

lemma awaited_new: "startedInformers f = [] \<Longrightarrow> awaited f = []"
  by (simp add: awaited_def)

lemma InformerFor_started [simp]: "startedInformers (snd (InformerFor t new f)) = startedInformers f"
  by (simp add: InformerFor_def Let_def split: option.split)

lemma New_started [simp]: "startedInformers (NewSharedInformerFactory r) = []"
  by (simp add: NewSharedInformerFactory_def NewSharedInformerFactoryWithOptions_def)

text \<open>\<^verbatim>\<open>Start\<close> runs every informer once: a second \<^verbatim>\<open>Start\<close> runs none, and a wait after it looks at all of them.\<close>

lemma Start_twice: "fst (Start (snd (Start f))) = []"
  by (auto simp: Start_def Let_def filter_empty_conv)

lemma awaited_Start: "awaited (snd (Start f)) = map fst (informers f)"
proof -
  have "filter (\<lambda>t. t \<in> set (startedInformers f) \<or> t \<in> set (filter (\<lambda>t. t \<notin> set (startedInformers f)) xs)) xs = xs" for xs
    by (rule filter_True) auto
  then show ?thesis by (simp add: awaited_def Start_def Let_def)
qed

end
