(* ===== verification/Daemon.thy ===== *)
theory Daemon
  imports Host InformerFactory OFSession VSwitchCfg
begin

text \<open>
  \<^verbatim>\<open>cmd/k-vswitchd/main.go\<close>: a node's daemon, from its start to the goroutines of the controller.  Where the code
  logs and calls \<^verbatim>\<open>os.Exit(1)\<close> the program returns the error.  The API, the clock and the switch are answers of
  the host: \<open>d_cost\<close> is the time the last call of a history took, a \<^verbatim>\<open>time.Sleep\<close> not counted, so that \<open>now\<close> is a
  monotonic clock on which a sleep lasts at least as long as it was asked for.

  \<open>startup_follows\<close>: what the daemon does to its node, in order.  \<open>wait_loop_bounds\<close>: how long it waits for its
  configuration.  \<open>masquerades\<close>: which packets the installed \<^verbatim>\<open>iptables\<close> rules rewrite.
\<close>

section \<open>The environment\<close>

record daemon_host = host +
  d_node :: "history \<Rightarrow> string \<Rightarrow> err + Node"
  d_vswitch :: "history \<Rightarrow> string \<Rightarrow> err + VSwitchConfig"
  d_os :: "history \<Rightarrow> os"
  d_cost :: "history \<Rightarrow> nat"

text \<open>Time is counted in nanoseconds, as in \<^verbatim>\<open>time.Duration\<close>.\<close>

definition second :: nat where
  "second = 1000000000"

definition slept :: "call \<Rightarrow> nat" where
  "slept c = (case c of Sleep d \<Rightarrow> d | _ \<Rightarrow> 0)"

definition now :: "'a daemon_host_scheme \<Rightarrow> history \<Rightarrow> nat" where
  "now env h = sum_list (map (\<lambda>p. if p = [] then 0 else d_cost env p + slept (last p)) (prefixes h))"

lemma now_snoc: "now env (h @ [c]) = now env h + d_cost env (h @ [c]) + slept c"
  by (simp add: now_def prefixes_snoc)

definition cniConfigPath :: string where
  "cniConfigPath = ''/etc/cni/net.d/10-k-vswitch.json''"

definition daemon_bridgeName :: string where
  "daemon_bridgeName = ''k-vswitch0''"

definition daemon_clusterWidePort :: string where
  "daemon_clusterWidePort = ''cluster-wide''"

definition daemon_overlayPort :: string where
  "daemon_overlayPort = ''overlay0''"

definition defaultControllerTarget :: string where
  "defaultControllerTarget = ''tcp:127.0.0.1:6653''"

section \<open>The CNI configuration\<close>

definition conf_line :: "nat \<Rightarrow> string \<Rightarrow> string" where
  "conf_line k s = CHR 0x0A # replicate k (CHR 0x09) @ s"

definition cni_conf_head :: string where
  "cni_conf_head =
     ''{'' @ conf_line 1 ''\"name\": \"k-vswitch-cni\",'' @ conf_line 1 ''\"type\": \"k-vswitch-cni\",'' @
     conf_line 1 ''\"bridge\": \"k-vswitch0\",'' @ conf_line 1 ''\"isGateway\": true,'' @
     conf_line 1 ''\"isDefaultGateway\": true,'' @ conf_line 1 ''\"ipam\": {'' @
     conf_line 2 ''\"type\": \"host-local\",'' @ conf_line 2 ''\"subnet\": \"''"

definition cni_conf_tail :: string where
  "cni_conf_tail = ''\"'' @ conf_line 1 ''}'' @ conf_line 0 ''}''"

definition cni_conf :: "string \<Rightarrow> string" where
  "cni_conf pod_cidr = cni_conf_head @ pod_cidr @ cni_conf_tail"

definition installCNIConf :: "'a host_scheme \<Rightarrow> string \<Rightarrow> (call, unit) io" where
  "installCNIConf env pod_cidr =
     (let conf = cni_conf pod_cidr in act env (WriteFile cniConfigPath conf))"

section \<open>Waiting for the node's configuration\<close>

definition waitDuration :: nat where
  "waitDuration = 60 * second"

definition pollInterval :: nat where
  "pollInterval = 5 * second"

definition get_vswitch_config :: "'a daemon_host_scheme \<Rightarrow> string \<Rightarrow> (call, VSwitchConfig) io" where
  "get_vswitch_config env name = call (\<lambda>h. d_vswitch env h name) (GetVSwitchConfig name)"

lemma poll_takes: "now env h + pollInterval \<le> now env ((h @ [GetVSwitchConfig name]) @ [Sleep pollInterval])"
proof -
  have "now env (h @ [GetVSwitchConfig name] @ [Sleep pollInterval]) =
      now env (h @ [GetVSwitchConfig name]) + d_cost env (h @ [GetVSwitchConfig name] @ [Sleep pollInterval]) + pollInterval"
    using now_snoc [of env "h @ [GetVSwitchConfig name]" "Sleep pollInterval"] by (simp add: slept_def)
  with now_snoc [of env h "GetVSwitchConfig name"] show ?thesis by simp
qed

function wait_loop ::
  "'a daemon_host_scheme \<Rightarrow> string \<Rightarrow> nat \<Rightarrow> history \<Rightarrow> (err + VSwitchConfig) \<times> history" where
  "wait_loop env name start h =
     (if now env h - start < waitDuration then
        (let vswitchConfig = d_vswitch env h name; h1 = h @ [GetVSwitchConfig name] in
         case vswitchConfig of
           Inr cfg \<Rightarrow> (Inr cfg, h1)
         | Inl e \<Rightarrow>
             if \<not> IsNotFound e then (Inl e, h1)
             else wait_loop env name start (h1 @ [Sleep pollInterval]))
      else (Inl (ErrorMsg ''vswitch config not found''), h))"
  by pat_completeness auto

termination
proof (relation "measure (\<lambda>(env, name, start, h). start + waitDuration - now env h)", goal_cases)
  case 1
  show ?case by simp
next
  case (2 env name start h cfg h1 e)
  then have "now env h < start + waitDuration" by simp
  moreover have "now env h + pollInterval \<le> now env (h1 @ [Sleep pollInterval])"
    using poll_takes [of env h name] 2 by simp
  moreover have "0 < pollInterval" by (simp add: pollInterval_def second_def)
  ultimately show ?case by simp
qed

declare wait_loop.simps [simp del]

definition waitForVSwitchConfig :: "'a daemon_host_scheme \<Rightarrow> string \<Rightarrow> (call, VSwitchConfig) io" where
  "waitForVSwitchConfig env name = State (\<lambda>h. wait_loop env name (now env h) h)"

definition is_poll :: "string \<Rightarrow> call \<Rightarrow> bool" where
  "is_poll name c \<longleftrightarrow> c = GetVSwitchConfig name"

text \<open>What is left of the minute bounds the requests that are still made.\<close>

lemma wait_loop_bounds:
  "wait_loop env name start h = (r, h') \<Longrightarrow>
     \<exists>t. h' = h @ t \<and> list_all (\<lambda>c. c = GetVSwitchConfig name \<or> c = Sleep pollInterval) t \<and>
       (length (filter (is_poll name) t) * pollInterval + now env h < start + waitDuration + pollInterval \<or> filter (is_poll name) t = []) \<and>
       (case r of
          Inr cfg \<Rightarrow> \<exists>u. h' = u @ [GetVSwitchConfig name] \<and> d_vswitch env u name = Inr cfg
        | Inl e \<Rightarrow> start + waitDuration \<le> now env h' \<or>
            (\<exists>u. h' = u @ [GetVSwitchConfig name] \<and> d_vswitch env u name = Inl e \<and> \<not> IsNotFound e))"
proof (induction env name start h arbitrary: r h' rule: wait_loop.induct)
  case (1 env name start h)
  let ?get = "GetVSwitchConfig name" and ?sleep = "Sleep pollInterval"
  have pos: "0 < pollInterval" by (simp add: pollInterval_def second_def)
  show ?case
  proof (cases "now env h - start < waitDuration")
    case False
    moreover have "0 < waitDuration" by (simp add: waitDuration_def second_def)
    ultimately have "start + waitDuration \<le> now env h" by linarith
    with False "1.prems" show ?thesis by (intro exI [of _ "[]"]) (auto simp: wait_loop.simps [of env name start h])
  next
    case True
    then have left: "now env h < start + waitDuration" using pos by (simp add: waitDuration_def second_def) 
    show ?thesis
    proof (cases "\<exists>e. d_vswitch env h name = Inl e \<and> IsNotFound e")
      case False
      with True have "wait_loop env name start h = (d_vswitch env h name, h @ [?get])"
        by (cases "d_vswitch env h name") (auto simp: wait_loop.simps [of env name start h] Let_def)
      with "1.prems" have "r = d_vswitch env h name" "h' = h @ [?get]" by simp_all
      with False left show ?thesis
        by (intro exI [of _ "[?get]"]) (auto simp: is_poll_def split: sum.split)
    next
      case nf: True
      then obtain e where e: "d_vswitch env h name = Inl e" "IsNotFound e" by blast
      have next_run: "wait_loop env name start ((h @ [?get]) @ [?sleep]) = (r, h')"
        using True e "1.prems" by (simp add: wait_loop.simps [of env name start h])
      from "1.IH" [OF True refl refl e(1) _ next_run] e obtain t where t: "h' = ((h @ [?get]) @ [?sleep]) @ t"
        "list_all (\<lambda>c. c = ?get \<or> c = ?sleep) t"
        "length (filter (is_poll name) t) * pollInterval + now env ((h @ [?get]) @ [?sleep]) < start + waitDuration + pollInterval \<or> filter (is_poll name) t = []"
        "case r of Inr cfg \<Rightarrow> \<exists>u. h' = u @ [?get] \<and> d_vswitch env u name = Inr cfg
         | Inl e \<Rightarrow> start + waitDuration \<le> now env h' \<or>
            (\<exists>u. h' = u @ [?get] \<and> d_vswitch env u name = Inl e \<and> \<not> IsNotFound e)" by auto
      have "length (filter (is_poll name) ([?get, ?sleep] @ t)) * pollInterval + now env h < start + waitDuration + pollInterval"
        using t(3) left poll_takes [of env h name] by (auto simp: is_poll_def)
      with t show ?thesis by (intro exI [of _ "[?get, ?sleep] @ t"]) simp
    qed
  qed
qed

lemma waitForVSwitchConfig_calls:
  "performs (\<lambda>c. c = GetVSwitchConfig name \<or> c = Sleep pollInterval) (waitForVSwitchConfig env name)"
  unfolding performs_def
proof
  fix h
  obtain r h' where "wait_loop env name (now env h) h = (r, h')" by fastforce
  from wait_loop_bounds [OF this] this
  show "\<exists>t. snd (run_state (waitForVSwitchConfig env name) h) = h @ t \<and>
      list_all (\<lambda>c. c = GetVSwitchConfig name \<or> c = Sleep pollInterval) t"
    by (auto simp: waitForVSwitchConfig_def)
qed


section \<open>Setting up the bridge\<close>

definition setupOVSBridgeIfNotExists :: "'a host_scheme \<Rightarrow> (call, unit) io" where
  "setupOVSBridgeIfNotExists env =
     (let command = [''--may-exist'', ''add-br'', daemon_bridgeName] in
      check (Errorf ''failed to setup OVS bridge'') (run_command env (vsctl command)) (\<lambda>out.
      check (Errorf ''could not lookup bridge'') (link_by_name env daemon_bridgeName) (\<lambda>br.
      check (Errorf ''failed to bring bridge up'') (act env (LinkSetUp br)) (\<lambda>_.
      ok ()))))"

definition setupClusterWideInternalPort :: "'a host_scheme \<Rightarrow> (call, unit) io" where
  "setupClusterWideInternalPort env =
     (let command = [''--may-exist'', ''add-port'', daemon_bridgeName, daemon_clusterWidePort,
                     ''--'', ''set'', ''Interface'', daemon_clusterWidePort, ''type=internal''] in
      check (Errorf ''failed to setup cluster-wide port'') (run_command env (vsctl command)) (\<lambda>out.
      check (Errorf ''could not lookup port'') (link_by_name env daemon_clusterWidePort) (\<lambda>clusterWide.
      check (Errorf ''failed to bring port up'') (act env (LinkSetUp clusterWide)) (\<lambda>_.
      ok ()))))"

definition setupOverlayPort :: "'a host_scheme \<Rightarrow> string \<Rightarrow> (call, unit) io" where
  "setupOverlayPort env overlayType =
     (let command = [''--may-exist'', ''add-port'', daemon_bridgeName, daemon_overlayPort,
                     ''--'', ''set'', ''Interface'', daemon_overlayPort, ''type='' @ overlayType,
                     ''option:remote_ip=flow'', ''option:key=flow''] in
      check (Errorf ''failed to setup overlay port'') (run_command env (vsctl command)) (\<lambda>out.
      ok ()))"

definition setSecureFailMode :: "'a host_scheme \<Rightarrow> (call, unit) io" where
  "setSecureFailMode env =
     (let command = [''set-fail-mode'', daemon_bridgeName, ''secure''] in
      check (Errorf ''failed to set fail mode'') (run_command env (vsctl command)) (\<lambda>out.
      ok ()))"

definition setControllerTarget :: "'a host_scheme \<Rightarrow> (call, unit) io" where
  "setControllerTarget env =
     (let command = [''set-controller'', daemon_bridgeName, defaultControllerTarget] in
      check (Errorf ''failed to set controller target'') (run_command env (vsctl command)) (\<lambda>out.
      ok ()))"

section \<open>Addresses and routes\<close>

definition netlinkRouteForCluster :: "string \<Rightarrow> Link \<Rightarrow> err + netRoute" where
  "netlinkRouteForCluster cluster_cidr link =
     (case ParseCIDR cluster_cidr of
        Inl e \<Rightarrow> Inl e
      | Inr (_, clusterIPNet) \<Rightarrow> Inr \<lparr>route_LinkIndex = link_Index link, route_Dst = clusterIPNet\<rparr>)"

definition netlinkAddrForLocal :: "string \<Rightarrow> err + IPNet" where
  "netlinkAddrForLocal pod_cidr =
     (case ParseCIDR pod_cidr of
        Inl e \<Rightarrow> Inl e
      | Inr (_, podIPNet) \<Rightarrow>
          (let gw = NextIP (Mask (net_IP podIPNet) (net_Mask podIPNet))
           in Inr \<lparr>net_IP = gw, net_Mask = net_Mask podIPNet\<rparr>))"

section \<open>Forwarding\<close>

definition snat_rule :: "string \<Rightarrow> string \<Rightarrow> string list" where
  "snat_rule cidr what =
     [''!'', ''-d'', cidr, ''-m'', ''comment'', ''--comment'',
      ''k-vswitch: SNAT for outbound traffic from '' @ what @ '' CIDR'',
      ''-m'', ''addrtype'', ''!'', ''--dst-type'', ''LOCAL'', ''-j'', ''MASQUERADE'']"

definition setupBridgeForwarding :: "'a host_scheme \<Rightarrow> string \<Rightarrow> string \<Rightarrow> string \<Rightarrow> (call, unit) io" where
  "setupBridgeForwarding env pod_cidr cluster_cidr service_cidr =
     check id (act env NewIPTables) (\<lambda>_.
     let rules = [''-o'', daemon_bridgeName, ''-j'', ''ACCEPT''] in
     check id (act env (AppendUnique ''filter'' ''FORWARD'' rules)) (\<lambda>_.
     let rules = [''-i'', daemon_bridgeName, ''-j'', ''ACCEPT''] in
     check id (act env (AppendUnique ''filter'' ''FORWARD'' rules)) (\<lambda>_.
     let rules = [''-s'', pod_cidr, ''!'', ''-o'', daemon_bridgeName, ''-j'', ''MASQUERADE''] in
     check id (act env (AppendUnique ''nat'' ''POSTROUTING'' rules)) (\<lambda>_.
     let rules = snat_rule cluster_cidr ''cluster'' in
     check id (act env (AppendUnique ''nat'' ''POSTROUTING'' rules)) (\<lambda>_.
     let rules = snat_rule service_cidr ''service'' in
     check id (act env (AppendUnique ''nat'' ''POSTROUTING'' rules)) (\<lambda>_.
     ok ()))))))"

definition setupModulesAndSysctls :: "'a host_scheme \<Rightarrow> (call, unit) io" where
  "setupModulesAndSysctls env =
     check (Errorf ''failed to enable br_netfilter module'')
       (run_command env \<lparr>program = ''modprobe'', args = [''br_netfilter''], stdin = []\<rparr>) (\<lambda>out.
     check (Errorf ''failed to set /proc/sys/net/bridge/bridge-nf-call-iptables'')
       (act env (WriteFile ''/proc/sys/net/bridge/bridge-nf-call-iptables'' (itoa 1))) (\<lambda>_.
     check (Errorf ''failed to set /proc/sys/net/ipv4/ip_forward'')
       (act env (WriteFile ''/proc/sys/net/ipv4/ip_forward'' (itoa 1))) (\<lambda>_.
     ok ())))"

section \<open>The main program\<close>

definition get_node :: "'a daemon_host_scheme \<Rightarrow> string \<Rightarrow> (call, Node) io" where
  "get_node env name = call (\<lambda>h. d_node env h name) (GetNode name)"

text \<open>A pure computation whose error ends the program.\<close>

definition returns :: "err + 'a \<Rightarrow> (call, 'a) io" where
  "returns r = State_Monad.return r"

text \<open>From the clients to the node's configuration.\<close>

definition main_node :: "'a daemon_host_scheme \<Rightarrow> Node \<Rightarrow> (call, Node \<times> VSwitchConfig) io" where
  "main_node env curNode =
     (if node_PodCIDR curNode = [] then fail (ErrorMsg ''node has no pod CIDR assigned'')
      else
        check id (installCNIConf env (node_PodCIDR curNode)) (\<lambda>_.
        check id (waitForVSwitchConfig env (node_Name curNode)) (\<lambda>cfg.
        ok (curNode, cfg))))"

definition main_config :: "'a daemon_host_scheme \<Rightarrow> (call, Node \<times> VSwitchConfig) io" where
  "main_config env =
     check id (act env InClusterConfig) (\<lambda>_.
     check id (act env (NewClientset ''kubernetes'')) (\<lambda>_.
     check id (act env (NewClientset ''kvswitch'')) (\<lambda>_.
     do { name \<leftarrow> Getenv env ''NODE_NAME'';
       if name = [] then fail (ErrorMsg ''env variable NODE_NAME is required'')
       else check id (get_node env name) (main_node env) })))"

text \<open>From the configuration to a node whose bridge forwards.\<close>

definition main_setup :: "'a host_scheme \<Rightarrow> VSwitchConfig \<Rightarrow> (call, unit) io" where
  "main_setup env cfg =
     (let pod_cidr = PodCIDR (Spec cfg); cluster_cidr = ClusterCIDR (Spec cfg); service_cidr = ServiceCIDR (Spec cfg) in
      check id (setupOVSBridgeIfNotExists env) (\<lambda>_.
      check id (setupClusterWideInternalPort env) (\<lambda>_.
      check id (setupOverlayPort env (OverlayType (Spec cfg))) (\<lambda>_.
      check id (link_by_name env daemon_bridgeName) (\<lambda>bridgeLink.
      check id (link_by_name env daemon_clusterWidePort) (\<lambda>clusterWideLink.
      check id (returns (netlinkAddrForLocal pod_cidr)) (\<lambda>addr.
      check id (act env (AddrReplace bridgeLink addr)) (\<lambda>_.
      check id (returns (netlinkRouteForCluster cluster_cidr clusterWideLink)) (\<lambda>route.
      check id (act env (RouteReplace route)) (\<lambda>_.
      check id (setControllerTarget env) (\<lambda>_.
      check id (setSecureFailMode env) (\<lambda>_.
      check id (setupModulesAndSysctls env) (\<lambda>_.
      setupBridgeForwarding env pod_cidr cluster_cidr service_cidr)))))))))))))"

text \<open>
  The informers of the controller: the two factories after \<^verbatim>\<open>NewController\<close> has asked for the listers.  An
  informer is its resync period.
\<close>

definition controller_informers :: "int factory \<times> int factory" where
  "controller_informers =
     (let core = NewSharedInformerFactory 0;
          kvs = NewSharedInformerFactory 0;
          core = snd (InformerFor ''Pod'' (\<lambda>resync. resync) core);
          core = snd (InformerFor ''Namespace'' (\<lambda>resync. resync) core);
          core = snd (InformerFor ''NetworkPolicy'' (\<lambda>resync. resync) core);
          kvs = snd (InformerFor ''VSwitchConfig'' (\<lambda>resync. resync) kvs)
      in (core, kvs))"

definition announce :: "call \<Rightarrow> (call, unit) io" where
  "announce c = call (\<lambda>h. Inr ()) c"

definition new_controller ::
  "'a daemon_host_scheme \<Rightarrow> string \<Rightarrow> string \<Rightarrow> string \<Rightarrow> string \<Rightarrow> string \<Rightarrow> (call, controller) io" where
  "new_controller env bridge_mac cw_mac node pod_cidr cluster_cidr =
     State (\<lambda>h. (NewController (d_os env h) daemon_bridgeName bridge_mac cw_mac node pod_cidr cluster_cidr, h))"

definition main_start :: "'a daemon_host_scheme \<Rightarrow> Node \<Rightarrow> VSwitchConfig \<Rightarrow> (call, session) io" where
  "main_start env curNode cfg =
     check id (interface_by_name env daemon_bridgeName) (\<lambda>ovsBridgeInterface.
     check id (interface_by_name env daemon_clusterWidePort) (\<lambda>clusterWideInterface.
     check id (act env ListenTCP) (\<lambda>_.
     check id (new_controller env (if_Mac ovsBridgeInterface) (if_Mac clusterWideInterface) (node_Name curNode)
                 (PodCIDR (Spec cfg)) (ClusterCIDR (Spec cfg))) (\<lambda>c.
     (let (core, kvs) = controller_informers in
      case Initialize \<lparr>xid = 0, of_ctrl = c, outbox = []\<rparr> of
        (Some e, s) \<Rightarrow> fail e
      | (None, s) \<Rightarrow>
          check id (announce (Await (awaited core))) (\<lambda>_.
          check id (announce (Await (awaited kvs))) (\<lambda>_.
          check id (announce (RunInformers (fst (Start core)))) (\<lambda>_.
          check id (announce (RunInformers (fst (Start kvs)))) (\<lambda>_.
          check id (announce (Go ''connectionManager.ProcessQueue'')) (\<lambda>_.
          check id (announce (Go ''connectionManager.Serve'')) (\<lambda>_.
          check id (announce (Go ''c.Run'')) (\<lambda>_.
          ok s))))))))))))"

definition daemon_main :: "'a daemon_host_scheme \<Rightarrow> (call, session) io" where
  "daemon_main env =
     check id (main_config env) (\<lambda>(curNode, cfg).
     check id (main_setup env cfg) (\<lambda>_.
     main_start env curNode cfg))"

section \<open>What the daemon changes, in order\<close>

datatype change =
    Wrote string string
  | Ran string "string list"
  | BroughtUp string
  | SetAddress string IPNet
  | SetRoute netRoute
  | Appended string string "string list"
  | Waited "string list"
  | Started "string list"
  | Spawned string

fun change_of :: "call \<Rightarrow> change option" where
  "change_of (WriteFile f text) = Some (Wrote f text)"
| "change_of (Exec cmd) = Some (Ran (program cmd) (args cmd))"
| "change_of (LinkSetUp l) = Some (BroughtUp (link_Name l))"
| "change_of (AddrReplace l a) = Some (SetAddress (link_Name l) a)"
| "change_of (RouteReplace r) = Some (SetRoute r)"
| "change_of (AppendUnique t ch r) = Some (Appended t ch r)"
| "change_of (Await ts) = Some (Waited ts)"
| "change_of (RunInformers ts) = Some (Started ts)"
| "change_of (Go g) = Some (Spawned g)"
| "change_of c = None"

abbreviation changes :: "call list \<Rightarrow> change list" where
  "changes \<equiv> List.map_filter change_of"

text \<open>The plan of the set-up for a configuration; \<open>ix\<close> is the index of a link.\<close>

definition bridge_plan :: "VSwitchConfig \<Rightarrow> change list" where
  "bridge_plan cfg =
     [Ran ''ovs-vsctl'' [''--may-exist'', ''add-br'', ''k-vswitch0''],
      BroughtUp ''k-vswitch0'',
      Ran ''ovs-vsctl'' [''--may-exist'', ''add-port'', ''k-vswitch0'', ''cluster-wide'',
                         ''--'', ''set'', ''Interface'', ''cluster-wide'', ''type=internal''],
      BroughtUp ''cluster-wide'',
      Ran ''ovs-vsctl'' [''--may-exist'', ''add-port'', ''k-vswitch0'', ''overlay0'', ''--'', ''set'', ''Interface'',
                         ''overlay0'', ''type='' @ OverlayType (Spec cfg), ''option:remote_ip=flow'', ''option:key=flow'']]"

definition address_plan :: "(string \<Rightarrow> int) \<Rightarrow> VSwitchConfig \<Rightarrow> change list" where
  "address_plan ix cfg =
     (case netlinkAddrForLocal (PodCIDR (Spec cfg)) of
        Inl _ \<Rightarrow> []
      | Inr a \<Rightarrow> SetAddress ''k-vswitch0'' a #
          (case ParseCIDR (ClusterCIDR (Spec cfg)) of
             Inl _ \<Rightarrow> []
           | Inr (_, n) \<Rightarrow> [SetRoute \<lparr>route_LinkIndex = ix ''cluster-wide'', route_Dst = n\<rparr>]))"

definition switch_plan :: "change list" where
  "switch_plan =
     [Ran ''ovs-vsctl'' [''set-controller'', ''k-vswitch0'', ''tcp:127.0.0.1:6653''],
      Ran ''ovs-vsctl'' [''set-fail-mode'', ''k-vswitch0'', ''secure''],
      Ran ''modprobe'' [''br_netfilter''],
      Wrote ''/proc/sys/net/bridge/bridge-nf-call-iptables'' ''1'',
      Wrote ''/proc/sys/net/ipv4/ip_forward'' ''1'']"

definition iptables_rules :: "VSwitchConfig \<Rightarrow> (string \<times> string \<times> string list) list" where
  "iptables_rules cfg =
     [(''filter'', ''FORWARD'', [''-o'', ''k-vswitch0'', ''-j'', ''ACCEPT'']),
      (''filter'', ''FORWARD'', [''-i'', ''k-vswitch0'', ''-j'', ''ACCEPT'']),
      (''nat'', ''POSTROUTING'', [''-s'', PodCIDR (Spec cfg), ''!'', ''-o'', ''k-vswitch0'', ''-j'', ''MASQUERADE'']),
      (''nat'', ''POSTROUTING'', snat_rule (ClusterCIDR (Spec cfg)) ''cluster''),
      (''nat'', ''POSTROUTING'', snat_rule (ServiceCIDR (Spec cfg)) ''service'')]"

definition setup_plan :: "(string \<Rightarrow> int) \<Rightarrow> VSwitchConfig \<Rightarrow> change list" where
  "setup_plan ix cfg =
     bridge_plan cfg @ address_plan ix cfg @ switch_plan @ map (\<lambda>(t, ch, r). Appended t ch r) (iptables_rules cfg)"

definition start_plan :: "change list" where
  "start_plan =
     [Waited [], Waited [], Started [''Pod'', ''Namespace'', ''NetworkPolicy''], Started [''VSwitchConfig''],
      Spawned ''connectionManager.ProcessQueue'', Spawned ''connectionManager.Serve'', Spawned ''c.Run'']"

lemmas daemon_names =
  daemon_bridgeName_def daemon_clusterWidePort_def daemon_overlayPort_def defaultControllerTarget_def

lemma follows_run_command: "follows change_of [Ran (program c) (args c)] (run_command env c)"
  by (simp add: run_command_def follows_call)

lemma follows_act: "change_of c = Some d \<Longrightarrow> follows change_of [d] (act env c)"
  by (simp add: act_def follows_call)

lemma follows_act_read: "change_of c = None \<Longrightarrow> follows change_of [] (act env c)"
  by (simp add: act_def follows_read)

lemma follows_announce: "change_of c = Some d \<Longrightarrow> follows change_of [d] (announce c)"
  by (simp add: announce_def follows_call)

lemma follows_lookups:
  "follows change_of [] (link_by_name env n)" "follows change_of [] (interface_by_name env' n)"
  by (simp_all add: link_by_name_def interface_by_name_def follows_read)

lemma follows_returns: "follows f [] (returns r)"
  by (simp add: follows_def returns_def List.map_filter_def split: sum.split)

lemma run_returns: "run_state (returns r) h = (Inr x, h') \<Longrightarrow> r = Inr x"
  by (simp add: returns_def)

text \<open>Plans are composed one call at a time: these give the first change, or none.\<close>

lemma follows_step:
  "follows change_of [d] m \<Longrightarrow> (\<And>x. follows change_of ds (k x)) \<Longrightarrow> follows change_of (d # ds) (check w m k)"
  using follows_check [of change_of "[d]" m ds k w] by simp

lemma follows_look:
  "follows change_of [] m \<Longrightarrow> (\<And>h x h'. run_state m h = (Inr x, h') \<Longrightarrow> follows change_of ds (k x)) \<Longrightarrow>
     follows change_of ds (check w m k)"
  using follows_check [of change_of "[]" m ds k w] by simp

lemma follows_then:
  "follows change_of ds m \<Longrightarrow> (\<And>x. follows change_of es (k x)) \<Longrightarrow> follows change_of (ds @ es) (check w m k)"
  by (rule follows_check)


lemma vsctl_simps [simp]: "program (vsctl c) = ''ovs-vsctl''" "args (vsctl c) = c"
  by (simp_all add: vsctl_def)

lemma follows_vsctl: "follows change_of [Ran ''ovs-vsctl'' c] (run_command env (vsctl c))"
  using follows_run_command [of "vsctl c"] by simp

lemma bridge_follows:
  assumes "links_ok env ix"
  shows "follows change_of [Ran ''ovs-vsctl'' [''--may-exist'', ''add-br'', ''k-vswitch0''], BroughtUp ''k-vswitch0'']
      (setupOVSBridgeIfNotExists env)"
  unfolding setupOVSBridgeIfNotExists_def Let_def daemon_names
  by (rule follows_step [OF follows_vsctl] follows_look [OF follows_lookups(1)] follows_step [OF follows_act] follows_ok
      | simp add: link_by_name_ok [OF assms])+

lemma cluster_wide_follows:
  assumes "links_ok env ix"
  shows "follows change_of [Ran ''ovs-vsctl'' [''--may-exist'', ''add-port'', ''k-vswitch0'', ''cluster-wide'',
      ''--'', ''set'', ''Interface'', ''cluster-wide'', ''type=internal''], BroughtUp ''cluster-wide'']
      (setupClusterWideInternalPort env)"
  unfolding setupClusterWideInternalPort_def Let_def daemon_names
  by (rule follows_step [OF follows_vsctl] follows_look [OF follows_lookups(1)] follows_step [OF follows_act] follows_ok
      | simp add: link_by_name_ok [OF assms])+

lemma overlay_follows:
  "follows change_of [Ran ''ovs-vsctl'' [''--may-exist'', ''add-port'', ''k-vswitch0'', ''overlay0'', ''--'', ''set'',
      ''Interface'', ''overlay0'', ''type='' @ ty, ''option:remote_ip=flow'', ''option:key=flow'']] (setupOverlayPort env ty)"
  unfolding setupOverlayPort_def Let_def daemon_names
  by (rule follows_step [OF follows_vsctl] follows_ok)+

lemma switch_follows:
  "follows change_of [Ran ''ovs-vsctl'' [''set-controller'', ''k-vswitch0'', ''tcp:127.0.0.1:6653'']] (setControllerTarget env)"
  "follows change_of [Ran ''ovs-vsctl'' [''set-fail-mode'', ''k-vswitch0'', ''secure'']] (setSecureFailMode env)"
  unfolding setControllerTarget_def setSecureFailMode_def Let_def daemon_names
  by (rule follows_step [OF follows_vsctl] follows_ok)+

lemma sysctls_follow:
  "follows change_of [Ran ''modprobe'' [''br_netfilter''], Wrote ''/proc/sys/net/bridge/bridge-nf-call-iptables'' ''1'',
      Wrote ''/proc/sys/net/ipv4/ip_forward'' ''1''] (setupModulesAndSysctls env)"
proof -
  have one: "itoa 1 = ''1''" by code_simp
  have probe: "follows change_of [Ran ''modprobe'' [''br_netfilter'']]
      (run_command env \<lparr>program = ''modprobe'', args = [''br_netfilter''], stdin = []\<rparr>)"
    using follows_run_command [of "\<lparr>program = ''modprobe'', args = [''br_netfilter''], stdin = []\<rparr>" env] by simp
  show ?thesis
    unfolding setupModulesAndSysctls_def one
    by (rule follows_step [OF probe] follows_step [OF follows_act] follows_ok | simp)+
qed

lemma forwarding_follows:
  "follows change_of (map (\<lambda>(t, ch, r). Appended t ch r) (iptables_rules cfg))
     (setupBridgeForwarding env (PodCIDR (Spec cfg)) (ClusterCIDR (Spec cfg)) (ServiceCIDR (Spec cfg)))"
  unfolding setupBridgeForwarding_def Let_def daemon_names iptables_rules_def list.map prod.case
  by (rule follows_look [OF follows_act_read] follows_step [OF follows_act] follows_ok | simp)+

lemma follows_act_then:
  "change_of c = Some d \<Longrightarrow> follows change_of ds rest \<Longrightarrow>
     follows change_of (d # ds) (check w (act env c) (\<lambda>_. rest))"
  by (rule follows_step [OF follows_act])

lemma address_follows:
  assumes "link_Name br = ''k-vswitch0''" and "link_Index cw = ix ''cluster-wide''" and "follows change_of ds rest"
  shows "follows change_of (address_plan ix cfg @ ds)
     (check id (returns (netlinkAddrForLocal (PodCIDR (Spec cfg)))) (\<lambda>addr.
      check id (act env (AddrReplace br addr)) (\<lambda>_.
      check id (returns (netlinkRouteForCluster (ClusterCIDR (Spec cfg)) cw)) (\<lambda>route.
      check id (act env (RouteReplace route)) (\<lambda>_. rest)))))"
proof (rule follows_look [OF follows_returns])
  fix h addr h'
  assume "run_state (returns (netlinkAddrForLocal (PodCIDR (Spec cfg)))) h = (Inr addr, h')"
  then have a: "netlinkAddrForLocal (PodCIDR (Spec cfg)) = Inr addr" by (rule run_returns)
  have route: "follows change_of
     ((case ParseCIDR (ClusterCIDR (Spec cfg)) of Inl _ \<Rightarrow> []
       | Inr (_, n) \<Rightarrow> [SetRoute \<lparr>route_LinkIndex = ix ''cluster-wide'', route_Dst = n\<rparr>]) @ ds)
     (check id (returns (netlinkRouteForCluster (ClusterCIDR (Spec cfg)) cw)) (\<lambda>route.
      check id (act env (RouteReplace route)) (\<lambda>_. rest)))"
  proof (rule follows_look [OF follows_returns])
    fix h route h'
    assume "run_state (returns (netlinkRouteForCluster (ClusterCIDR (Spec cfg)) cw)) h = (Inr route, h')"
    then have "netlinkRouteForCluster (ClusterCIDR (Spec cfg)) cw = Inr route" by (rule run_returns)
    then obtain i n where "ParseCIDR (ClusterCIDR (Spec cfg)) = Inr (i, n)"
      "route = \<lparr>route_LinkIndex = ix ''cluster-wide'', route_Dst = n\<rparr>"
      using assms(2) by (auto simp: netlinkRouteForCluster_def split: sum.split_asm)
    then show "follows change_of ((case ParseCIDR (ClusterCIDR (Spec cfg)) of Inl _ \<Rightarrow> []
         | Inr (_, n) \<Rightarrow> [SetRoute \<lparr>route_LinkIndex = ix ''cluster-wide'', route_Dst = n\<rparr>]) @ ds)
        (check id (act env (RouteReplace route)) (\<lambda>_. rest))"
      by (simp add: follows_act_then [OF _ assms(3)])
  qed
  show "follows change_of (address_plan ix cfg @ ds)
     (check id (act env (AddrReplace br addr)) (\<lambda>_.
      check id (returns (netlinkRouteForCluster (ClusterCIDR (Spec cfg)) cw)) (\<lambda>route.
      check id (act env (RouteReplace route)) (\<lambda>_. rest))))"
    using follows_act_then [OF _ route, of "AddrReplace br addr" _ id env] assms(1)
    by (simp add: address_plan_def a)
qed

lemma setup_follows:
  assumes "links_ok env ix"
  shows "follows change_of (setup_plan ix cfg) (main_setup env cfg)"
proof -
  have switch: "switch_plan @ r =
      [Ran ''ovs-vsctl'' [''set-controller'', ''k-vswitch0'', ''tcp:127.0.0.1:6653'']] @
      [Ran ''ovs-vsctl'' [''set-fail-mode'', ''k-vswitch0'', ''secure'']] @
      [Ran ''modprobe'' [''br_netfilter''], Wrote ''/proc/sys/net/bridge/bridge-nf-call-iptables'' ''1'',
       Wrote ''/proc/sys/net/ipv4/ip_forward'' ''1''] @ r" for r
    by (simp add: switch_plan_def)
  have tail: "follows change_of (switch_plan @ map (\<lambda>(t, ch, r). Appended t ch r) (iptables_rules cfg))
     (check id (setControllerTarget env) (\<lambda>_. check id (setSecureFailMode env) (\<lambda>_.
      check id (setupModulesAndSysctls env) (\<lambda>_.
      setupBridgeForwarding env (PodCIDR (Spec cfg)) (ClusterCIDR (Spec cfg)) (ServiceCIDR (Spec cfg))))))"
    unfolding switch
    by (intro follows_then switch_follows sysctls_follow forwarding_follows)
  have links: "follows change_of (address_plan ix cfg @ switch_plan @ map (\<lambda>(t, ch, r). Appended t ch r) (iptables_rules cfg))
     (check id (link_by_name env ''k-vswitch0'') (\<lambda>bridgeLink.
      check id (link_by_name env ''cluster-wide'') (\<lambda>clusterWideLink.
      check id (returns (netlinkAddrForLocal (PodCIDR (Spec cfg)))) (\<lambda>addr.
      check id (act env (AddrReplace bridgeLink addr)) (\<lambda>_.
      check id (returns (netlinkRouteForCluster (ClusterCIDR (Spec cfg)) clusterWideLink)) (\<lambda>route.
      check id (act env (RouteReplace route)) (\<lambda>_.
      check id (setControllerTarget env) (\<lambda>_. check id (setSecureFailMode env) (\<lambda>_.
      check id (setupModulesAndSysctls env) (\<lambda>_.
      setupBridgeForwarding env (PodCIDR (Spec cfg)) (ClusterCIDR (Spec cfg)) (ServiceCIDR (Spec cfg))))))))))))"
    by (intro follows_look [OF follows_lookups(1)] address_follows tail)
      (use link_by_name_ok [OF assms] in blast)+
  have plan: "setup_plan ix cfg =
      [Ran ''ovs-vsctl'' [''--may-exist'', ''add-br'', ''k-vswitch0''], BroughtUp ''k-vswitch0''] @
      [Ran ''ovs-vsctl'' [''--may-exist'', ''add-port'', ''k-vswitch0'', ''cluster-wide'',
         ''--'', ''set'', ''Interface'', ''cluster-wide'', ''type=internal''], BroughtUp ''cluster-wide''] @
      [Ran ''ovs-vsctl'' [''--may-exist'', ''add-port'', ''k-vswitch0'', ''overlay0'', ''--'', ''set'', ''Interface'',
         ''overlay0'', ''type='' @ OverlayType (Spec cfg), ''option:remote_ip=flow'', ''option:key=flow'']] @
      address_plan ix cfg @ switch_plan @ map (\<lambda>(t, ch, r). Appended t ch r) (iptables_rules cfg)"
    by (simp add: setup_plan_def bridge_plan_def)
  show ?thesis
    unfolding plan main_setup_def Let_def daemon_bridgeName_def daemon_clusterWidePort_def
    by (intro follows_then bridge_follows [OF assms] cluster_wide_follows [OF assms] overlay_follows links)
qed

lemma start_follows: "follows change_of start_plan (main_start env node cfg)"
proof -
  obtain core kvs where f: "controller_informers = (core, kvs)" by fastforce
  then have t: "awaited core = []" "awaited kvs = []" "fst (Start core) = [''Pod'', ''Namespace'', ''NetworkPolicy'']"
    "fst (Start kvs) = [''VSwitchConfig'']"
    by (auto simp: controller_informers_def Let_def InformerFor_def NewSharedInformerFactory_def
        NewSharedInformerFactoryWithOptions_def awaited_def Start_def)
  have last: "follows change_of start_plan
     (check id (announce (Await (awaited core))) (\<lambda>_. check id (announce (Await (awaited kvs))) (\<lambda>_.
      check id (announce (RunInformers (fst (Start core)))) (\<lambda>_. check id (announce (RunInformers (fst (Start kvs)))) (\<lambda>_.
      check id (announce (Go ''connectionManager.ProcessQueue'')) (\<lambda>_.
      check id (announce (Go ''connectionManager.Serve'')) (\<lambda>_.
      check id (announce (Go ''c.Run'')) (\<lambda>_. ok s))))))))" for s :: session
    unfolding start_plan_def t by (rule follows_step [OF follows_announce] follows_ok | simp)+
  have made: "follows change_of [] (new_controller env a b n p c)" for a b n p c
    by (simp add: follows_def new_controller_def List.map_filter_def split: sum.split)
  show ?thesis
    unfolding main_start_def f Initialize_def Let_def prod.case
    by (rule follows_look [OF follows_lookups(2)] follows_look [OF follows_act_read] follows_look [OF made]
        | simp add: last split: prod.split)+
qed


lemma wait_run:
  assumes "run_state (waitForVSwitchConfig env n) h = (r, h')"
  obtains t where "h' = h @ t" "changes t = []" "\<And>cfg. r = Inr cfg \<Longrightarrow> \<exists>u. d_vswitch env u n = Inr cfg"
proof -
  from assms have w: "wait_loop env n (now env h) h = (r, h')" by (simp add: waitForVSwitchConfig_def)
  from wait_loop_bounds [OF w] obtain t where t: "h' = h @ t"
    "list_all (\<lambda>c. c = GetVSwitchConfig n \<or> c = Sleep pollInterval) t"
    "case r of Inr cfg \<Rightarrow> \<exists>u. h' = u @ [GetVSwitchConfig n] \<and> d_vswitch env u n = Inr cfg
     | Inl e \<Rightarrow> now env h + waitDuration \<le> now env h' \<or>
        (\<exists>u. h' = u @ [GetVSwitchConfig n] \<and> d_vswitch env u n = Inl e \<and> \<not> IsNotFound e)" by blast
  from t(2) have "changes t = []" by (induction t) (auto simp: List.map_filter_def)
  with t(1,3) show thesis by (intro that [of t]) auto
qed

text \<open>The first part reads the API and writes the CNI configuration of the node, and nothing else.\<close>

definition config_written :: "Node \<Rightarrow> change" where
  "config_written node = Wrote cniConfigPath (cni_conf (node_PodCIDR node))"

lemma main_node_follows: "follows change_of [config_written node] (main_node env node)"
proof -
  have w: "follows change_of [] (waitForVSwitchConfig env name)" for name
    by (rule follows_reads [OF performs_mono [OF waitForVSwitchConfig_calls]]) auto
  have i: "follows change_of [config_written node] (installCNIConf env (node_PodCIDR node))"
    by (simp add: installCNIConf_def Let_def config_written_def follows_act)
  show ?thesis
    unfolding main_node_def
    by (auto intro!: follows_fail follows_step [OF i] follows_look [OF w] follows_ok)
qed

lemma main_node_result:
  assumes "run_state (main_node env node) h = (Inr p, h')"
  shows "fst p = node \<and> node_PodCIDR node \<noteq> [] \<and> (\<exists>u. d_vswitch env u (node_Name node) = Inr (snd p))"
proof -
  from assms have pc: "node_PodCIDR node \<noteq> []" and
    run: "run_state (check id (installCNIConf env (node_PodCIDR node)) (\<lambda>_.
        check id (waitForVSwitchConfig env (node_Name node)) (\<lambda>cfg. ok (node, cfg)))) h = (Inr p, h')"
    by (auto simp: main_node_def split: if_split_asm)
  from run obtain h1 where "run_state (check id (waitForVSwitchConfig env (node_Name node)) (\<lambda>cfg. ok (node, cfg))) h1 = (Inr p, h')"
    by (rule run_check_Inr) blast
  then obtain cfg h2 where w: "run_state (waitForVSwitchConfig env (node_Name node)) h1 = (Inr cfg, h2)" and "p = (node, cfg)"
    by (rule run_check_Inr) simp
  moreover from w obtain u where "d_vswitch env u (node_Name node) = Inr cfg" by (rule wait_run) blast
  ultimately show ?thesis using pc by auto
qed

text \<open>The clients and the node are only read: the rest of the start has one node, or there was an error.\<close>

lemma config_run:
  assumes "run_state (main_config env) [] = (r, h)"
  shows "(\<exists>e. r = Inl e) \<and> changes h = [] \<or>
     (\<exists>name node h1. changes h1 = [] \<and> d_node env (butlast h1) name = Inr node \<and> run_state (main_node env node) h1 = (r, h))"
  using assms unfolding main_config_def
  by (elim run_check_cases)
    (auto simp: act_def get_node_def List.map_filter_def split: if_split_asm elim!: run_check_cases)

lemma daemon_run:
  assumes "links_ok env ix" and "run_state (daemon_main env) [] = (r, h)"
  shows "\<exists>node cfg. prefix (changes h) (config_written node # setup_plan ix cfg @ start_plan) \<and>
     (isl r \<or> changes h = config_written node # setup_plan ix cfg @ start_plan \<and> node_PodCIDR node \<noteq> [] \<and>
       (\<exists>u. d_vswitch env u (node_Name node) = Inr cfg)) \<and>
     (\<forall>s. r = Inr s \<longrightarrow> (\<exists>h1 h2. run_state (main_setup env cfg) h1 = (Inr (), h2)) \<and>
       (\<exists>h1 h2. run_state (main_start env node cfg) h1 = (Inr s, h2)))"
proof -
  have plan: "follows change_of (setup_plan ix cfg @ start_plan)
      (check id (main_setup env cfg) (\<lambda>_. main_start env node cfg))" for node cfg
    by (intro follows_then setup_follows [OF assms(1)] start_follows)
  have read: "changes h = [] \<or> (\<exists>node t. changes h = changes t \<and> prefix (changes t) [config_written node])"
    if "run_state (main_config env) [] = (Inl e, h)" for e
  proof -
    from config_run [OF that] consider "changes h = []" |
      node h1 where "changes h1 = []" "run_state (main_node env node) h1 = (Inl e, h)" by blast
    then show ?thesis
    proof cases
      case 2
      from main_node_follows 2(2) obtain t where "h = h1 @ t" "prefix (changes t) [config_written node]" by (rule followsE)
      with 2(1) show ?thesis by (auto simp: map_filter_append)
    qed blast
  qed
  from assms(2) have "run_state (check id (main_config env) (\<lambda>(curNode, cfg).
      check id (main_setup env cfg) (\<lambda>_. main_start env curNode cfg))) [] = (r, h)" by (simp add: daemon_main_def)
  then show ?thesis
  proof (cases rule: run_check_cases)
    case (1 e)
    have "prefix l (w # ws)" if "prefix l [w]" for l ws and w :: change using that by (cases l) auto
    with 1 read [OF 1(1)] show ?thesis by fastforce
  next
    case (2 x h1)
    from config_run [OF 2(1)] obtain node h0 where h0: "changes h0 = []" "run_state (main_node env node) h0 = (Inr x, h1)"
      by auto
    from main_node_result [OF h0(2)] have x: "x = (node, snd x)" "node_PodCIDR node \<noteq> []"
      "\<exists>u. d_vswitch env u (node_Name node) = Inr (snd x)" by (metis prod.collapse, simp_all)
    from main_node_follows h0(2) obtain t where t: "h1 = h0 @ t" "changes t = [config_written node]"
      by (rule followsE) simp
    from 2(2) x(1) have run: "run_state (check id (main_setup env (snd x)) (\<lambda>_. main_start env node (snd x))) h1 = (r, h)"
      by (metis case_prod_conv)
    have parts: "(\<exists>h1 h2. run_state (main_setup env (snd x)) h1 = (Inr (), h2)) \<and>
        (\<exists>h1 h2. run_state (main_start env node (snd x)) h1 = (Inr s, h2))" if "r = Inr s" for s
      using run unfolding that by (rule run_check_Inr) auto
    from plan run obtain u where u: "h = h1 @ u" "prefix (changes u) (setup_plan ix (snd x) @ start_plan)"
      "isl r \<or> changes u = setup_plan ix (snd x) @ start_plan" by (rule followsE)
    have "changes h = config_written node # changes u"
      by (simp add: u(1) t h0(1) map_filter_append)
    with u x(2,3) parts show ?thesis by (intro exI [of _ node] exI [of _ "snd x"]) auto
  qed
qed

section \<open>The bridge and the controller\<close>

lemma start_result:
  assumes "run_state (main_start env node cfg) h = (Inr s, h')"
  shows "\<exists>os br cw. NewController os daemon_bridgeName br cw (node_Name node) (PodCIDR (Spec cfg)) (ClusterCIDR (Spec cfg)) =
    Inr (of_ctrl s)"
  using assms unfolding main_start_def
  by (auto simp: new_controller_def Initialize_def session_Send_def announce_def Let_def
      split: prod.split_asm elim!: run_check_Inr) blast

lemma setup_route:
  assumes "run_state (main_setup env cfg) h = (Inr (), h')"
  shows "\<exists>i n. ParseCIDR (ClusterCIDR (Spec cfg)) = Inr (i, n)"
proof -
  have "\<exists>l r. netlinkRouteForCluster (ClusterCIDR (Spec cfg)) l = Inr r"
    using assms unfolding main_setup_def Let_def
    by (elim run_check_Inr) (blast dest: run_returns)
  then show ?thesis by (cases "ParseCIDR (ClusterCIDR (Spec cfg))") (auto simp: netlinkRouteForCluster_def)
qed

lemma NewController_clusterCIDR: "NewController os b m w n p c = Inr ct \<Longrightarrow> clusterCIDR ct = c"
  by (auto simp: NewController_def Let_def split: sum.split_asm prod.split_asm)

text \<open>The address of the bridge is the gateway the controller announces, and the route the cluster it knows.\<close>

lemma plan_addresses:
  assumes "run_state (main_start env node cfg) h1 = (Inr s, h1')" and "run_state (main_setup env' cfg) h2 = (Inr (), h2')"
  shows "\<exists>a i n j nt. SetAddress ''k-vswitch0'' a \<in> set (setup_plan ix cfg) \<and>
    ParseCIDR (podCIDR (of_ctrl s)) = Inr (i, n) \<and> net_Mask a = net_Mask n \<and> IP_String (net_IP a) = gatewayIP (of_ctrl s) \<and>
    ParseCIDR (clusterCIDR (of_ctrl s)) = Inr (j, nt) \<and>
    SetRoute \<lparr>route_LinkIndex = ix ''cluster-wide'', route_Dst = nt\<rparr> \<in> set (setup_plan ix cfg)"
proof -
  from start_result [OF assms(1)] obtain os br cw where
    c: "NewController os daemon_bridgeName br cw (node_Name node) (PodCIDR (Spec cfg)) (ClusterCIDR (Spec cfg)) = Inr (of_ctrl s)"
    by blast
  from NewController_fields [OF c] obtain i n where p: "podCIDR (of_ctrl s) = PodCIDR (Spec cfg)"
    "ParseCIDR (PodCIDR (Spec cfg)) = Inr (i, n)" "gatewayIP (of_ctrl s) = IP_String (NextIP (Mask (net_IP n) (net_Mask n)))"
    by blast
  have cl: "clusterCIDR (of_ctrl s) = ClusterCIDR (Spec cfg)"
    using c by (rule NewController_clusterCIDR)
  from setup_route [OF assms(2)] obtain j nt where "ParseCIDR (ClusterCIDR (Spec cfg)) = Inr (j, nt)" by blast
  with p cl show ?thesis
    by (intro exI [of _ "\<lparr>net_IP = NextIP (Mask (net_IP n) (net_Mask n)), net_Mask = net_Mask n\<rparr>"]
        exI [of _ i] exI [of _ n] exI [of _ j] exI [of _ nt])
      (simp add: setup_plan_def address_plan_def netlinkAddrForLocal_def Let_def)
qed

section \<open>Which packets are masqueraded\<close>

text \<open>
  The meaning of the rules as \<^verbatim>\<open>iptables-extensions(8)\<close> documents it: a rule is a list of options, each with one
  value and perhaps a \<^verbatim>\<open>!\<close> before it, and matches when all of them do.  How an address is read is the
  parameter \<open>nw\<close>, as in \<^verbatim>\<open>FlowTable\<close>.
\<close>

record nat_packet =
  pk_src :: ip
  pk_dst :: ip
  pk_in :: string
  pk_out :: string
  pk_local :: bool            \<comment> \<open>the destination is an address of this host\<close>

definition option_matches :: "(string \<Rightarrow> ip \<Rightarrow> bool) \<Rightarrow> string \<Rightarrow> string \<Rightarrow> nat_packet \<Rightarrow> bool" where
  "option_matches nw opt v p =
     (if opt = ''-s'' then nw v (pk_src p)
      else if opt = ''-d'' then nw v (pk_dst p)
      else if opt = ''-i'' then pk_in p = v
      else if opt = ''-o'' then pk_out p = v
      else if opt = ''--dst-type'' then v = ''LOCAL'' \<and> pk_local p
      else opt = ''-m'' \<or> opt = ''--comment'' \<or> opt = ''-j'')"

fun rule_matches :: "(string \<Rightarrow> ip \<Rightarrow> bool) \<Rightarrow> string list \<Rightarrow> nat_packet \<Rightarrow> bool" where
  "rule_matches nw [] p = True"
| "rule_matches nw [a] p = False"
| "rule_matches nw (a # b # rest) p =
     (if a = ''!''
      then (case rest of [] \<Rightarrow> False | v # rest' \<Rightarrow> \<not> option_matches nw b v p \<and> rule_matches nw rest' p)
      else option_matches nw a b p \<and> rule_matches nw rest p)"

text \<open>Every rule the daemon appends to \<^verbatim>\<open>POSTROUTING\<close> jumps to \<^verbatim>\<open>MASQUERADE\<close>, so their order does not matter.\<close>

definition masquerades :: "(string \<Rightarrow> ip \<Rightarrow> bool) \<Rightarrow> change list \<Rightarrow> nat_packet \<Rightarrow> bool" where
  "masquerades nw cs p \<longleftrightarrow>
     (\<exists>c\<in>set cs. case c of
        Appended t ch r \<Rightarrow> t = ''nat'' \<and> ch = ''POSTROUTING'' \<and> last r = ''MASQUERADE'' \<and> rule_matches nw r p
      | _ \<Rightarrow> False)"

lemma masquerades_append: "masquerades nw (cs @ ds) p \<longleftrightarrow> masquerades nw cs p \<or> masquerades nw ds p"
  by (auto simp: masquerades_def)

lemma masquerades_Cons:
  "masquerades nw (c # d # cs) p \<longleftrightarrow> masquerades nw [c] p \<or> masquerades nw (d # cs) p"
  by (auto simp: masquerades_def)

lemma masquerades_rule:
  "masquerades nw [Appended t ch r] p \<longleftrightarrow>
     t = ''nat'' \<and> ch = ''POSTROUTING'' \<and> last r = ''MASQUERADE'' \<and> rule_matches nw r p"
  by (simp add: masquerades_def)

lemma setup_masquerades:
  "masquerades nw (config_written node # setup_plan ix cfg @ start_plan) p \<longleftrightarrow>
     nw (PodCIDR (Spec cfg)) (pk_src p) \<and> pk_out p \<noteq> ''k-vswitch0'' \<or>
     \<not> pk_local p \<and> \<not> (nw (ClusterCIDR (Spec cfg)) (pk_dst p) \<and> nw (ServiceCIDR (Spec cfg)) (pk_dst p))"
proof -
  have quiet: "\<not> masquerades nw (address_plan ix cfg) p" "\<not> masquerades nw (bridge_plan cfg) p"
    "\<not> masquerades nw switch_plan p" "\<not> masquerades nw start_plan p" "\<not> masquerades nw [config_written node] p"
    by (auto simp: masquerades_def address_plan_def bridge_plan_def switch_plan_def start_plan_def config_written_def
        split: sum.split)
  have rules: "rule_matches nw (snat_rule cidr what) p \<longleftrightarrow> \<not> nw cidr (pk_dst p) \<and> \<not> pk_local p"
    "rule_matches nw [''-s'', cidr, ''!'', ''-o'', b, ''-j'', ''MASQUERADE''] p \<longleftrightarrow> nw cidr (pk_src p) \<and> pk_out p \<noteq> b"
    "last (snat_rule cidr what) = ''MASQUERADE''" for cidr what b
    by (simp_all add: snat_rule_def option_matches_def)
  have "masquerades nw (map (\<lambda>(t, ch, r). Appended t ch r) (iptables_rules cfg)) p \<longleftrightarrow>
     nw (PodCIDR (Spec cfg)) (pk_src p) \<and> pk_out p \<noteq> ''k-vswitch0'' \<or>
     \<not> pk_local p \<and> \<not> (nw (ClusterCIDR (Spec cfg)) (pk_dst p) \<and> nw (ServiceCIDR (Spec cfg)) (pk_dst p))"
    unfolding iptables_rules_def list.map prod.case masquerades_Cons masquerades_rule rules
    by (cases "pk_local p"; cases "nw (ClusterCIDR (Spec cfg)) (pk_dst p)") simp_all
  moreover have "masquerades nw (config_written node # setup_plan ix cfg @ start_plan) p \<longleftrightarrow>
      masquerades nw [config_written node] p \<or> masquerades nw (setup_plan ix cfg @ start_plan) p"
    using masquerades_append [of nw "[config_written node]" "setup_plan ix cfg @ start_plan" p] by simp
  ultimately show ?thesis
    using quiet by (simp add: setup_plan_def masquerades_append)
qed


end
