(* ===== verification/CniConf.thy ===== *)
theory CniConf
  imports Host GoJson "HOL-Library.AList"
begin

text \<open>
  What the CNI plugin is told: \<^verbatim>\<open>loadNetConf\<close> and \<^verbatim>\<open>getPodInfo\<close> of \<^verbatim>\<open>cmd/k-vswitch-cni/plugin.go\<close>.

  \<^verbatim>\<open>json.Unmarshal\<close> into a struct takes the members one after the other, matches their names without case, leaves a
  field as it is on \<^verbatim>\<open>null\<close>, and is an error if a value has the wrong type.  The tag of \<^verbatim>\<open>IsGW\<close> lacks its closing
  quote, so \<^verbatim>\<open>reflect.StructTag.Get\<close> does not find it and the member's name is the field's own, \<^verbatim>\<open>IsGW\<close>.
  Not covered: the spellings of names with the Unicode characters that fold to \<^verbatim>\<open>k\<close> and \<^verbatim>\<open>s\<close>.

  \<open>lex_part\<close> reads a part of a text, which is how the text the daemon installs is decoded for every pod CIDR.
\<close>

section \<open>The network configuration\<close>

record NetConf =
  CNIVersion :: string
  nc_Name :: string
  nc_Type :: string
  Capabilities :: "(string \<times> bool) list"
  IPAM_Type :: string
  nc_DNS :: DNS
  BridgeName :: string
  IsGW :: bool
  IsDefaultGW :: bool
  ForceAddress :: bool
  IPMasq :: bool
  MTU :: int
  HairpinMode :: bool
  PromiscMode :: bool

definition defaultBridgeName :: string where
  "defaultBridgeName = ''k-vswitch0''"

definition empty_DNS :: DNS where
  "empty_DNS = \<lparr>Nameservers = [], Domain = '''', Search = [], Options = []\<rparr>"

definition default_conf :: NetConf where
  "default_conf = \<lparr>CNIVersion = '''', nc_Name = '''', nc_Type = '''', Capabilities = [], IPAM_Type = '''',
     nc_DNS = empty_DNS, BridgeName = defaultBridgeName, IsGW = False, IsDefaultGW = False, ForceAddress = False,
     IPMasq = False, MTU = 0, HairpinMode = False, PromiscMode = False\<rparr>"

section \<open>Decoding\<close>

fun into_string :: "json \<Rightarrow> string \<Rightarrow> err + string" where
  "into_string JNull cur = Inr cur"
| "into_string (JStr s) cur = Inr s"
| "into_string v cur = Inl JsonError"

fun into_bool :: "json \<Rightarrow> bool \<Rightarrow> err + bool" where
  "into_bool JNull cur = Inr cur"
| "into_bool (JBool b) cur = Inr b"
| "into_bool v cur = Inl JsonError"

fun into_int :: "json \<Rightarrow> int \<Rightarrow> err + int" where
  "into_int JNull cur = Inr cur"
| "into_int (JNum s) cur = (case Atoi s of (n, None) \<Rightarrow> Inr n | _ \<Rightarrow> Inl JsonError)"
| "into_int v cur = Inl JsonError"

primrec into_members ::
  "(string \<Rightarrow> json \<Rightarrow> 'r \<Rightarrow> err + 'r) \<Rightarrow> (string \<times> json) list \<Rightarrow> 'r \<Rightarrow> err + 'r" where
  "into_members f [] cur = Inr cur"
| "into_members f (m # ms) cur =
     (case f (fst m) (snd m) cur of Inl e \<Rightarrow> Inl e | Inr cur' \<Rightarrow> into_members f ms cur')"

fun into_struct :: "(string \<Rightarrow> json \<Rightarrow> 'r \<Rightarrow> err + 'r) \<Rightarrow> json \<Rightarrow> 'r \<Rightarrow> err + 'r" where
  "into_struct f JNull cur = Inr cur"
| "into_struct f (JObj ms) cur = into_members f ms cur"
| "into_struct f v cur = Inl JsonError"

definition set_field :: "('a \<Rightarrow> 'r) \<Rightarrow> err + 'a \<Rightarrow> err + 'r" where
  "set_field upd r = (case r of Inl e \<Rightarrow> Inl e | Inr x \<Rightarrow> Inr (upd x))"

definition capability :: "string \<Rightarrow> json \<Rightarrow> (string \<times> bool) list \<Rightarrow> err + (string \<times> bool) list" where
  "capability k v cur = set_field (\<lambda>b. AList.update k b cur) (into_bool v False)"

definition dns_field :: "string \<Rightarrow> json \<Rightarrow> DNS \<Rightarrow> err + DNS" where
  "dns_field k v d =
     (let name = ToLower k in
      if name = ''nameservers'' then set_field (\<lambda>x. d\<lparr>Nameservers := x\<rparr>) (decode_slice decode_string v)
      else if name = ''domain'' then set_field (\<lambda>x. d\<lparr>Domain := x\<rparr>) (into_string v (Domain d))
      else if name = ''search'' then set_field (\<lambda>x. d\<lparr>Search := x\<rparr>) (decode_slice decode_string v)
      else if name = ''options'' then set_field (\<lambda>x. d\<lparr>Options := x\<rparr>) (decode_slice decode_string v)
      else Inr d)"

definition ipam_field :: "string \<Rightarrow> json \<Rightarrow> string \<Rightarrow> err + string" where
  "ipam_field k v cur = (if ToLower k = ''type'' then into_string v cur else Inr cur)"

definition conf_field :: "string \<Rightarrow> json \<Rightarrow> NetConf \<Rightarrow> err + NetConf" where
  "conf_field k v n =
     (let name = ToLower k in
      if name = ''cniversion'' then set_field (\<lambda>x. n\<lparr>CNIVersion := x\<rparr>) (into_string v (CNIVersion n))
      else if name = ''name'' then set_field (\<lambda>x. n\<lparr>nc_Name := x\<rparr>) (into_string v (nc_Name n))
      else if name = ''type'' then set_field (\<lambda>x. n\<lparr>nc_Type := x\<rparr>) (into_string v (nc_Type n))
      else if name = ''capabilities'' then
        set_field (\<lambda>x. n\<lparr>Capabilities := x\<rparr>)
          (if v = JNull then Inr [] else into_struct capability v (Capabilities n))
      else if name = ''ipam'' then set_field (\<lambda>x. n\<lparr>IPAM_Type := x\<rparr>) (into_struct ipam_field v (IPAM_Type n))
      else if name = ''dns'' then set_field (\<lambda>x. n\<lparr>nc_DNS := x\<rparr>) (into_struct dns_field v (nc_DNS n))
      else if name = ''bridge'' then set_field (\<lambda>x. n\<lparr>BridgeName := x\<rparr>) (into_string v (BridgeName n))
      else if name = ''isgw'' then set_field (\<lambda>x. n\<lparr>IsGW := x\<rparr>) (into_bool v (IsGW n))
      else if name = ''isdefaultgateway'' then set_field (\<lambda>x. n\<lparr>IsDefaultGW := x\<rparr>) (into_bool v (IsDefaultGW n))
      else if name = ''forceaddress'' then set_field (\<lambda>x. n\<lparr>ForceAddress := x\<rparr>) (into_bool v (ForceAddress n))
      else if name = ''ipmasq'' then set_field (\<lambda>x. n\<lparr>IPMasq := x\<rparr>) (into_bool v (IPMasq n))
      else if name = ''mtu'' then set_field (\<lambda>x. n\<lparr>MTU := x\<rparr>) (into_int v (MTU n))
      else if name = ''hairpinmode'' then set_field (\<lambda>x. n\<lparr>HairpinMode := x\<rparr>) (into_bool v (HairpinMode n))
      else if name = ''promiscmode'' then set_field (\<lambda>x. n\<lparr>PromiscMode := x\<rparr>) (into_bool v (PromiscMode n))
      else Inr n)"

definition loadNetConf :: "string \<Rightarrow> err + (NetConf \<times> string)" where
  "loadNetConf bytes =
     (case (case parse_json bytes of None \<Rightarrow> Inl JsonError | Some v \<Rightarrow> into_struct conf_field v default_conf) of
        Inl e \<Rightarrow> Inl (Errorf ''failed to load netconf'' e)
      | Inr n \<Rightarrow> Inr (n, CNIVersion n))"

section \<open>Reading a text in parts\<close>

text \<open>The tokens a part of a text gives, and the mode the scanner is left in.\<close>

fun lex_part :: "lexmode \<Rightarrow> string \<Rightarrow> (token list \<times> lexmode) option" where
  "lex_part m [] = Some ([], m)"
| "lex_part Between (c # s) =
     (if json_space c then lex_part Between s
      else if c = CHR 0x22 then lex_part (InStr []) s
      else (case punctuation c of
              Some t \<Rightarrow> map_option (map_prod ((#) t) id) (lex_part Between s)
            | None \<Rightarrow> lex_part (InLit [c]) s))"
| "lex_part (InLit l) (c # s) =
     (if json_space c then map_option (map_prod ((#) (TLit l)) id) (lex_part Between s)
      else if c = CHR 0x22 then None
      else (case punctuation c of
              Some t \<Rightarrow> map_option (map_prod (\<lambda>ts. TLit l # t # ts) id) (lex_part Between s)
            | None \<Rightarrow> lex_part (InLit (l @ [c])) s))"
| "lex_part (InStr a) (c # s) =
     (if c = CHR 0x22 then map_option (map_prod ((#) (TStr a)) id) (lex_part Between s)
      else if c = CHR 0x5C \<or> byte c < 32 then None
      else lex_part (InStr (a @ [c])) s)"
| "lex_part m s = None"

lemma lex_part_append:
  "lex_part m s = Some (ts, m') \<Longrightarrow>
     lex m (s @ t) = (case lex m' t of None \<Rightarrow> None | Some us \<Rightarrow> Some (ts @ us))"
proof (induction m s arbitrary: ts rule: lex_part.induct)
  case (1 m)
  then show ?case by (simp split: option.split)
qed (auto split: if_split_asm option.splits)

definition plain_text :: "string \<Rightarrow> bool" where
  "plain_text s \<longleftrightarrow> (\<forall>c\<in>set s. c \<noteq> CHR 0x22 \<and> c \<noteq> CHR 0x5C \<and> 32 \<le> byte c)"

lemma lex_part_plain: "plain_text s \<Longrightarrow> lex_part (InStr a) s = Some ([], InStr (a @ s))"
  by (induction s arbitrary: a) (auto simp: plain_text_def)

section \<open>The pod\<close>

definition pod_arg :: "string \<Rightarrow> string \<times> string \<Rightarrow> string \<times> string" where
  "pod_arg arg info =
     (case info of (podNamespace, podName) \<Rightarrow>
        if Contains arg ''K8S_POD_NAMESPACE'' then (TrimPrefix arg ''K8S_POD_NAMESPACE='', podName)
        else if Contains arg ''K8S_POD_NAME'' then (podNamespace, TrimPrefix arg ''K8S_POD_NAME='')
        else (podNamespace, podName))"

definition getPodInfo :: "string \<Rightarrow> err + (string \<times> string)" where
  "getPodInfo cniArgs =
     (if cniArgs = [] then Inl (ErrorMsg ''env var CNI_ARGS was empty'')
      else (let args = Split cniArgs CHR '';'' in Inr (fold pod_arg args ('''', ''''))))"

lemma Contains_name: "Contains (''K8S_POD_NAME='' @ nm) ''K8S_POD_NAMESPACE'' \<longleftrightarrow> Contains nm ''K8S_POD_NAMESPACE''"
  by (simp add: HasPrefix_def)

lemma Contains_prefix: "Contains (sub @ s) sub"
  using HasPrefix_append [of sub s] by (cases "sub @ s") simp_all

end
