(* ===== verification/GoAddr.thy ===== *)
theory GoAddr
  imports GoNet
begin

text \<open>
  What the CNI plugin uses of \<^verbatim>\<open>net\<close> beyond \<^verbatim>\<open>GoNet\<close>: the text of a network, the unspecified addresses, and \<^verbatim>\<open>ParseMAC\<close>.
\<close>

section \<open>The text of a network\<close>

text \<open>The ones at the front of a byte, and the byte without them.\<close>

primrec leading_ones :: "nat \<Rightarrow> 8 word \<Rightarrow> nat \<times> 8 word" where
  "leading_ones 0 v = (0, v)"
| "leading_ones (Suc k) v =
     (if v AND 0x80 \<noteq> 0 then map_prod Suc id (leading_ones k (push_bit 1 v)) else (0, v))"

text \<open>\<^verbatim>\<open>simpleMaskLength\<close>; \<^const>\<open>None\<close> is its \<^verbatim>\<open>-1\<close>.\<close>

primrec simpleMaskLength :: "ip \<Rightarrow> nat option" where
  "simpleMaskLength [] = Some 0"
| "simpleMaskLength (v # vs) =
     (if v = 0xff then map_option ((+) 8) (simpleMaskLength vs)
      else (case leading_ones 8 v of (n, rest) \<Rightarrow>
              if rest \<noteq> 0 \<or> (\<exists>b\<in>set vs. b \<noteq> 0) then None else Some n))"

definition IPMask_String :: "ip \<Rightarrow> string" where
  "IPMask_String m = (if m = [] then ''<nil>'' else hexString m)"

definition IPNet_String :: "IPNet \<Rightarrow> string" where
  "IPNet_String n =
     (case networkNumberAndMask n of (nn, m) \<Rightarrow>
        if nn = [] \<or> m = [] then ''<nil>''
        else (case simpleMaskLength m of
                None \<Rightarrow> IP_String nn @ ''/'' @ IPMask_String m
              | Some l \<Rightarrow> IP_String nn @ ''/'' @ utoa l))"

definition IPv4zero :: ip where
  "IPv4zero = v4InV6Prefix @ [0, 0, 0, 0]"

definition IPv6zero :: ip where
  "IPv6zero = replicate 16 0"

text \<open>The masks of \<^verbatim>\<open>CIDRMask\<close> have their length back, so a network in canonical form prints as a CIDR.\<close>

lemma leading_ones_mask:
  assumes "n < 8"
  shows "leading_ones 8 (NOT (drop_bit n 0xff)) = (n, 0)" "NOT (drop_bit n 0xff) \<noteq> (0xff :: 8 word)"
proof -
  have "list_all (\<lambda>n. leading_ones 8 (NOT (drop_bit n 0xff)) = (n, 0) \<and> NOT (drop_bit n 0xff) \<noteq> (0xff :: 8 word)) [0..<8]"
    by code_simp
  with assms show "leading_ones 8 (NOT (drop_bit n 0xff)) = (n, 0)" "NOT (drop_bit n 0xff) \<noteq> (0xff :: 8 word)"
    by (simp_all add: list_all_iff)
qed

lemma zero_mask: "b \<in> set (CIDRMask_loop l 0) \<Longrightarrow> b = 0"
proof (induction l)
  case (Suc l)
  have "(0xff :: 8 word) = - 1" by simp
  then have "NOT (drop_bit 0 0xff) = (0 :: 8 word)" by (simp only: drop_bit_0 id_apply bit.compl_one)
  with Suc show ?case by (auto simp del: drop_bit_0)
qed simp

lemma simpleMaskLength_CIDRMask: "n \<le> 8 * l \<Longrightarrow> simpleMaskLength (CIDRMask_loop l n) = Some n"
proof (induction l arbitrary: n)
  case (Suc l)
  show ?case
  proof (cases "n < 8")
    case True
    with leading_ones_mask [OF True] zero_mask [of _ l] show ?thesis by auto
  next
    case False
    with Suc show ?thesis by simp
  qed
qed simp

theorem IPNet_String_v4:
  assumes "n \<le> 32"
  shows "IPNet_String \<lparr>net_IP = [a, b, c, d], net_Mask = CIDRMask n 32\<rparr> = dotted a b c d @ ''/'' @ utoa n"
proof -
  have m: "CIDRMask n 32 = CIDRMask_loop 4 n" by (simp add: CIDRMask_def)
  have "CIDRMask_loop 4 n \<noteq> []" using length_CIDRMask_loop [of 4 n] by force
  then show ?thesis
    using assms by (simp add: IPNet_String_def networkNumberAndMask_v4 m simpleMaskLength_CIDRMask)
qed

section \<open>\<^verbatim>\<open>ParseMAC\<close>\<close>

text \<open>\<^verbatim>\<open>xtoi2\<close>: two hexadecimal digits, then the separator \<open>e\<close> or the end of the text.\<close>

definition xtoi2 :: "string \<Rightarrow> char option \<Rightarrow> 8 word option" where
  "xtoi2 s e =
     (if length s > 2 \<and> e \<noteq> Some (s ! 2) then None
      else (case xtoi (take 2 s) of
              Some (n, []) \<Rightarrow> if length (take 2 s) = 2 then Some (word_of_nat n) else None
            | _ \<Rightarrow> None))"

primrec parse_mac_pairs :: "nat \<Rightarrow> char \<Rightarrow> string \<Rightarrow> 8 word list option" where
  "parse_mac_pairs 0 e s = Some []"
| "parse_mac_pairs (Suc k) e s =
     (case xtoi2 s (Some e) of
        None \<Rightarrow> None
      | Some b \<Rightarrow> map_option ((#) b) (parse_mac_pairs k e (drop 3 s)))"

primrec parse_mac_quads :: "nat \<Rightarrow> string \<Rightarrow> 8 word list option" where
  "parse_mac_quads 0 s = Some []"
| "parse_mac_quads (Suc k) s =
     (case (xtoi2 (take 2 s) None, xtoi2 (drop 2 s) (Some CHR ''.'')) of
        (Some a, Some b) \<Rightarrow> map_option (\<lambda>bs. a # b # bs) (parse_mac_quads k (drop 5 s))
      | _ \<Rightarrow> None)"

definition ParseMAC :: "string \<Rightarrow> err + 8 word list" where
  "ParseMAC s =
     (let bad = Inl (ParseError s) in
      if length s < 14 then bad
      else if s ! 2 = CHR '':'' \<or> s ! 2 = CHR ''-'' then
        (let n = (length s + 1) div 3 in
         if (length s + 1) mod 3 \<noteq> 0 \<or> n \<notin> {6, 8, 20} then bad
         else (case parse_mac_pairs n (s ! 2) s of None \<Rightarrow> bad | Some hw \<Rightarrow> Inr hw))
      else if s ! 4 = CHR ''.'' then
        (let n = 2 * (length s + 1) div 5 in
         if (length s + 1) mod 5 \<noteq> 0 \<or> n \<notin> {6, 8, 20} then bad
         else (case parse_mac_quads (n div 2) s of None \<Rightarrow> bad | Some hw \<Rightarrow> Inr hw))
      else bad)"

end
