(* ===== verification/CniHelpers.thy ===== *)
theory CniHelpers
  imports GoAddr GoPath Host
begin

text \<open>
  What the CNI plugin calls of the CNI project's vendored \<^verbatim>\<open>plugins/pkg\<close>: \<^verbatim>\<open>ip/link_linux.go\<close> (the pair of devices),
  \<^verbatim>\<open>ip/ipmasq_linux.go\<close> with \<^verbatim>\<open>utils/utils.go\<close> (the rules that masquerade a pod's network), \<^verbatim>\<open>ipam/ipam_linux.go\<close> (the
  addresses and routes of an interface), \<^verbatim>\<open>utils/sysctl\<close>.  Netlink, files and the nat table are the host.  \<^verbatim>\<open>SettleAddresses\<close>,
  which only waits, is one call.

  \<open>make_veth_attempts\<close>: how often a pair is tried.  \<open>ConfigureIface_follows\<close>: what an interface is given, and in which order.
\<close>

section \<open>The environment\<close>

record cni_host = host +
  c_random :: "history \<Rightarrow> err + 8 word list"
  c_addrs :: "history \<Rightarrow> Link \<Rightarrow> int \<Rightarrow> IPNet list \<times> err option"
  c_chains :: "history \<Rightarrow> bool \<Rightarrow> err + string list"
  c_ipam :: "history \<Rightarrow> string \<Rightarrow> string \<Rightarrow> err + string"
  c_convert :: "string \<Rightarrow> err + Result"        \<comment> \<open>\<^verbatim>\<open>current.NewResultFromResult\<close>\<close>
  c_sha512 :: "string \<Rightarrow> 8 word list"
  c_quote :: "string \<Rightarrow> string"                \<comment> \<open>the verb \<^verbatim>\<open>%q\<close>\<close>

definition panic :: err where
  "panic = ErrorMsg ''runtime error: index out of range''"

definition EEXIST :: err where
  "EEXIST = ErrorMsg ''file exists''"

definition ErrLinkNotFound :: err where
  "ErrLinkNotFound = ErrorMsg ''link not found''"

text \<open>A call whose result is ignored.\<close>

definition silent :: "call \<Rightarrow> (call list, unit) state" where
  "silent c = call (\<lambda>h. ()) c"

definition addr_list :: "'a cni_host_scheme \<Rightarrow> Link \<Rightarrow> int \<Rightarrow> (call list, IPNet list \<times> err option) state" where
  "addr_list env br family = call (\<lambda>h. c_addrs env h br family) (AddrList br family)"

section \<open>The pair of devices\<close>

definition makeVethPair :: "'a host_scheme \<Rightarrow> string \<Rightarrow> string \<Rightarrow> int \<Rightarrow> (call, Link) io" where
  "makeVethPair env name peer mtu =
     check id (act env (LinkAdd name peer mtu)) (\<lambda>_.
     on_failure (link_by_name env name) (silent (LinkDel name)))"

definition peerExists :: "'a host_scheme \<Rightarrow> string \<Rightarrow> (call list, bool) state" where
  "peerExists env name = do { r \<leftarrow> link_by_name env name; State_Monad.return (\<not> isl r) }"

definition RandomVethName :: "'a cni_host_scheme \<Rightarrow> (call, string) io" where
  "RandomVethName env =
     check (Errorf ''failed to generate random veth name'') (call (\<lambda>h. c_random env h) ReadEntropy) (\<lambda>entropy.
     ok (''veth'' @ hexString entropy))"

text \<open>The loop of \<^verbatim>\<open>makeVeth\<close> with \<open>n\<close> attempts left.\<close>

primrec veth_attempts :: "nat \<Rightarrow> 'a cni_host_scheme \<Rightarrow> string \<Rightarrow> int \<Rightarrow> (call, string \<times> Link) io" where
  "veth_attempts 0 env name mtu = fail (ErrorMsg ''failed to find a unique veth name'')"
| "veth_attempts (Suc n) env name mtu =
     check id (RandomVethName env) (\<lambda>peerName.
     do { r \<leftarrow> makeVethPair env name peerName mtu;
       case r of
         Inr veth \<Rightarrow> ok (peerName, veth)
       | Inl e \<Rightarrow>
           if e = EEXIST then
             do { exists \<leftarrow> peerExists env peerName;
               if exists then veth_attempts n env name mtu
               else fail (ErrorMsg ''container veth name provided already exists'') }
           else fail (Errorf ''failed to make veth pair'' e) })"

definition makeVeth :: "'a cni_host_scheme \<Rightarrow> string \<Rightarrow> int \<Rightarrow> (call, string \<times> Link) io" where
  "makeVeth env name mtu = veth_attempts 10 env name mtu"

definition in_host_ns :: "'a host_scheme \<Rightarrow> (call, 'b) io \<Rightarrow> (call, 'b) io" where
  "in_host_ns env body = check id (act env EnterHostNS) (\<lambda>_. deferred body (silent LeaveHostNS))"

definition ifaceFromNetlinkLink :: "Link \<Rightarrow> Interface" where
  "ifaceFromNetlinkLink l = \<lparr>if_Name = link_Name l, if_Mac = HardwareAddr_String (link_HardwareAddr l), if_Sandbox = ''''\<rparr>"

definition SetupVeth :: "'a cni_host_scheme \<Rightarrow> string \<Rightarrow> int \<Rightarrow> (call, Interface \<times> Interface) io" where
  "SetupVeth env contVethName mtu =
     check id (makeVeth env contVethName mtu) (\<lambda>(hostVethName, contVeth).
     check (Errorf ''failed to set up'') (act env (LinkSetUp contVeth)) (\<lambda>_.
     check (Errorf ''failed to lookup'') (link_by_name env hostVethName) (\<lambda>hostVeth.
     check (Errorf ''failed to move veth to host netns'') (act env (LinkSetNs hostVeth)) (\<lambda>_.
     check id
       (in_host_ns env
         (check (Errorf ''failed to lookup'') (link_by_name env hostVethName) (\<lambda>hostVeth.
          check (Errorf ''failed to set up'') (act env (LinkSetUp hostVeth)) (\<lambda>_. ok hostVeth)))) (\<lambda>hostVeth.
     ok (ifaceFromNetlinkLink hostVeth, ifaceFromNetlinkLink contVeth))))))"

section \<open>Removing a device\<close>

definition IsUnspecified :: "ip \<Rightarrow> bool" where
  "IsUnspecified ip \<longleftrightarrow> To4 ip = [0, 0, 0, 0] \<or> ip = IPv6zero"

definition IsLoopback :: "ip \<Rightarrow> bool" where
  "IsLoopback ip \<longleftrightarrow> (if To4 ip \<noteq> [] then hd (To4 ip) = 127 else ip = replicate 15 0 @ [1])"

definition IsMulticast :: "ip \<Rightarrow> bool" where
  "IsMulticast ip \<longleftrightarrow> (if To4 ip \<noteq> [] then hd (To4 ip) AND 0xf0 = 0xe0 else length ip = 16 \<and> hd ip = 0xff)"

definition IsLinkLocalUnicast :: "ip \<Rightarrow> bool" where
  "IsLinkLocalUnicast ip \<longleftrightarrow>
     (if To4 ip \<noteq> [] then hd (To4 ip) = 169 \<and> To4 ip ! 1 = 254
      else length ip = 16 \<and> hd ip = 0xfe \<and> ip ! 1 AND 0xc0 = 0x80)"

definition IsGlobalUnicast :: "ip \<Rightarrow> bool" where
  "IsGlobalUnicast ip \<longleftrightarrow>
     (length ip = 4 \<or> length ip = 16) \<and> To4 ip \<noteq> [255, 255, 255, 255] \<and> \<not> IsUnspecified ip \<and>
     \<not> IsLoopback ip \<and> \<not> IsMulticast ip \<and> \<not> IsLinkLocalUnicast ip"

definition DelLinkByNameAddr :: "'a cni_host_scheme \<Rightarrow> string \<Rightarrow> (call, IPNet list) io" where
  "DelLinkByNameAddr env ifName =
     check (\<lambda>e. if e = ErrorMsg ''Link not found'' then ErrLinkNotFound else Errorf ''failed to lookup'' e)
       (link_by_name env ifName) (\<lambda>iface.
     do { (addrs, err) \<leftarrow> addr_list env iface 0;
       case err of
         Some e \<Rightarrow> fail (Errorf ''failed to get IP addresses'' e)
       | None \<Rightarrow>
           check (Errorf ''failed to delete'') (act env (LinkDel ifName)) (\<lambda>_.
           ok (filter (\<lambda>addr. IsGlobalUnicast (net_IP addr)) addrs)) })"

section \<open>Masquerading\<close>

definition FormatChainName :: "'a cni_host_scheme \<Rightarrow> string \<Rightarrow> string \<Rightarrow> string" where
  "FormatChainName env name cid = take 28 (''CNI-'' @ hexString (c_sha512 env (name @ cid)))"

definition FormatComment :: "'a cni_host_scheme \<Rightarrow> string \<Rightarrow> string \<Rightarrow> string" where
  "FormatComment env name cid = ''name: '' @ c_quote env name @ '' id: '' @ c_quote env cid"

text \<open>The vendored \<^verbatim>\<open>ip.Network\<close>.\<close>

definition Network :: "IPNet \<Rightarrow> IPNet" where
  "Network ipn = \<lparr>net_IP = Mask (net_IP ipn) (net_Mask ipn), net_Mask = net_Mask ipn\<rparr>"

definition commented :: "string list \<Rightarrow> string \<Rightarrow> string list" where
  "commented rule comment = rule @ [''-m'', ''comment'', ''--comment'', comment]"

definition ipt_chains :: "'a cni_host_scheme \<Rightarrow> bool \<Rightarrow> (call, string list) io" where
  "ipt_chains env isV6 = call (\<lambda>h. c_chains env h isV6) (Ipt isV6 ListChains)"

definition SetupIPMasq :: "'a cni_host_scheme \<Rightarrow> IPNet \<Rightarrow> string \<Rightarrow> string \<Rightarrow> (call, unit) io" where
  "SetupIPMasq env ipn chain comment =
     (let isV6 = To4 (net_IP ipn) = [];
          multicastNet = (if isV6 then ''ff00::/8'' else ''224.0.0.0/4'')
      in
      check (Errorf ''failed to locate iptables'') (act env (IptNew isV6)) (\<lambda>_.
      check (Errorf ''failed to list chains'') (ipt_chains env isV6) (\<lambda>chains.
      check id (if chain \<in> set chains then ok () else act env (Ipt isV6 (NewChain chain))) (\<lambda>_.
      check id (act env (Ipt isV6 (AppendRule chain
        (commented [''-d'', IPNet_String ipn, ''-j'', ''ACCEPT''] comment)))) (\<lambda>_.
      check id (act env (Ipt isV6 (AppendRule chain
        (commented [''!'', ''-d'', multicastNet, ''-j'', ''MASQUERADE''] comment)))) (\<lambda>_.
      act env (Ipt isV6 (AppendRule ''POSTROUTING''
        (commented [''-s'', IPNet_String ipn, ''-j'', chain] comment)))))))))"

definition TeardownIPMasq :: "'a cni_host_scheme \<Rightarrow> IPNet \<Rightarrow> string \<Rightarrow> string \<Rightarrow> (call, unit) io" where
  "TeardownIPMasq env ipn chain comment =
     (let isV6 = To4 (net_IP ipn) = [] in
      check (Errorf ''failed to locate iptables'') (act env (IptNew isV6)) (\<lambda>_.
      check id (act env (Ipt isV6 (DeleteRule ''POSTROUTING''
        (commented [''-s'', IPNet_String ipn, ''-j'', chain] comment)))) (\<lambda>_.
      check id (act env (Ipt isV6 (ClearChain chain))) (\<lambda>_.
      act env (Ipt isV6 (DeleteChain chain))))))"

section \<open>The addresses and routes of an interface\<close>

definition sysctl_path :: "string \<Rightarrow> string" where
  "sysctl_path name = path_Join [''/proc/sys'', map (\<lambda>c. if c = CHR ''.'' then CHR ''/'' else c) name]"

definition getSysctl :: "'a host_scheme \<Rightarrow> string \<Rightarrow> (call, string) io" where
  "getSysctl env name =
     check id (read_file env (sysctl_path name)) (\<lambda>data. if data = [] then fail panic else ok (butlast data))"

definition setSysctl :: "'a host_scheme \<Rightarrow> string \<Rightarrow> string \<Rightarrow> (call, string) io" where
  "setSysctl env name value = check id (act env (WriteFile (sysctl_path name) value)) (\<lambda>_. getSysctl env name)"

definition enable_ipv6 :: "'a host_scheme \<Rightarrow> string \<Rightarrow> (call, unit) io" where
  "enable_ipv6 env ifName =
     each (\<lambda>iface.
       let name = ''net.ipv6.conf.'' @ iface @ ''.disable_ipv6'' in
       do { r \<leftarrow> getSysctl env name;
         case r of
           Inl e \<Rightarrow> if e = panic then fail e else ok ()
         | Inr value \<Rightarrow>
             if value = ''0'' then ok ()
             else check (Errorf ''failed to enable IPv6'') (setSysctl env name ''0'') (\<lambda>_. ok ()) })
       [''lo'', ifName]"

text \<open>The loop over the addresses; it returns the first gateway of each family.\<close>

primrec add_ips ::
  "'a host_scheme \<Rightarrow> string \<Rightarrow> Interface list \<Rightarrow> Link \<Rightarrow> IPConfig list \<Rightarrow> ip \<Rightarrow> ip \<Rightarrow> bool \<Rightarrow> (call, ip \<times> ip) io" where
  "add_ips env ifName ifaces link [] v4gw v6gw has_enabled_ipv6 = ok (v4gw, v6gw)"
| "add_ips env ifName ifaces link (ipc # ips) v4gw v6gw has_enabled_ipv6 =
     (case ipc_Interface ipc of
        None \<Rightarrow> add_ips env ifName ifaces link ips v4gw v6gw has_enabled_ipv6
      | Some intIdx \<Rightarrow>
          if intIdx < 0 \<or> int (length ifaces) \<le> intIdx \<or> if_Name (ifaces ! nat intIdx) \<noteq> ifName
          then fail (ErrorMsg ''failed to add IP addr: invalid interface index'')
          else
            (let enable = \<not> has_enabled_ipv6 \<and> ipc_Version ipc = ''6'';
                 gwIsV4 = To4 (ipc_Gateway ipc) \<noteq> [];
                 v4 = (if gwIsV4 \<and> v4gw = [] then ipc_Gateway ipc else v4gw);
                 v6 = (if \<not> gwIsV4 \<and> v6gw = [] then ipc_Gateway ipc else v6gw)
             in
             check id (if enable then enable_ipv6 env ifName else ok ()) (\<lambda>_.
             check (Errorf ''failed to add IP addr'') (act env (AddrAdd link (ipc_Address ipc))) (\<lambda>_.
             add_ips env ifName ifaces link ips v4 v6 (has_enabled_ipv6 \<or> enable)))))"

definition route_gateway :: "ip \<Rightarrow> ip \<Rightarrow> Route \<Rightarrow> ip" where
  "route_gateway v4gw v6gw r =
     (let routeIsV4 = To4 (net_IP (rt_Dst r)) \<noteq> [] in
      if rt_GW r \<noteq> [] then rt_GW r
      else if routeIsV4 \<and> v4gw \<noteq> [] then v4gw
      else if \<not> routeIsV4 \<and> v6gw \<noteq> [] then v6gw else [])"

definition add_route :: "'a host_scheme \<Rightarrow> Link \<Rightarrow> ip \<Rightarrow> ip \<Rightarrow> Route \<Rightarrow> (call, unit) io" where
  "add_route env link v4gw v6gw r =
     do { res \<leftarrow> act env (RouteAdd (rt_Dst r) (route_gateway v4gw v6gw r) link);
       case res of
         Inl e \<Rightarrow> if e = EEXIST then ok () else fail (Errorf ''failed to add route'' e)
       | Inr _ \<Rightarrow> ok () }"

definition ConfigureIface :: "'a host_scheme \<Rightarrow> string \<Rightarrow> Result \<Rightarrow> (call, unit) io" where
  "ConfigureIface env ifName res =
     (if Interfaces res = [] then fail (ErrorMsg ''no interfaces to configure'')
      else
        check (Errorf ''failed to lookup'') (link_by_name env ifName) (\<lambda>link.
        check (Errorf ''failed to set UP'') (act env (LinkSetUp link)) (\<lambda>_.
        check id (add_ips env ifName (Interfaces res) link (IPs res) [] [] False) (\<lambda>(v4gw, v6gw).
        do { _ \<leftarrow> (if v6gw \<noteq> [] then silent (SettleAddresses ifName 10) else State_Monad.return ());
          each (add_route env link v4gw v6gw) (Routes res) }))))"

section \<open>How a pair comes about\<close>

definition is_link_add :: "call \<Rightarrow> bool" where
  "is_link_add c \<longleftrightarrow> (\<exists>n p m. c = LinkAdd n p m)"

lemma is_link_add_simps [simp]:
  "is_link_add (LinkAdd n p m)" "\<not> is_link_add ReadEntropy" "\<not> is_link_add (LinkByName n)"
  by (simp_all add: is_link_add_def)

lemma makeVethPair_success:
  assumes "run_state (makeVethPair env name peer mtu) h = (Inr veth, h')"
  shows "h' = h @ [LinkAdd name peer mtu, LinkByName name] \<and> h_link env (h @ [LinkAdd name peer mtu]) name = Inr veth"
  using assms
  by (auto simp: makeVethPair_def act_def link_by_name_def run_on_failure split: sum.split_asm elim!: run_check_Inr)

text \<open>An attempt that finds its name taken is one \<^const>\<open>LinkAdd\<close>, and looks the name up.\<close>

lemma makeVethPair_exists:
  assumes "run_state (makeVethPair env name peer mtu) h = (Inl EEXIST, h')"
  shows "\<exists>u. h' = h @ LinkAdd name peer mtu # u \<and> filter is_link_add u = []"
  using assms
  by (auto simp: makeVethPair_def act_def link_by_name_def run_on_failure silent_def is_link_add_def
      split: sum.split_asm elim!: run_check_cases)

lemma veth_attempts_success:
  assumes "run_state (veth_attempts n env name mtu) h = (Inr (peer, veth), h')"
  shows "\<exists>pre e. h' = h @ pre @ [LinkAdd name peer mtu, LinkByName name] \<and> length (filter is_link_add pre) < n \<and>
    peer = ''veth'' @ hexString e \<and> h_link env (h @ pre @ [LinkAdd name peer mtu]) name = Inr veth"
  using assms
proof (induction n arbitrary: h)
  case (Suc n)
  from Suc.prems obtain p h1 where p: "run_state (RandomVethName env) h = (Inr p, h1)" and
    rest: "run_state (do { r \<leftarrow> makeVethPair env name p mtu;
       case r of
         Inr veth \<Rightarrow> ok (p, veth)
       | Inl e \<Rightarrow>
           if e = EEXIST then
             do { exists \<leftarrow> peerExists env p;
               if exists then veth_attempts n env name mtu
               else fail (ErrorMsg ''container veth name provided already exists'') }
           else fail (Errorf ''failed to make veth pair'' e) }) h1 = (Inr (peer, veth), h')"
    by (auto elim!: run_check_Inr)
  from p obtain e where e: "p = ''veth'' @ hexString e" "h1 = h @ [ReadEntropy]"
    by (auto simp: RandomVethName_def elim!: run_check_Inr)
  obtain r h2 where r: "run_state (makeVethPair env name p mtu) h1 = (r, h2)" by fastforce
  show ?case
  proof (cases r)
    case (Inr v)
    with rest r have v: "p = peer" "v = veth" "h2 = h'" by simp_all
    with makeVethPair_success [OF r [unfolded Inr]] e show ?thesis
      by (intro exI [of _ "[ReadEntropy]"] exI [of _ e]) simp
  next
    case (Inl err)
    with rest r have ex: "err = EEXIST" by (auto split: if_split_asm)
    from makeVethPair_exists [OF r [unfolded Inl ex]] obtain u where
      u: "h2 = h1 @ LinkAdd name p mtu # u" "filter is_link_add u = []" by blast
    from rest r Inl ex have "run_state (veth_attempts n env name mtu) (h2 @ [LinkByName p]) = (Inr (peer, veth), h')"
      by (auto simp: peerExists_def link_by_name_def split: if_split_asm)
    from Suc.IH [OF this] obtain pre e' where pre: "h' = (h2 @ [LinkByName p]) @ pre @ [LinkAdd name peer mtu, LinkByName name]"
      "length (filter is_link_add pre) < n" "peer = ''veth'' @ hexString e'"
      "h_link env ((h2 @ [LinkByName p]) @ pre @ [LinkAdd name peer mtu]) name = Inr veth" by blast
    with u e show ?thesis
      by (intro exI [of _ "ReadEntropy # LinkAdd name p mtu # u @ LinkByName p # pre"] exI [of _ e']) simp
  qed
qed simp

theorem SetupVeth_success:
  assumes "links_ok env ix" and "run_state (SetupVeth env name mtu) h = (Inr (hv, cv), h')"
  shows "\<exists>pre c l l'. h' = h @ pre @ [LinkAdd name (if_Name hv) mtu, LinkByName name, LinkSetUp c, LinkByName (if_Name hv),
      LinkSetNs l, EnterHostNS, LinkByName (if_Name hv), LinkSetUp l', LeaveHostNS] \<and>
    length (filter is_link_add pre) < 10 \<and> (\<exists>e. if_Name hv = ''veth'' @ hexString e) \<and> if_Name cv = name \<and>
    link_Name c = name \<and> link_Name l = if_Name hv \<and> link_Name l' = if_Name hv"
proof -
  from assms(2) obtain peer c h1 l l' where m: "run_state (makeVeth env name mtu) h = (Inr (peer, c), h1)"
    and l: "h_link env (h1 @ [LinkSetUp c]) peer = Inr l"
    and l': "h_link env (h1 @ [LinkSetUp c, LinkByName peer, LinkSetNs l, EnterHostNS]) peer = Inr l'"
    and res: "hv = ifaceFromNetlinkLink l'" "cv = ifaceFromNetlinkLink c"
      "h' = h1 @ [LinkSetUp c, LinkByName peer, LinkSetNs l, EnterHostNS, LinkByName peer, LinkSetUp l', LeaveHostNS]"
    unfolding SetupVeth_def in_host_ns_def
    by (auto simp: run_deferred act_def link_by_name_def silent_def Let_def split: prod.split_asm elim!: run_check_Inr)
  from veth_attempts_success [OF m [unfolded makeVeth_def]] obtain pre e where
    v: "h1 = h @ pre @ [LinkAdd name peer mtu, LinkByName name]" "length (filter is_link_add pre) < 10"
    "peer = ''veth'' @ hexString e" "h_link env (h @ pre @ [LinkAdd name peer mtu]) name = Inr c" by blast
  have names: "link_Name c = name" "link_Name l = peer" "link_Name l' = peer"
    using assms(1) v(4) l l' by (simp_all add: links_ok_def)
  with v res show ?thesis by (auto simp: ifaceFromNetlinkLink_def)
qed

section \<open>What an interface is given\<close>

datatype given = GivenAddress IPNet | GivenRoute IPNet ip

fun given_by :: "call \<Rightarrow> given option" where
  "given_by (AddrAdd l a) = Some (GivenAddress a)"
| "given_by (RouteAdd d gw l) = Some (GivenRoute d gw)"
| "given_by _ = None"

text \<open>The first gateway of a family.\<close>

definition first_gateway :: "bool \<Rightarrow> IPConfig list \<Rightarrow> ip" where
  "first_gateway v4 ips =
     (case filter (\<lambda>g. g \<noteq> [] \<and> (To4 g \<noteq> [] \<longleftrightarrow> v4)) (map ipc_Gateway ips) of [] \<Rightarrow> [] | g # _ \<Rightarrow> g)"

lemma To4_nil: "To4 [] = []"
  by (simp add: To4_def)

lemma add_ips_gateways:
  assumes "run_state (add_ips env ifName ifs link ips v4 v6 b) h = (Inr (g4, g6), h')"
    and "\<forall>ipc\<in>set ips. ipc_Interface ipc \<noteq> None"
  shows "g4 = (if v4 \<noteq> [] then v4 else first_gateway True ips) \<and> g6 = (if v6 \<noteq> [] then v6 else first_gateway False ips)"
  using assms
proof (induction ips arbitrary: v4 v6 b h)
  case (Cons ipc ips)
  from Cons.prems(2) obtain i where i: "ipc_Interface ipc = Some i" by auto
  let ?v4 = "if To4 (ipc_Gateway ipc) \<noteq> [] \<and> v4 = [] then ipc_Gateway ipc else v4"
  let ?v6 = "if To4 (ipc_Gateway ipc) = [] \<and> v6 = [] then ipc_Gateway ipc else v6"
  from Cons.prems(1) i obtain b' h1 where
    "run_state (add_ips env ifName ifs link ips ?v4 ?v6 b') h1 = (Inr (g4, g6), h')"
    by (auto simp: Let_def split: if_split_asm elim!: run_check_Inr)
  from Cons.IH [OF this] Cons.prems(2) have
    "g4 = (if ?v4 \<noteq> [] then ?v4 else first_gateway True ips)" "g6 = (if ?v6 \<noteq> [] then ?v6 else first_gateway False ips)"
    by auto
  then show ?case by (auto simp: first_gateway_def To4_nil split: if_split_asm)
qed (simp add: first_gateway_def)

lemma reads_enable_ipv6: "performs (\<lambda>c. given_by c = None) (enable_ipv6 env n)"
  unfolding enable_ipv6_def getSysctl_def setSysctl_def Let_def
  by (intro performs_each) (auto intro!: effects performs_bind split: sum.split)

lemma add_ips_follows:
  assumes "\<forall>ipc\<in>set ips. ipc_Interface ipc \<noteq> None"
  shows "follows given_by (map (\<lambda>ipc. GivenAddress (ipc_Address ipc)) ips) (add_ips env ifName ifs link ips v4 v6 b)"
  using assms
proof (induction ips arbitrary: v4 v6 b)
  case Nil
  then show ?case by (simp add: follows_ok)
next
  case (Cons ipc ips)
  from Cons.prems obtain i where i: "ipc_Interface ipc = Some i" by auto
  have en: "follows given_by [] (if c then enable_ipv6 env ifName else ok ())" for c
    by (simp add: follows_ok follows_reads [OF reads_enable_ipv6])
  have add: "follows given_by [GivenAddress (ipc_Address ipc)] (act env (AddrAdd link (ipc_Address ipc)))"
    by (simp add: act_def follows_call)
  have step: "follows given_by ([] @ [GivenAddress (ipc_Address ipc)] @ map (\<lambda>ipc. GivenAddress (ipc_Address ipc)) ips)
     (check id (if c then enable_ipv6 env ifName else ok ()) (\<lambda>_.
      check w (act env (AddrAdd link (ipc_Address ipc))) (\<lambda>_. add_ips env ifName ifs link ips x y z)))" for c w x y z
    by (intro follows_check en add Cons.IH) (use Cons.prems in auto)
  show ?case
  proof (cases "i < 0 \<or> int (length ifs) \<le> i \<or> if_Name (ifs ! nat i) \<noteq> ifName")
    case True
    with i show ?thesis by (auto simp: follows_fail)
  next
    case False
    let ?v4 = "if To4 (ipc_Gateway ipc) \<noteq> [] \<and> v4 = [] then ipc_Gateway ipc else v4"
    let ?v6 = "if \<not> To4 (ipc_Gateway ipc) \<noteq> [] \<and> v6 = [] then ipc_Gateway ipc else v6"
    let ?c = "\<not> b \<and> ipc_Version ipc = ''6''"
    have eq: "add_ips env ifName ifs link (ipc # ips) v4 v6 b =
      check id (if ?c then enable_ipv6 env ifName else ok ()) (\<lambda>_.
      check (Errorf ''failed to add IP addr'') (act env (AddrAdd link (ipc_Address ipc))) (\<lambda>_.
      add_ips env ifName ifs link ips ?v4 ?v6 (b \<or> ?c)))"
      unfolding add_ips.simps i option.case Let_def if_not_P [OF False] ..
    show ?thesis unfolding eq using step by simp
  qed
qed

lemma add_route_follows:
  "follows given_by [GivenRoute (rt_Dst r) (route_gateway v4 v6 r)] (add_route env link v4 v6 r)"
  unfolding follows_def by (auto simp: add_route_def act_def List.map_filter_def split: sum.split)

lemma add_routes_follows:
  "follows given_by (map (\<lambda>r. GivenRoute (rt_Dst r) (route_gateway v4 v6 r)) rs) (each (add_route env link v4 v6) rs)"
proof (induction rs)
  case (Cons r rs)
  from follows_check [OF add_route_follows Cons.IH, where w = id] show ?case by simp
qed (simp add: follows_ok)

theorem ConfigureIface_follows:
  assumes "\<forall>ipc\<in>set (IPs res). ipc_Interface ipc \<noteq> None"
  shows "follows given_by (map (\<lambda>ipc. GivenAddress (ipc_Address ipc)) (IPs res) @
    map (\<lambda>r. GivenRoute (rt_Dst r) (route_gateway (first_gateway True (IPs res)) (first_gateway False (IPs res)) r)) (Routes res))
    (ConfigureIface env ifName res)"
proof (cases "Interfaces res = []")
  case False
  let ?routes = "\<lambda>g4 g6. map (\<lambda>r. GivenRoute (rt_Dst r) (route_gateway g4 g6 r)) (Routes res)"
  let ?ips = "map (\<lambda>ipc. GivenAddress (ipc_Address ipc)) (IPs res)"
  have link: "follows given_by [] (link_by_name env n)" "follows given_by [] (act env (LinkSetUp l))" for n l
    by (simp_all add: link_by_name_def act_def follows_read)
  have tail: "follows given_by (?routes g4 g6)
      (do { _ \<leftarrow> (if g6 \<noteq> [] then silent (SettleAddresses ifName 10) else State_Monad.return ()); each (add_route env l g4 g6) (Routes res) })" for g4 g6 l
  proof (cases "g6 = []")
    case False
    have settle: "follows given_by [] (call (\<lambda>h. Inr ()) (SettleAddresses ifName 10) :: (call, unit) io)"
      by (rule follows_read) simp
    have "follows given_by (?routes g4 g6) (check id (call (\<lambda>h. Inr ()) (SettleAddresses ifName 10)) (\<lambda>_. each (add_route env l g4 g6) (Routes res)))"
      using follows_check [OF settle add_routes_follows, where w = id] by simp
    then show ?thesis using False by (simp add: follows_def silent_def run_check)
  qed (use add_routes_follows in \<open>simp add: follows_def\<close>)
  have body: "follows given_by ([] @ [] @ ?ips @ ?routes (first_gateway True (IPs res)) (first_gateway False (IPs res)))
    (check (Errorf ''failed to lookup'') (link_by_name env ifName) (\<lambda>link.
        check (Errorf ''failed to set UP'') (act env (LinkSetUp link)) (\<lambda>_.
        check id (add_ips env ifName (Interfaces res) link (IPs res) [] [] False) (\<lambda>(v4gw, v6gw).
        do { _ \<leftarrow> (if v6gw \<noteq> [] then silent (SettleAddresses ifName 10) else State_Monad.return ());
          each (add_route env link v4gw v6gw) (Routes res) }))))"
  proof (intro follows_check link add_ips_follows assms)
    fix h x h' ha xa h'a hb xb h'b
    assume run: "run_state (add_ips env ifName (Interfaces res) x (IPs res) [] [] False) hb = (Inr xb, h'b)"
    obtain a b where "xb = (a, b)" by (cases xb)
    with add_ips_gateways [OF run [unfolded this] assms] have "xb = (first_gateway True (IPs res), first_gateway False (IPs res))"
      by simp
    then show "follows given_by (?routes (first_gateway True (IPs res)) (first_gateway False (IPs res)))
       (case xb of (v4gw, v6gw) \<Rightarrow>
        do { _ \<leftarrow> (if v6gw \<noteq> [] then silent (SettleAddresses ifName 10) else State_Monad.return ());
          each (add_route env x v4gw v6gw) (Routes res) })" by (simp add: tail)
  qed
  then show ?thesis using False by (simp add: ConfigureIface_def)
qed (simp add: ConfigureIface_def follows_fail)

end
