(* ===== verification/CniPlugin.thy ===== *)
theory CniPlugin
  imports CniConf CniHelpers PortCache
begin

text \<open>
  \<^verbatim>\<open>cmd/k-vswitch-cni/plugin.go\<close>: the CNI plugin that connects a pod to the bridge (\<open>cmdAdd\<close>) and removes it again
  (\<open>cmdDel\<close>).  The kernel, \<^verbatim>\<open>ovs-vsctl\<close> and the IPAM plugin are the host.  A function that runs in a container's network
  namespace is between an \<^const>\<open>EnterNS\<close> and a \<^const>\<open>LeaveNS\<close>.  A run-time panic ends the plugin after its
  deferred functions, as a returned error does, so it is an error here.  The lists of an IPAM result hold no \<^verbatim>\<open>null\<close>.

  Go's pointers are shared: \<open>calcGateways\<close> updates the addresses and routes of the result in place, and \<open>cmdAdd\<close> the
  bridge's MAC address in the list of interfaces; here they are returned.
\<close>

section \<open>The environment\<close>

record CmdArgs =
  ContainerID :: string
  Netns :: string
  IfName :: string
  StdinData :: string

definition cni_podMacAddr :: string where
  "cni_podMacAddr = ''aa:bb:cc:dd:ee:ff''"

definition ENOENT :: err where
  "ENOENT = ErrorMsg ''no such file or directory''"

definition in_netns :: "'a host_scheme \<Rightarrow> string \<Rightarrow> (call, 'b) io \<Rightarrow> (call, 'b) io" where
  "in_netns env ns body = check id (act env (EnterNS ns)) (\<lambda>_. deferred body (silent (LeaveNS ns)))"

section \<open>Ports of the bridge\<close>

definition bridgeByName :: "'a host_scheme \<Rightarrow> string \<Rightarrow> (call, Link) io" where
  "bridgeByName env name = check (Errorf ''could not lookup'') (link_by_name env name) ok"

definition getBridgeInterface :: "'a host_scheme \<Rightarrow> (call, Interface) io" where
  "getBridgeInterface env =
     check (Errorf ''failed to fetch bridge'') (bridgeByName env defaultBridgeName) (\<lambda>br.
     ok \<lparr>if_Name = link_Name br, if_Mac = HardwareAddr_String (link_HardwareAddr br), if_Sandbox = ''''\<rparr>)"

text \<open>\<^verbatim>\<open>strings.Replace(netns, "/", "", -1)\<close>\<close>

definition normalizedNetNS :: "string \<Rightarrow> string" where
  "normalizedNetNS netns = filter (\<lambda>c. c \<noteq> CHR ''/'') netns"

definition pod_ids :: "string \<Rightarrow> string \<Rightarrow> string \<Rightarrow> string list" where
  "pod_ids netNS podNamespace podName =
     [''external-ids:netns='' @ normalizedNetNS netNS,
      ''external-ids:k8s_pod_namespace='' @ podNamespace,
      ''external-ids:k8s_pod_name='' @ podName]"

definition addPort_command :: "string \<Rightarrow> string \<Rightarrow> string \<Rightarrow> string \<Rightarrow> string \<Rightarrow> string \<Rightarrow> command" where
  "addPort_command bridge port containerMac netNS podNamespace podName =
     vsctl ([''--may-exist'', ''add-port'', bridge, port] @
       [''--'', ''set'', ''port'', port] @ pod_ids netNS podNamespace podName @
       [''--'', ''set'', ''interface'', port] @ pod_ids netNS podNamespace podName @
       [''--'', ''set'', ''port'', port, ''mac=\"'' @ containerMac @ ''\"''])"

definition addPort ::
  "'a host_scheme \<Rightarrow> string \<Rightarrow> string \<Rightarrow> string \<Rightarrow> string \<Rightarrow> string \<Rightarrow> string \<Rightarrow> (call, unit) io" where
  "addPort env bridge port containerMac netNS podNamespace podName =
     check (Errorf ''failed to add OVS port'')
       (run_command env (addPort_command bridge port containerMac netNS podNamespace podName)) (\<lambda>_. ok ())"

definition delPort :: "'a host_scheme \<Rightarrow> string \<Rightarrow> string \<Rightarrow> (call, unit) io" where
  "delPort env bridge port =
     (let commands = [''--if-exists'', ''del-port'', bridge, port] in
      check (Errorf ''failed to delete OVS port'') (run_command env (vsctl commands)) (\<lambda>out. ok ()))"

definition findPort_command :: "string \<Rightarrow> string \<Rightarrow> string \<Rightarrow> command" where
  "findPort_command netNS podNamespace podName =
     vsctl ([''--format=json'', ''--column=name'', ''find'', ''port''] @ pod_ids netNS podNamespace podName)"

definition cni_findPort :: "'a host_scheme \<Rightarrow> string \<Rightarrow> string \<Rightarrow> string \<Rightarrow> (call, string) io" where
  "cni_findPort env netNS podNamespace podName =
     check (Errorf ''failed to get OVS port with net namespace'')
       (run_command env (findPort_command netNS podNamespace podName)) (\<lambda>out.
     case Unmarshal_Data out of
       Inl e \<Rightarrow> fail e
     | Inr [] \<Rightarrow> fail (ErrorMsg ''OVS port was not found'')
     | Inr ([] # rows) \<Rightarrow> fail panic
     | Inr ((portName # cols) # rows) \<Rightarrow> ok portName)"

section \<open>The pair of devices\<close>

definition setupVeth :: "'a cni_host_scheme \<Rightarrow> string \<Rightarrow> string \<Rightarrow> (call, Interface \<times> Interface) io" where
  "setupVeth env netns ifName =
     check id (in_netns env netns (SetupVeth env ifName 1500)) (\<lambda>(hostVeth, containerVeth).
     (let contIface = \<lparr>if_Name = if_Name containerVeth, if_Mac = if_Mac containerVeth, if_Sandbox = netns\<rparr>;
          hostIface = \<lparr>if_Name = if_Name hostVeth, if_Mac = '''', if_Sandbox = ''''\<rparr>
      in check (Errorf ''failed to lookup'') (link_by_name env (if_Name hostIface)) (\<lambda>hostVeth.
         ok (hostIface\<lparr>if_Mac := HardwareAddr_String (link_HardwareAddr hostVeth)\<rparr>, contIface))))"

text \<open>Every pod's interface gets the same MAC address.\<close>

definition override_mac :: "'a host_scheme \<Rightarrow> string \<Rightarrow> string \<Rightarrow> (call, unit) io" where
  "override_mac env netns ifName =
     in_netns env netns
       (check id (link_by_name env ifName) (\<lambda>link.
        check id (State_Monad.return (ParseMAC cni_podMacAddr)) (\<lambda>hwAddr.
        act env (LinkSetHardwareAddr link hwAddr))))"

section \<open>Gateways\<close>

definition FAMILY_V4 :: int where "FAMILY_V4 = 2"

definition FAMILY_V6 :: int where "FAMILY_V6 = 10"

record gwInfo =
  gws :: "IPNet list"
  gw_family :: int
  defaultRouteFound :: bool

definition no_gw :: gwInfo where
  "no_gw = \<lparr>gws = [], gw_family = 0, defaultRouteFound = False\<rparr>"

definition calcGatewayIP :: "IPNet \<Rightarrow> ip" where
  "calcGatewayIP ipn = (let nid = Mask (net_IP ipn) (net_Mask ipn) in NextIP nid)"

definition default_net :: "ip \<Rightarrow> IPNet" where
  "default_net zero = \<lparr>net_IP = zero, net_Mask = zero\<rparr>"

text \<open>The rest of the loop body, for the address's family with its default network.\<close>

definition add_gateway ::
  "NetConf \<Rightarrow> IPNet \<Rightarrow> IPConfig \<Rightarrow> Route list \<Rightarrow> gwInfo \<Rightarrow> IPConfig \<times> Route list \<times> gwInfo" where
  "add_gateway n defaultNet ipc routes g =
     (let ipc = ipc\<lparr>ipc_Interface := Some 2\<rparr>;
          ipc = (if ipc_Gateway ipc = [] \<and> IsGW n then ipc\<lparr>ipc_Gateway := calcGatewayIP (ipc_Address ipc)\<rparr> else ipc);
          found = list_ex (\<lambda>route. rt_GW route \<noteq> [] \<and> IPNet_String defaultNet = IPNet_String (rt_Dst route)) routes;
          (routes, g) =
            (if IsDefaultGW n \<and> \<not> defaultRouteFound g then
               (if found then (routes, g\<lparr>defaultRouteFound := True\<rparr>)
                else (routes @ [\<lparr>rt_Dst = defaultNet, rt_GW = ipc_Gateway ipc\<rparr>], g\<lparr>defaultRouteFound := True\<rparr>))
             else (routes, g));
          g = (if IsGW n then g\<lparr>gws := gws g @ [\<lparr>net_IP = ipc_Gateway ipc, net_Mask = net_Mask (ipc_Address ipc)\<rparr>]\<rparr> else g)
      in (ipc, routes, g))"

primrec calc_gateways ::
  "NetConf \<Rightarrow> IPConfig list \<Rightarrow> Route list \<Rightarrow> gwInfo \<Rightarrow> gwInfo \<Rightarrow> err + (IPConfig list \<times> Route list \<times> gwInfo \<times> gwInfo)" where
  "calc_gateways n [] routes gwsV4 gwsV6 = Inr ([], routes, gwsV4, gwsV6)"
| "calc_gateways n (ipc # ips) routes gwsV4 gwsV6 =
     (if To4 (net_IP (ipc_Address ipc)) \<noteq> [] then
        (let (ipc, routes, gwsV4) = add_gateway n (default_net IPv4zero) ipc routes (gwsV4\<lparr>gw_family := FAMILY_V4\<rparr>) in
         case calc_gateways n ips routes gwsV4 gwsV6 of
           Inl e \<Rightarrow> Inl e | Inr (ips, r) \<Rightarrow> Inr (ipc # ips, r))
      else if length (net_IP (ipc_Address ipc)) = 16 then
        (let (ipc, routes, gwsV6) = add_gateway n (default_net IPv6zero) ipc routes (gwsV6\<lparr>gw_family := FAMILY_V6\<rparr>) in
         case calc_gateways n ips routes gwsV4 gwsV6 of
           Inl e \<Rightarrow> Inl e | Inr (ips, r) \<Rightarrow> Inr (ipc # ips, r))
      else Inl (ErrorMsg ''Unknown IP object''))"

definition calcGateways :: "Result \<Rightarrow> NetConf \<Rightarrow> err + (Result \<times> gwInfo \<times> gwInfo)" where
  "calcGateways result n =
     (case calc_gateways n (IPs result) (Routes result) no_gw no_gw of
        Inl e \<Rightarrow> Inl e
      | Inr (ips, routes, gwsV4, gwsV6) \<Rightarrow> Inr (result\<lparr>IPs := ips, Routes := routes\<rparr>, gwsV4, gwsV6))"

section \<open>Addresses of the bridge\<close>

definition deleteBridgeAddr :: "'a host_scheme \<Rightarrow> Link \<Rightarrow> IPNet \<Rightarrow> (call, unit) io" where
  "deleteBridgeAddr env br ipn = check (Errorf ''could not remove IP address'') (act env (AddrDel br ipn)) (\<lambda>_. ok ())"

definition add_bridge_addr :: "'a host_scheme \<Rightarrow> Link \<Rightarrow> IPNet \<Rightarrow> (call, unit) io" where
  "add_bridge_addr env br ipn =
     check (Errorf ''could not add IP address'') (act env (AddrAdd br ipn)) (\<lambda>_.
     check (Errorf ''could not set mac of the bridge'') (act env (LinkSetHardwareAddr br (link_HardwareAddr br))) (\<lambda>_.
     ok ()))"

primrec ensure_addrs ::
  "'a host_scheme \<Rightarrow> Link \<Rightarrow> int \<Rightarrow> IPNet \<Rightarrow> bool \<Rightarrow> IPNet list \<Rightarrow> (call, unit) io" where
  "ensure_addrs env br family ipn forceAddress [] = add_bridge_addr env br ipn"
| "ensure_addrs env br family ipn forceAddress (a # addrs) =
     (if IPNet_String a = IPNet_String ipn then ok ()
      else if family = FAMILY_V4 \<or> IPNet_Contains a (net_IP ipn) \<or> IPNet_Contains ipn (net_IP a) then
        (if forceAddress then
           check id (deleteBridgeAddr env br a) (\<lambda>_. ensure_addrs env br family ipn forceAddress addrs)
         else fail (ErrorMsg ''the bridge already has a different IP address''))
      else ensure_addrs env br family ipn forceAddress addrs)"

definition ensureBridgeAddr :: "'a cni_host_scheme \<Rightarrow> Link \<Rightarrow> int \<Rightarrow> IPNet \<Rightarrow> bool \<Rightarrow> (call, unit) io" where
  "ensureBridgeAddr env br family ipn forceAddress =
     do { (addrs, err) \<leftarrow> addr_list env br family;
       case err of
         Some e \<Rightarrow>
           (if e \<noteq> ENOENT then fail (Errorf ''could not get list of IP addresses'' e)
            else ensure_addrs env br family ipn forceAddress addrs)
       | None \<Rightarrow> ensure_addrs env br family ipn forceAddress addrs }"

section \<open>Kernel settings\<close>

definition disableIPV6DAD :: "'a host_scheme \<Rightarrow> string \<Rightarrow> (call, unit) io" where
  "disableIPV6DAD env ifName =
     do { enh \<leftarrow> read_file env (''/proc/sys/net/ipv6/conf/'' @ ifName @ ''/enhanced_dad'');
       if enh = Inr [CHR ''1'', CHR 0x0A] then ok ()
       else act env (WriteFile (''/proc/sys/net/ipv6/conf/'' @ ifName @ ''/accept_dad'') ''0'') }"

text \<open>The vendored \<^verbatim>\<open>ip.EnableIP4Forward\<close> and \<^verbatim>\<open>ip.EnableIP6Forward\<close>.\<close>

definition echo1 :: "'a host_scheme \<Rightarrow> string \<Rightarrow> (call, unit) io" where
  "echo1 env f =
     do { content \<leftarrow> read_file env f;
       case content of
         Inl e \<Rightarrow> act env (WriteFile f ''1'')
       | Inr text \<Rightarrow> if TrimSpace text = ''1'' then ok () else act env (WriteFile f ''1'') }"

definition enableIPForward :: "'a host_scheme \<Rightarrow> int \<Rightarrow> (call, unit) io" where
  "enableIPForward env family =
     (if family = FAMILY_V4 then echo1 env ''/proc/sys/net/ipv4/ip_forward''
      else echo1 env ''/proc/sys/net/ipv6/conf/all/forwarding'')"

section \<open>ADD\<close>

definition exec_ipam_add :: "'a cni_host_scheme \<Rightarrow> string \<Rightarrow> string \<Rightarrow> (call, string) io" where
  "exec_ipam_add env plugin conf = call (\<lambda>h. c_ipam env h plugin conf) (IpamAdd plugin conf)"

definition configure_container :: "'a host_scheme \<Rightarrow> NetConf \<Rightarrow> CmdArgs \<Rightarrow> Result \<Rightarrow> (call, unit) io" where
  "configure_container env netConf a result =
     in_netns env (Netns a)
       (check id (interface_by_name env (IfName a)) (\<lambda>contVeth.
        check id
          (if list_ex (\<lambda>ipc. ipc_Version ipc = ''6'' \<and> (HairpinMode netConf \<or> PromiscMode netConf)) (IPs result)
           then disableIPV6DAD env (IfName a) else ok ()) (\<lambda>_.
        check id (ConfigureIface env (IfName a) result) (\<lambda>_.
        each (\<lambda>ipc. if ipc_Version ipc = ''4''
                     then do { _ \<leftarrow> silent (GratuitousArp (net_IP (ipc_Address ipc)) (if_Name contVeth)); ok () }
                     else ok ()) (IPs result)))))"

definition set_gateways :: "'a cni_host_scheme \<Rightarrow> NetConf \<Rightarrow> gwInfo \<Rightarrow> gwInfo \<Rightarrow> (call, unit) io" where
  "set_gateways env netConf gwsV4 gwsV6 =
     each (\<lambda>g.
       check id
         (each (\<lambda>gw.
            check (Errorf ''failed to get bridge link'') (bridgeByName env (BridgeName netConf)) (\<lambda>br.
            check (Errorf ''failed to set bridge addr'') (ensureBridgeAddr env br (gw_family g) gw True) (\<lambda>_.
            ok ()))) (gws g)) (\<lambda>_.
       if gws g \<noteq> [] then check (Errorf ''failed to enable forwarding'') (enableIPForward env (gw_family g)) (\<lambda>_. ok ())
       else ok ())) [gwsV4, gwsV6]"

definition setup_masquerade :: "'a cni_host_scheme \<Rightarrow> NetConf \<Rightarrow> CmdArgs \<Rightarrow> Result \<Rightarrow> (call, unit) io" where
  "setup_masquerade env netConf a result =
     (let chain = FormatChainName env (nc_Name netConf) (ContainerID a);
          comment = FormatComment env (nc_Name netConf) (ContainerID a)
      in each (\<lambda>ipc. SetupIPMasq env (Network (ipc_Address ipc)) chain comment) (IPs result))"

text \<open>From the IPAM plugin's answer to the configured container: what runs with the address allocated.\<close>

definition configure_addresses ::
  "'a cni_host_scheme \<Rightarrow> NetConf \<Rightarrow> CmdArgs \<Rightarrow> Result \<Rightarrow> string \<Rightarrow> (call, Result) io" where
  "configure_addresses env netConf a result r =
     check id (State_Monad.return (c_convert env r)) (\<lambda>ipamResult.
     let result = result\<lparr>IPs := IPs ipamResult, Routes := Routes ipamResult\<rparr> in
     if IPs result = [] then fail (ErrorMsg ''IPAM plugin returned missing IP config'')
     else
       check id (State_Monad.return (calcGateways result netConf)) (\<lambda>(result, gwsV4, gwsV6).
       check (Errorf ''failed to configure container addresses'') (configure_container env netConf a result) (\<lambda>_.
       check id (if IsGW netConf then set_gateways env netConf gwsV4 gwsV6 else ok ()) (\<lambda>_.
       check id (if IPMasq netConf then setup_masquerade env netConf a result else ok ()) (\<lambda>_.
       ok result)))))"

text \<open>The end of \<^verbatim>\<open>cmdAdd\<close> before the result is printed; the bridge is the first interface of the result.\<close>

definition finish_add :: "'a host_scheme \<Rightarrow> NetConf \<Rightarrow> Result \<Rightarrow> (call, Result) io" where
  "finish_add env netConf result =
     check id (bridgeByName env (BridgeName netConf)) (\<lambda>br.
     (let mac = HardwareAddr_String (link_HardwareAddr br);
          ifs = (case Interfaces result of [] \<Rightarrow> [] | bridge # rest \<Rightarrow> bridge\<lparr>if_Mac := mac\<rparr> # rest)
      in ok (result\<lparr>Interfaces := ifs, res_DNS := nc_DNS netConf\<rparr>)))"

definition release :: "NetConf \<Rightarrow> CmdArgs \<Rightarrow> (call list, unit) state" where
  "release netConf a = silent (IpamDel (IPAM_Type netConf) (StdinData a))"

text \<open>From the port of the pod to the result; the deferred release acts while \<^verbatim>\<open>success\<close> is false.\<close>

definition add_addresses :: "'a cni_host_scheme \<Rightarrow> NetConf \<Rightarrow> CmdArgs \<Rightarrow> Result \<Rightarrow> (call, Result) io" where
  "add_addresses env netConf a result =
     (if IPAM_Type netConf \<noteq> '''' then
        check id (exec_ipam_add env (IPAM_Type netConf) (StdinData a)) (\<lambda>r.
        on_failure
          (check id (configure_addresses env netConf a result r) (finish_add env netConf))
          (release netConf a))
      else finish_add env netConf result)"

definition add_port :: "'a cni_host_scheme \<Rightarrow> NetConf \<Rightarrow> CmdArgs \<Rightarrow> Interface \<Rightarrow> Interface \<Rightarrow> (call, unit) io" where
  "add_port env netConf a hostInterface containerInterface =
     do { cniArgs \<leftarrow> Getenv env ''CNI_ARGS'';
       check id (State_Monad.return (getPodInfo cniArgs)) (\<lambda>(podNamespace, podName).
       check id (addPort env (BridgeName netConf) (if_Name hostInterface) (if_Mac containerInterface) (Netns a)
                   podNamespace podName) (\<lambda>_.
       check id (link_by_name env (if_Name hostInterface)) (\<lambda>hostLink.
       check id (act env (LinkSetUp hostLink)) (\<lambda>_. ok ())))) }"

definition cmdAdd :: "'a cni_host_scheme \<Rightarrow> CmdArgs \<Rightarrow> (call, unit) io" where
  "cmdAdd env a =
     check id (State_Monad.return (loadNetConf (StdinData a))) (\<lambda>(netConf, cniVersion).
     check (Errorf ''failed to setup bridge'') (getBridgeInterface env) (\<lambda>bridge.
     check (Errorf ''failed to open netns'') (act env (GetNS (Netns a))) (\<lambda>_.
     deferred
       (check id (setupVeth env (Netns a) (IfName a)) (\<lambda>(hostInterface, containerInterface).
        check (Errorf ''failed to override pod MAC address'') (override_mac env (Netns a) (IfName a)) (\<lambda>_.
        check id (add_port env netConf a hostInterface containerInterface) (\<lambda>_.
        let result = \<lparr>res_CNIVersion = cniVersion, Interfaces = [bridge, hostInterface, containerInterface],
                      IPs = [], Routes = [], res_DNS = empty_DNS\<rparr> in
        check id (add_addresses env netConf a result) (\<lambda>result.
        act env (PrintResult result cniVersion))))))
       (silent (CloseNS (Netns a))))))"

section \<open>DEL\<close>

text \<open>The function run in the namespace: a device that is already gone is no error, and has no addresses.\<close>

definition delete_device :: "'a cni_host_scheme \<Rightarrow> string \<Rightarrow> (call, IPNet list) io" where
  "delete_device env ifName =
     do { r \<leftarrow> DelLinkByNameAddr env ifName;
       case r of
         Inl e \<Rightarrow> if e = ErrLinkNotFound then ok [] else fail e
       | Inr ipnets \<Rightarrow> ok ipnets }"

definition teardown_masquerade :: "'a cni_host_scheme \<Rightarrow> NetConf \<Rightarrow> CmdArgs \<Rightarrow> IPNet list \<Rightarrow> (call, unit) io" where
  "teardown_masquerade env netConf a ipnets =
     (let chain = FormatChainName env (nc_Name netConf) (ContainerID a);
          comment = FormatComment env (nc_Name netConf) (ContainerID a)
      in each (\<lambda>ipn. TeardownIPMasq env ipn chain comment) ipnets)"

definition cmdDel :: "'a cni_host_scheme \<Rightarrow> CmdArgs \<Rightarrow> (call, unit) io" where
  "cmdDel env a =
     check id (State_Monad.return (loadNetConf (StdinData a))) (\<lambda>(netConf, _).
     do { cniArgs \<leftarrow> Getenv env ''CNI_ARGS'';
       check id (State_Monad.return (getPodInfo cniArgs)) (\<lambda>(podNamespace, podName).
       check id
         (if Netns a \<noteq> '''' then
            check id (cni_findPort env (Netns a) podNamespace podName) (\<lambda>portName.
            delPort env (BridgeName netConf) portName)
          else ok ()) (\<lambda>_.
       check id
         (if IPAM_Type netConf \<noteq> '''' then act env (IpamDel (IPAM_Type netConf) (StdinData a)) else ok ()) (\<lambda>_.
       if Netns a = '''' then ok ()
       else
         check id
           (check id (act env (GetNS (Netns a))) (\<lambda>_.
            deferred (in_netns env (Netns a) (delete_device env (IfName a))) (silent (CloseNS (Netns a))))) (\<lambda>ipnets.
         if IPAM_Type netConf \<noteq> '''' \<and> IPMasq netConf then
           teardown_masquerade env netConf a ipnets
         else ok ())))) })"

section \<open>What the gateways are\<close>

definition is_v4 :: "IPConfig \<Rightarrow> bool" where
  "is_v4 ipc \<longleftrightarrow> To4 (net_IP (ipc_Address ipc)) \<noteq> []"

definition known_ip :: "IPConfig \<Rightarrow> bool" where
  "known_ip ipc \<longleftrightarrow> is_v4 ipc \<or> length (net_IP (ipc_Address ipc)) = 16"

definition completed :: "NetConf \<Rightarrow> IPConfig \<Rightarrow> IPConfig" where
  "completed n ipc = ipc\<lparr>ipc_Interface := Some 2,
     ipc_Gateway := if ipc_Gateway ipc = [] \<and> IsGW n then calcGatewayIP (ipc_Address ipc) else ipc_Gateway ipc\<rparr>"

definition gateway_net :: "IPConfig \<Rightarrow> IPNet" where
  "gateway_net ipc = \<lparr>net_IP = ipc_Gateway ipc, net_Mask = net_Mask (ipc_Address ipc)\<rparr>"

definition default_route :: "bool \<Rightarrow> Route \<Rightarrow> bool" where
  "default_route v4 r \<longleftrightarrow> rt_Dst r = default_net (if v4 then IPv4zero else IPv6zero)"

lemma default_net_text: "IPNet_String (default_net IPv4zero) = ''0.0.0.0/0''" "IPNet_String (default_net IPv6zero) = ''::/0''"
  by code_simp+

lemma is_v4_completed [simp]: "is_v4 (completed n ipc) = is_v4 ipc"
  by (simp add: is_v4_def completed_def)

lemma default_nets_differ [simp]: "default_net IPv4zero \<noteq> default_net IPv6zero" "default_net IPv6zero \<noteq> default_net IPv4zero"
  by code_simp+

lemma add_gateway_result:
  assumes "add_gateway n d ipc routes g = (ipc', routes', g')"
  shows "ipc' = completed n ipc"
    and "gws g' = gws g @ (if IsGW n then [gateway_net (completed n ipc)] else [])"
    and "gw_family g' = gw_family g"
    and "defaultRouteFound g' = (defaultRouteFound g \<or> IsDefaultGW n)"
    and "routes' = routes \<or> (routes' = routes @ [\<lparr>rt_Dst = d, rt_GW = ipc_Gateway (completed n ipc)\<rparr>] \<and>
           IsDefaultGW n \<and> \<not> defaultRouteFound g)"
    and "IsDefaultGW n \<Longrightarrow> defaultRouteFound g \<or> (\<exists>r\<in>set routes'. IPNet_String (rt_Dst r) = IPNet_String d)"
proof -
  have c: "(let ipc = ipc\<lparr>ipc_Interface := Some 2\<rparr> in
      if ipc_Gateway ipc = [] \<and> IsGW n then ipc\<lparr>ipc_Gateway := calcGatewayIP (ipc_Address ipc)\<rparr> else ipc) = completed n ipc"
    by (simp add: completed_def Let_def)
  have a: "net_Mask (ipc_Address ipc) = net_Mask (ipc_Address (completed n ipc))" by (simp add: completed_def)
  note assms' = assms [unfolded add_gateway_def]
  show "ipc' = completed n ipc" "gws g' = gws g @ (if IsGW n then [gateway_net (completed n ipc)] else [])"
    "gw_family g' = gw_family g" "defaultRouteFound g' = (defaultRouteFound g \<or> IsDefaultGW n)"
    "routes' = routes \<or> (routes' = routes @ [\<lparr>rt_Dst = d, rt_GW = ipc_Gateway (completed n ipc)\<rparr>] \<and>
           IsDefaultGW n \<and> \<not> defaultRouteFound g)"
    using assms' by (auto simp: Let_def completed_def gateway_net_def split: if_split_asm)
  show "IsDefaultGW n \<Longrightarrow> defaultRouteFound g \<or> (\<exists>r\<in>set routes'. IPNet_String (rt_Dst r) = IPNet_String d)"
    using assms' by (auto simp: Let_def list_ex_iff split: if_split_asm)
qed


text \<open>The step for one address: the loop goes on with its family's gateways.\<close>

lemma calc_gateways_step:
  assumes "calc_gateways n (ipc # ips) routes v4 v6 = Inr (ips', routes', v4', v6')"
  obtains routes1 g ips1 where
    "known_ip ipc" "ips' = completed n ipc # ips1"
    "add_gateway n (default_net (if is_v4 ipc then IPv4zero else IPv6zero)) ipc routes
       (if is_v4 ipc then v4\<lparr>gw_family := FAMILY_V4\<rparr> else v6\<lparr>gw_family := FAMILY_V6\<rparr>) = (completed n ipc, routes1, g)"
    "calc_gateways n ips routes1 (if is_v4 ipc then g else v4) (if is_v4 ipc then v6 else g) = Inr (ips1, routes', v4', v6')"
proof -
  obtain ipc1 routes1 g where a: "add_gateway n (default_net (if is_v4 ipc then IPv4zero else IPv6zero)) ipc routes
       (if is_v4 ipc then v4\<lparr>gw_family := FAMILY_V4\<rparr> else v6\<lparr>gw_family := FAMILY_V6\<rparr>) = (ipc1, routes1, g)"
    by (metis prod_cases3)
  then have i: "ipc1 = completed n ipc" by (rule add_gateway_result)
  show thesis
  proof (cases "is_v4 ipc")
    case True
    with assms a i that show ?thesis
      by (auto simp: is_v4_def known_ip_def split: sum.split_asm)
  next
    case False
    with assms a i that show ?thesis
      by (auto simp: is_v4_def known_ip_def split: sum.split_asm if_split_asm)
  qed
qed

lemma calc_gateways_addresses:
  "calc_gateways n ips routes v4 v6 = Inr (ips', routes', v4', v6') \<Longrightarrow>
     (\<forall>i\<in>set ips. known_ip i) \<and> ips' = map (completed n) ips \<and>
     gws v4' = gws v4 @ (if IsGW n then map gateway_net (filter is_v4 ips') else []) \<and>
     gws v6' = gws v6 @ (if IsGW n then map gateway_net (filter (\<lambda>i. \<not> is_v4 i) ips') else []) \<and>
     gw_family v4' = (if list_ex is_v4 ips then FAMILY_V4 else gw_family v4) \<and>
     gw_family v6' = (if list_ex (\<lambda>i. \<not> is_v4 i) ips then FAMILY_V6 else gw_family v6)"
proof (induction ips arbitrary: routes v4 v6 ips')
  case (Cons ipc ips)
  from Cons.prems obtain routes1 g ips1 where s: "known_ip ipc" "ips' = completed n ipc # ips1"
    and a: "add_gateway n (default_net (if is_v4 ipc then IPv4zero else IPv6zero)) ipc routes
       (if is_v4 ipc then v4\<lparr>gw_family := FAMILY_V4\<rparr> else v6\<lparr>gw_family := FAMILY_V6\<rparr>) = (completed n ipc, routes1, g)"
    and r: "calc_gateways n ips routes1 (if is_v4 ipc then g else v4) (if is_v4 ipc then v6 else g) = Inr (ips1, routes', v4', v6')"
    by (rule calc_gateways_step)
  from add_gateway_result(2,3) [OF a] Cons.IH [OF r] s show ?case by (cases "is_v4 ipc") auto
qed auto

lemma calc_gateways_routes:
  "calc_gateways n ips routes v4 v6 = Inr (ips', routes', v4', v6') \<Longrightarrow>
     \<exists>new. routes' = routes @ new \<and> (IsDefaultGW n \<or> new = []) \<and>
       (\<forall>r\<in>set new. default_route True r \<or> default_route False r) \<and>
       length (filter (default_route True) new) \<le> (if defaultRouteFound v4 then 0 else 1) \<and>
       length (filter (default_route False) new) \<le> (if defaultRouteFound v6 then 0 else 1) \<and>
       (IsDefaultGW n \<longrightarrow> (\<forall>i\<in>set ips. defaultRouteFound (if is_v4 i then v4 else v6) \<or>
          (\<exists>r\<in>set routes'. IPNet_String (rt_Dst r) = (if is_v4 i then ''0.0.0.0/0'' else ''::/0''))))"
proof (induction ips arbitrary: routes v4 v6 ips')
  case (Cons ipc ips)
  from Cons.prems obtain routes1 g ips1 where
    a: "add_gateway n (default_net (if is_v4 ipc then IPv4zero else IPv6zero)) ipc routes
       (if is_v4 ipc then v4\<lparr>gw_family := FAMILY_V4\<rparr> else v6\<lparr>gw_family := FAMILY_V6\<rparr>) = (completed n ipc, routes1, g)"
    and r: "calc_gateways n ips routes1 (if is_v4 ipc then g else v4) (if is_v4 ipc then v6 else g) = Inr (ips1, routes', v4', v6')"
    by (rule calc_gateways_step)
  from Cons.IH [OF r] obtain new where new: "routes' = routes1 @ new" "IsDefaultGW n \<or> new = []"
    "\<forall>r\<in>set new. default_route True r \<or> default_route False r"
    "length (filter (default_route True) new) \<le> (if defaultRouteFound (if is_v4 ipc then g else v4) then 0 else 1)"
    "length (filter (default_route False) new) \<le> (if defaultRouteFound (if is_v4 ipc then v6 else g) then 0 else 1)"
    "IsDefaultGW n \<longrightarrow> (\<forall>i\<in>set ips. defaultRouteFound (if is_v4 i then (if is_v4 ipc then g else v4) else (if is_v4 ipc then v6 else g)) \<or>
          (\<exists>r\<in>set routes'. IPNet_String (rt_Dst r) = (if is_v4 i then ''0.0.0.0/0'' else ''::/0'')))" by blast
  obtain added where added: "routes1 = routes @ added"
    "added = [] \<or> (added = [\<lparr>rt_Dst = default_net (if is_v4 ipc then IPv4zero else IPv6zero), rt_GW = ipc_Gateway (completed n ipc)\<rparr>] \<and>
       IsDefaultGW n \<and> \<not> defaultRouteFound (if is_v4 ipc then v4 else v6))"
    using add_gateway_result(5) [OF a] by (auto split: if_split_asm)
  have found: "defaultRouteFound g = (defaultRouteFound (if is_v4 ipc then v4 else v6) \<or> IsDefaultGW n)"
    using add_gateway_result(4) [OF a] by (auto split: if_split_asm)
  have this_one: "defaultRouteFound (if is_v4 ipc then v4 else v6) \<or>
      (\<exists>r\<in>set routes'. IPNet_String (rt_Dst r) = (if is_v4 ipc then ''0.0.0.0/0'' else ''::/0''))" if "IsDefaultGW n"
    using add_gateway_result(6) [OF a that] new(1) by (auto simp: default_net_text split: if_split_asm)
  have counts: "length (filter (default_route True) (added @ new)) \<le> (if defaultRouteFound v4 then 0 else 1)"
    "length (filter (default_route False) (added @ new)) \<le> (if defaultRouteFound v6 then 0 else 1)"
    using new(4,5) added(2) found by (auto simp: default_route_def split: if_split_asm)
  show ?case
  proof (intro exI [of _ "added @ new"] conjI impI)
    show "IsDefaultGW n \<Longrightarrow> \<forall>i\<in>set (ipc # ips). defaultRouteFound (if is_v4 i then v4 else v6) \<or>
        (\<exists>r\<in>set routes'. IPNet_String (rt_Dst r) = (if is_v4 i then ''0.0.0.0/0'' else ''::/0''))"
      using new(6) this_one found by (auto split: if_split_asm)
    show "routes' = routes @ added @ new" using new(1) added(1) by simp
    show "IsDefaultGW n \<or> added @ new = []" using new(2) added(2) by blast
    have "\<forall>r\<in>set added. default_route True r \<or> default_route False r"
      using added(2) by (cases "is_v4 ipc") (auto simp: default_route_def)
    with new(3) show "\<forall>r\<in>set (added @ new). default_route True r \<or> default_route False r" by auto
  qed (fact counts)+
qed auto


section \<open>Releasing the address\<close>

definition is_add :: "call \<Rightarrow> bool" where
  "is_add c \<longleftrightarrow> (\<exists>p d. c = IpamAdd p d)"

definition is_del :: "call \<Rightarrow> bool" where
  "is_del c \<longleftrightarrow> (\<exists>p d. c = IpamDel p d)"

definition is_print :: "call \<Rightarrow> bool" where
  "is_print c \<longleftrightarrow> (\<exists>r v. c = PrintResult r v)"

definition quiet :: "call \<Rightarrow> bool" where
  "quiet c \<longleftrightarrow> \<not> is_add c \<and> \<not> is_del c \<and> \<not> is_print c"

lemma quiet_simps [simp]:
  "quiet (Exec cmd)" "quiet (ReadFile f)" "quiet (WriteFile f t)" "quiet (LinkByName n)" "quiet (LinkSetUp l)"
  "quiet (LinkSetHardwareAddr l a)" "quiet (AddrList l f')" "quiet (AddrAdd l i)" "quiet (AddrDel l i)"
  "quiet (InterfaceByName n)" "quiet (GetNS n)" "quiet (EnterNS n)" "quiet (LeaveNS n)" "quiet (CloseNS n)"
  "quiet ReadEntropy" "quiet (LinkAdd n p m)" "quiet (LinkDel n)" "quiet (LinkSetNs l)" "quiet EnterHostNS" "quiet LeaveHostNS"
  "quiet (SettleAddresses n k)" "quiet (RouteAdd i g l)" "quiet (GratuitousArp ad n)" "quiet (IptNew b)" "quiet (Ipt b opn)"
  by (simp_all add: quiet_def is_add_def is_del_def is_print_def)

lemma performs_silent [effects]: "P c \<Longrightarrow> performs P (silent c)"
  by (simp add: silent_def effects)

lemma performs_in_netns [effects]:
  "P (EnterNS ns) \<Longrightarrow> P (LeaveNS ns) \<Longrightarrow> performs P m \<Longrightarrow> performs P (in_netns env ns m)"
  unfolding in_netns_def by (intro effects)

lemma performs_pure [effects]: "performs P (State_Monad.return x)"
  by (rule performs_return)

text \<open>Most of the work is in calls that are no milestone of an ADD or a DEL.\<close>

definition inner :: "call \<Rightarrow> bool" where
  "inner c \<longleftrightarrow> (case c of
     Exec _ \<Rightarrow> False | IpamAdd _ _ \<Rightarrow> False | IpamDel _ _ \<Rightarrow> False | PrintResult _ _ \<Rightarrow> False | GetNS _ \<Rightarrow> False | CloseNS _ \<Rightarrow> False
   | _ \<Rightarrow> True)"

lemma inner_simps [simp]:
  "inner (ReadFile f)" "inner (WriteFile f t)" "inner (LinkByName n)" "inner (LinkSetUp l)"
  "inner (LinkSetHardwareAddr l a)" "inner (AddrList l f')" "inner (AddrAdd l i)" "inner (AddrDel l i)"
  "inner (InterfaceByName n)" "inner (EnterNS n)" "inner (LeaveNS n)"
  "inner ReadEntropy" "inner (LinkAdd n p m)" "inner (LinkDel n)" "inner (LinkSetNs l)" "inner EnterHostNS" "inner LeaveHostNS"
  "inner (SettleAddresses n k)" "inner (RouteAdd i g l)" "inner (GratuitousArp ad n)" "inner (IptNew b)" "inner (Ipt b opn)"
  "\<not> inner (Exec cmd)" "\<not> inner (IpamAdd p d)" "\<not> inner (IpamDel p d)" "\<not> inner (PrintResult r v)" "\<not> inner (GetNS n)" "\<not> inner (CloseNS n)"
  by (simp_all add: inner_def)

lemma inner_quiet: "performs inner m \<Longrightarrow> performs quiet m"
  by (erule performs_mono) (auto simp: inner_def quiet_def is_add_def is_del_def is_print_def)

lemma inner_parts [effects]:
  "performs inner (bridgeByName env n)"
  "performs inner (getBridgeInterface env)"
  "performs inner (override_mac env ns i)"
  "performs inner (deleteBridgeAddr env l a)"
  "performs inner (add_bridge_addr env l a)"
  "performs inner (echo1 env f)"
  "performs inner (disableIPV6DAD env i)"
  "performs inner (enableIPForward env fam)"
  by (auto simp: bridgeByName_def getBridgeInterface_def override_mac_def deleteBridgeAddr_def
      add_bridge_addr_def echo1_def disableIPV6DAD_def enableIPForward_def
      intro!: effects performs_bind split: sum.split)

lemma inner_veth_attempts [effects]: "performs inner (veth_attempts n env i m)"
  by (induction n)
    (auto simp: RandomVethName_def makeVethPair_def peerExists_def intro!: effects performs_bind split: sum.split)

lemma inner_setupVeth [effects]: "performs inner (setupVeth env ns i)"
  by (auto simp: setupVeth_def SetupVeth_def makeVeth_def in_host_ns_def Let_def intro!: effects split: prod.split)

lemma inner_enable_ipv6 [effects]: "performs inner (enable_ipv6 env i)"
  unfolding enable_ipv6_def getSysctl_def setSysctl_def Let_def
  by (intro performs_each) (auto intro!: effects performs_bind split: sum.split)

lemma inner_add_ips [effects]: "performs inner (add_ips env i ifs l ips g4 g6 b)"
  by (induction ips arbitrary: g4 g6 b) (auto simp: Let_def intro!: effects split: option.split)

lemma inner_ConfigureIface [effects]: "performs inner (ConfigureIface env i r)"
  by (auto simp: ConfigureIface_def add_route_def intro!: effects performs_bind split: prod.split sum.split)

lemma inner_SetupIPMasq [effects]: "performs inner (SetupIPMasq env i c m)"
  by (auto simp: SetupIPMasq_def ipt_chains_def Let_def intro!: effects)

lemma inner_ensure_addrs [effects]: "performs inner (ensure_addrs env l fam n fo as)"
  by (induction as) (auto intro!: effects)

lemma inner_ensureBridgeAddr [effects]: "performs inner (ensureBridgeAddr env l fam n fo)"
  by (auto simp: ensureBridgeAddr_def addr_list_def intro!: effects performs_bind split: option.split)

lemma inner_configure_container [effects]: "performs inner (configure_container env n a r)"
  by (auto simp: configure_container_def intro!: effects performs_bind)

lemma inner_set_gateways [effects]: "performs inner (set_gateways env n g4 g6)"
  by (auto simp: set_gateways_def intro!: effects simp del: each.simps)

lemma inner_configure_addresses [effects]: "performs inner (configure_addresses env n a r t)"
  by (auto simp: configure_addresses_def setup_masquerade_def Let_def intro!: effects split: prod.split)

lemma inner_finish_add [effects]: "performs inner (finish_add env n r)"
  by (auto simp: finish_add_def Let_def intro!: effects)

lemmas quiet_programs [effects] =
  inner_parts [THEN inner_quiet] inner_veth_attempts [THEN inner_quiet] inner_setupVeth [THEN inner_quiet]
  inner_enable_ipv6 [THEN inner_quiet] inner_add_ips [THEN inner_quiet] inner_ConfigureIface [THEN inner_quiet]
  inner_SetupIPMasq [THEN inner_quiet] inner_ensure_addrs [THEN inner_quiet] inner_ensureBridgeAddr [THEN inner_quiet]
  inner_configure_container [THEN inner_quiet] inner_set_gateways [THEN inner_quiet] inner_configure_addresses [THEN inner_quiet]
  inner_finish_add [THEN inner_quiet]

lemma quiet_addPort [effects]: "performs quiet (addPort env b p m ns pns pn)"
  by (auto simp: addPort_def intro!: effects)

lemma quiet_add_port [effects]: "performs quiet (add_port env n a h c)"
  by (auto simp: add_port_def intro!: effects performs_bind split: prod.split)

text \<open>What becomes of an allocated address: the three ways the second half of an ADD can end.\<close>

lemma add_addresses_run:
  assumes "run_state (add_addresses env n a res) h = (r, h')" and "IPAM_Type n \<noteq> ''''"
  obtains e where "c_ipam env h (IPAM_Type n) (StdinData a) = Inl e" "r = Inl e"
      "h' = h @ [IpamAdd (IPAM_Type n) (StdinData a)]"
  | x y u where "c_ipam env h (IPAM_Type n) (StdinData a) = Inr x" "r = Inr y" "list_all quiet u"
      "h' = h @ IpamAdd (IPAM_Type n) (StdinData a) # u"
  | x e u where "c_ipam env h (IPAM_Type n) (StdinData a) = Inr x" "r = Inl e" "list_all quiet u"
      "h' = h @ IpamAdd (IPAM_Type n) (StdinData a) # u @ [IpamDel (IPAM_Type n) (StdinData a)]"
proof -
  let ?add = "IpamAdd (IPAM_Type n) (StdinData a)" and ?del = "IpamDel (IPAM_Type n) (StdinData a)"
  have exec: "run_state (exec_ipam_add env (IPAM_Type n) (StdinData a)) h =
      (c_ipam env h (IPAM_Type n) (StdinData a), h @ [?add])"
    by (simp add: exec_ipam_add_def)
  show thesis
  proof (cases "c_ipam env h (IPAM_Type n) (StdinData a)")
    case (Inl e)
    with assms exec that(1) show ?thesis by (auto simp: add_addresses_def)
  next
    case (Inr x)
    let ?body = "check id (configure_addresses env n a res x) (finish_add env n)"
    have q: "performs quiet ?body" by (intro effects)
    obtain r1 h1 where b: "run_state ?body (h @ [?add]) = (r1, h1)" by fastforce
    from q b obtain u where u: "h1 = (h @ [?add]) @ u" "list_all quiet u" by (rule performsE)
    have "run_state (on_failure ?body (release n a)) (h @ [?add]) = (r, h')"
      using assms exec Inr by (simp add: add_addresses_def)
    then have "(r, h') = (case r1 of Inl e \<Rightarrow> (Inl e, h1 @ [?del]) | Inr y \<Rightarrow> (Inr y, h1))"
      unfolding run_on_failure b by (cases r1) (auto simp: release_def silent_def)
    with u that(2,3) Inr show ?thesis by (cases r1) auto
  qed
qed

lemma add_addresses_quiet: "IPAM_Type n = '''' \<Longrightarrow> performs quiet (add_addresses env n a res)"
  by (simp add: add_addresses_def effects)

inductive address_fate :: "'a cni_host_scheme \<Rightarrow> history \<Rightarrow> err + unit \<Rightarrow> history \<Rightarrow> bool" for env h r where
  no_address: "list_all (\<lambda>c. \<not> is_add c \<and> \<not> is_del c) t \<Longrightarrow> address_fate env h r t"
| refused: "c_ipam env (h @ pre) p d = Inl e \<Longrightarrow> isl r \<Longrightarrow> list_all quiet pre \<Longrightarrow> list_all quiet rest \<Longrightarrow>
    address_fate env h r (pre @ IpamAdd p d # rest)"
| printed: "c_ipam env (h @ pre) p d = Inr x \<Longrightarrow> list_all quiet pre \<Longrightarrow> list_all quiet u \<Longrightarrow> list_all quiet w \<Longrightarrow>
    address_fate env h r (pre @ IpamAdd p d # u @ PrintResult res v # w)"
| released: "c_ipam env (h @ pre) p d = Inr x \<Longrightarrow> isl r \<Longrightarrow> list_all quiet pre \<Longrightarrow> list_all quiet u \<Longrightarrow> list_all quiet w \<Longrightarrow>
    address_fate env h r (pre @ IpamAdd p d # u @ IpamDel p d # w)"

lemma quiet_no_ipam: "list_all quiet t \<Longrightarrow> list_all (\<lambda>c. \<not> is_add c \<and> \<not> is_del c) t"
  by (simp add: list_all_iff quiet_def)

text \<open>Quiet calls before and after do not change it.\<close>

lemma address_fate_around:
  assumes "address_fate env (h @ a) r t" and "list_all quiet a" and "list_all quiet b"
  shows "address_fate env h r (a @ t @ b)"
  using assms(1)
proof cases
  case no_address
  with assms show ?thesis by (intro address_fate.no_address) (simp add: quiet_no_ipam)
next
  case (refused pre p d e rest)
  with assms address_fate.refused [of env h "a @ pre" p d e r "rest @ b"] show ?thesis by simp
next
  case (printed pre p d x u w res v)
  with assms address_fate.printed [of env h "a @ pre" p d x u "w @ b" r res v] show ?thesis by simp
next
  case (released pre p d x u w)
  with assms address_fate.released [of env h "a @ pre" p d x r u "w @ b"] show ?thesis by simp
qed

definition fated :: "'a cni_host_scheme \<Rightarrow> (call, unit) io \<Rightarrow> bool" where
  "fated env m \<longleftrightarrow> (\<forall>h r h'. run_state m h = (r, h') \<longrightarrow> (\<exists>t. h' = h @ t \<and> address_fate env h r t))"

lemma fated_check:
  assumes "performs quiet m" and "\<And>x. fated env (k x)"
  shows "fated env (check w m k)"
  unfolding fated_def
proof (intro allI impI)
  fix h r h'
  assume "run_state (check w m k) h = (r, h')"
  then show "\<exists>t. h' = h @ t \<and> address_fate env h r t"
  proof (cases rule: run_check_cases)
    case (1 e)
    from assms(1) 1(1) obtain t where "h' = h @ t" "list_all quiet t" by (rule performsE)
    then show ?thesis by (auto intro!: no_address simp: quiet_no_ipam)
  next
    case (2 x h1)
    from assms(1) 2(1) obtain s where s: "h1 = h @ s" "list_all quiet s" by (rule performsE)
    from assms(2) [of x] 2(2) obtain t where "h' = h1 @ t" "address_fate env h1 r t" unfolding fated_def by blast
    with s address_fate_around [of env h s r t "[]"] show ?thesis by simp
  qed
qed

lemma fated_deferred:
  assumes "fated env m" and "performs quiet d"
  shows "fated env (deferred m d)"
  unfolding fated_def
proof (intro allI impI)
  fix h r h'
  assume "run_state (deferred m d) h = (r, h')"
  then obtain h1 x where m: "run_state m h = (r, h1)" and d: "run_state d h1 = (x, h')"
    by (cases "run_state m h"; cases "run_state d (snd (run_state m h))") (auto simp: run_deferred)
  from assms(1) m obtain t where t: "h1 = h @ t" "address_fate env h r t" unfolding fated_def by blast
  from assms(2) d obtain u where "h' = h1 @ u" "list_all quiet u" by (rule performsE)
  with t address_fate_around [of env h "[]" r t u] show "\<exists>t. h' = h @ t \<and> address_fate env h r t" by auto
qed

text \<open>The rest of an ADD after the port is set up.\<close>

lemma second_half: "fated env (check id (add_addresses env n a res) (\<lambda>res'. act env (PrintResult res' v)))"
  unfolding fated_def
proof (intro allI impI)
  fix h r h'
  assume run: "run_state (check id (add_addresses env n a res) (\<lambda>res'. act env (PrintResult res' v))) h = (r, h')"
  let ?p = "IPAM_Type n" and ?d = "StdinData a"
  obtain r1 h1 where add: "run_state (add_addresses env n a res) h = (r1, h1)" by fastforce
  have ends: "r = Inl e \<and> h' = h1" if "r1 = Inl e" for e using run add that by simp
  have prints: "h' = h1 @ [PrintResult y v]" if "r1 = Inr y" for y using run add that by (simp add: act_def)
  show "\<exists>t. h' = h @ t \<and> address_fate env h r t"
  proof (cases "?p = ''''")
    case True
    from add_addresses_quiet [OF True] add obtain t where "h1 = h @ t" "list_all quiet t" by (rule performsE)
    with ends prints show ?thesis
      by (cases r1) (auto intro!: no_address simp: list_all_iff quiet_def is_add_def is_del_def)
  next
    case False
    from add False show ?thesis
    proof (cases rule: add_addresses_run)
      case (1 e)
      with ends refused [of env h "[]" ?p ?d e r "[]"] show ?thesis by auto
    next
      case (2 x y u)
      with prints printed [of env h "[]" ?p ?d x u "[]" r y v] show ?thesis by auto
    next
      case (3 x e u)
      with ends released [of env h "[]" ?p ?d x r u "[]"] show ?thesis by auto
    qed
  qed
qed

lemma cmdAdd_fated: "fated env (cmdAdd env a)"
  unfolding cmdAdd_def Let_def
  by (auto intro!: fated_check fated_deferred second_half effects split: prod.split)


lemma split_unique:
  assumes "a @ x # b = c @ y # d" and "list_all (\<lambda>z. \<not> P z) a" and "list_all (\<lambda>z. \<not> P z) b" and "P x" and "P y"
  shows "a = c \<and> x = y \<and> b = d"
  using assms
proof (induction a arbitrary: c)
  case Nil
  then show ?case by (cases c) (auto simp: list_all_iff)
next
  case (Cons z a)
  then show ?case by (cases c) auto
qed

lemma quiet_lists:
  "list_all quiet t \<Longrightarrow> \<not> list_ex is_add t \<and> \<not> list_ex is_del t \<and> \<not> list_ex is_print t \<and> filter is_del t = [] \<and>
     list_all (\<lambda>c. \<not> is_add c) t"
  by (simp add: list_all_iff list_ex_iff quiet_def filter_empty_conv)

lemma ipam_calls [simp]:
  "is_add (IpamAdd p d)" "\<not> is_del (IpamAdd p d)" "\<not> is_print (IpamAdd p d)"
  "\<not> is_add (IpamDel p d)" "is_del (IpamDel p d)" "\<not> is_print (IpamDel p d)"
  "\<not> is_add (PrintResult r v)" "\<not> is_del (PrintResult r v)" "is_print (PrintResult r v)"
  by (simp_all add: is_add_def is_del_def is_print_def)

text \<open>The fate of the one address an ADD allocates, told by the calls around its allocation.\<close>

lemma address_fate_allocated:
  assumes "address_fate env h r (h1 @ IpamAdd p d # h2)"
  shows "\<not> list_ex is_add h1 \<and> \<not> list_ex is_del h1 \<and> \<not> list_ex is_add h2 \<and>
    (case c_ipam env (h @ h1) p d of
       Inl e \<Rightarrow> isl r \<and> \<not> list_ex is_del h2
     | Inr x \<Rightarrow> list_ex is_print h2 \<and> \<not> list_ex is_del h2 \<or>
         isl r \<and> \<not> list_ex is_print h2 \<and> filter is_del h2 = [IpamDel p d])"
  using assms
proof cases
  case no_address
  then show ?thesis by simp
next
  case (refused pre q e x rest)
  from split_unique [OF refused(1) [symmetric], of is_add] refused quiet_lists
  have "pre = h1 \<and> IpamAdd q e = IpamAdd p d \<and> rest = h2" by simp
  with refused quiet_lists [of h1] quiet_lists [of h2] show ?thesis by simp
next
  case (printed pre q e x u w res v)
  from split_unique [OF printed(1) [symmetric], of is_add] printed quiet_lists
  have "pre = h1 \<and> IpamAdd q e = IpamAdd p d \<and> u @ PrintResult res v # w = h2" by simp
  with printed quiet_lists [of h1] quiet_lists [of u] quiet_lists [of w] show ?thesis by auto
next
  case (released pre q e x u w)
  from split_unique [OF released(1) [symmetric], of is_add] released quiet_lists
  have "pre = h1 \<and> IpamAdd q e = IpamAdd p d \<and> u @ IpamDel q e # w = h2" by simp
  with released quiet_lists [of h1] quiet_lists [of u] quiet_lists [of w] show ?thesis by auto
qed

lemma cmdAdd_allocated:
  assumes "run_state (cmdAdd env a) [] = (r, h1 @ IpamAdd p d # h2)"
  shows "\<not> list_ex is_add h1 \<and> \<not> list_ex is_del h1 \<and> \<not> list_ex is_add h2 \<and>
    (case c_ipam env h1 p d of
       Inl e \<Rightarrow> isl r \<and> \<not> list_ex is_del h2
     | Inr x \<Rightarrow> list_ex is_print h2 \<and> \<not> list_ex is_del h2 \<or>
         isl r \<and> \<not> list_ex is_print h2 \<and> filter is_del h2 = [IpamDel p d])"
  using cmdAdd_fated [of env a] assms address_fate_allocated [of env "[]" r h1 p d h2]
  unfolding fated_def by fastforce

section \<open>A DEL whose port is gone\<close>

lemma cmdDel_no_port:
  assumes "loadNetConf (StdinData a) = Inr (n, v)" and "getPodInfo (h_env env [] ''CNI_ARGS'') = Inr (ns, name)"
    and "Netns a \<noteq> ''''" and "h_text env [] (Exec (findPort_command (Netns a) ns name)) = Inr out"
    and "Unmarshal_Data out = Inr []"
  shows "run_state (cmdDel env a) [] =
    (Inl (ErrorMsg ''OVS port was not found''), [Exec (findPort_command (Netns a) ns name)])"
proof -
  have find: "run_state (cni_findPort env (Netns a) ns name) [] =
      (Inl (ErrorMsg ''OVS port was not found''), [Exec (findPort_command (Netns a) ns name)])"
    using assms(4,5) by (simp add: cni_findPort_def run_command_def run_check)
  show ?thesis
    using assms(1-3) find by (simp add: cmdDel_def run_check)
qed

section \<open>Finding the port\<close>

text \<open>
  \<^verbatim>\<open>ovs-vsctl\<close> reads its arguments as commands between \<^verbatim>\<open>--\<close>; a \<^verbatim>\<open>set\<close> names a table and a record, and the settings follow.
  A \<^verbatim>\<open>find\<close> has its conditions after the table.
\<close>

fun segments :: "string list \<Rightarrow> string list list" where
  "segments [] = [[]]"
| "segments (a # as) =
     (if a = ''--'' then [] # segments as
      else (case segments as of [] \<Rightarrow> [[a]] | s # ss \<Rightarrow> (a # s) # ss))"

definition stored :: "string \<Rightarrow> string \<Rightarrow> command \<Rightarrow> string set" where
  "stored table record cmd = (\<Union>s\<in>set (segments (args cmd)). if take 3 s = [''set'', table, record] then set (drop 3 s) else {})"

definition conditions :: "command \<Rightarrow> string set" where
  "conditions cmd = set (tl (dropWhile (\<lambda>a. a \<noteq> ''port'') (args cmd)))"

lemma segments_nonempty [simp]: "segments as \<noteq> []"
  by (induction as) (auto split: list.split)

lemma segments_append: "''--'' \<notin> set s \<Longrightarrow> segments (s @ ''--'' # as) = s # segments as"
  by (induction s) auto

lemma segments_last: "''--'' \<notin> set s \<Longrightarrow> segments s = [s]"
  by (induction s) auto

lemma addPort_stores:
  assumes "port \<noteq> ''--''" and "bridge \<noteq> ''--''"
  shows "set (pod_ids netns ns name) \<subseteq> stored ''port'' port (addPort_command bridge port m netns ns name) \<and>
    set (pod_ids netns ns name) \<subseteq> stored ''interface'' port (addPort_command bridge port m netns ns name)"
proof -
  let ?ids = "pod_ids netns ns name"
  have no_sep: "''--'' \<notin> set ?ids" by (auto simp: pod_ids_def)
  have n1: "''--'' \<notin> set [''--may-exist'', ''add-port'', bridge, port]" and n2: "''--'' \<notin> set ([''set'', ''port'', port] @ ?ids)"
    and n3: "''--'' \<notin> set ([''set'', ''interface'', port] @ ?ids)"
    and n4: "''--'' \<notin> set [''set'', ''port'', port, ''mac=\"'' @ m @ ''\"'']"
    using assms no_sep by auto
  have "args (addPort_command bridge port m netns ns name) =
      [''--may-exist'', ''add-port'', bridge, port] @ ''--'' # ([''set'', ''port'', port] @ ?ids) @
      ''--'' # ([''set'', ''interface'', port] @ ?ids) @ ''--'' # [''set'', ''port'', port, ''mac=\"'' @ m @ ''\"'']"
    by (simp add: addPort_command_def vsctl_def)
  then have "segments (args (addPort_command bridge port m netns ns name)) =
      [[''--may-exist'', ''add-port'', bridge, port], [''set'', ''port'', port] @ ?ids,
       [''set'', ''interface'', port] @ ?ids, [''set'', ''port'', port, ''mac=\"'' @ m @ ''\"'']]"
    using segments_append [OF n1] segments_append [OF n2] segments_append [OF n3] segments_last [OF n4]
    by (simp only: append_Cons append_Nil append_assoc)
  then show ?thesis by (auto simp: stored_def)
qed

text \<open>Both searches for a pod's port, of the plugin and of the daemon, ask only for what an ADD has stored.\<close>

lemma plugin_conditions: "conditions (findPort_command netns ns name) = set (pod_ids netns ns name)"
  by (simp add: conditions_def findPort_command_def vsctl_def)

lemma daemon_conditions:
  assumes "findPort env ns name = Some (r, t)" and "c \<in> set t"
  shows "conditions c \<subseteq> set (pod_ids netns ns name)"
  using assms
  by (auto simp: findPort_def Let_def conditions_def vsctl_def pod_ids_def split: sum.split_asm list.split_asm)


section \<open>The addresses an ADD leaves on the bridge\<close>

definition addr_change :: "call \<Rightarrow> (bool \<times> IPNet) option" where
  "addr_change c = (case c of AddrAdd l n \<Rightarrow> Some (True, n) | AddrDel l n \<Rightarrow> Some (False, n) | _ \<Rightarrow> None)"

definition conflicts :: "int \<Rightarrow> IPNet \<Rightarrow> IPNet \<Rightarrow> bool" where
  "conflicts family ipn a \<longleftrightarrow> family = FAMILY_V4 \<or> IPNet_Contains a (net_IP ipn) \<or> IPNet_Contains ipn (net_IP a)"

definition addr_plan :: "int \<Rightarrow> IPNet \<Rightarrow> IPNet list \<Rightarrow> (bool \<times> IPNet) list" where
  "addr_plan family ipn addrs =
     map (\<lambda>a. (False, a)) (filter (conflicts family ipn) (takeWhile (\<lambda>a. IPNet_String a \<noteq> IPNet_String ipn) addrs)) @
     (if list_ex (\<lambda>a. IPNet_String a = IPNet_String ipn) addrs then [] else [(True, ipn)])"

lemma follows_add_bridge_addr: "follows addr_change [(True, ipn)] (add_bridge_addr env br ipn)"
proof -
  have "follows addr_change ([(True, ipn)] @ [] @ []) (add_bridge_addr env br ipn)"
    unfolding add_bridge_addr_def
    by (intro follows_check follows_ok) (simp_all add: act_def follows_call follows_read addr_change_def)
  then show ?thesis by simp
qed

text \<open>
  With \<^verbatim>\<open>forceAddress\<close>, the conflicting addresses in front of the wanted one are removed, and it is added if it was
  not there; the addresses behind it are never looked at.
\<close>

lemma ensure_addrs_follows: "follows addr_change (addr_plan family ipn addrs) (ensure_addrs env br family ipn True addrs)"
proof (induction addrs)
  case Nil
  show ?case by (simp add: addr_plan_def follows_add_bridge_addr)
next
  case (Cons a addrs)
  have del: "follows addr_change ([(False, a)] @ []) (deleteBridgeAddr env br a)"
    unfolding deleteBridgeAddr_def
    by (intro follows_check follows_ok) (simp add: act_def follows_call addr_change_def)
  show ?case
  proof (cases "IPNet_String a = IPNet_String ipn")
    case True
    then show ?thesis by (simp add: addr_plan_def follows_ok)
  next
    case False
    show ?thesis
    proof (cases "conflicts family ipn a")
      case True
      then have plan: "addr_plan family ipn (a # addrs) = [(False, a)] @ addr_plan family ipn addrs"
        using False by (simp add: addr_plan_def)
      have "follows addr_change ([(False, a)] @ addr_plan family ipn addrs)
          (check id (deleteBridgeAddr env br a) (\<lambda>_. ensure_addrs env br family ipn True addrs))"
        using del by (intro follows_check Cons.IH) simp_all
      then show ?thesis using True False unfolding plan by (simp add: conflicts_def)
    next
      case no: False
      then have "addr_plan family ipn (a # addrs) = addr_plan family ipn addrs"
        using False by (simp add: addr_plan_def)
      then show ?thesis using no False Cons.IH by (simp add: conflicts_def)
    qed
  qed
qed


section \<open>The pod's devices and what they are given\<close>

lemma setupVeth_success:
  assumes "links_ok env ix" and "run_state (setupVeth env netns ifName) h = (Inr (hv, cv), h')"
  shows "\<exists>pre c l l'. h' = h @ EnterNS netns # pre @ [LinkAdd ifName (if_Name hv) 1500, LinkByName ifName, LinkSetUp c,
      LinkByName (if_Name hv), LinkSetNs l, EnterHostNS, LinkByName (if_Name hv), LinkSetUp l', LeaveHostNS,
      LeaveNS netns, LinkByName (if_Name hv)] \<and>
    length (filter is_link_add pre) < 10 \<and> (\<exists>e. if_Name hv = ''veth'' @ hexString e) \<and>
    if_Name cv = ifName \<and> if_Sandbox cv = netns \<and> if_Sandbox hv = '''' \<and>
    link_Name c = ifName \<and> link_Name l = if_Name hv \<and> link_Name l' = if_Name hv"
proof -
  from assms(2) obtain hv0 cv0 h1 where run: "run_state (SetupVeth env ifName 1500) (h @ [EnterNS netns]) = (Inr (hv0, cv0), h1)"
    and res: "if_Name hv = if_Name hv0" "if_Sandbox hv = ''''" "if_Name cv = if_Name cv0" "if_Sandbox cv = netns"
      "h' = h1 @ [LeaveNS netns, LinkByName (if_Name hv0)]"
    unfolding setupVeth_def in_netns_def
    by (auto simp: run_deferred act_def link_by_name_def silent_def Let_def split: prod.split_asm elim!: run_check_Inr)
  from SetupVeth_success [OF assms(1) run] obtain pre c l l' where
    "h1 = (h @ [EnterNS netns]) @ pre @ [LinkAdd ifName (if_Name hv0) 1500, LinkByName ifName, LinkSetUp c, LinkByName (if_Name hv0),
      LinkSetNs l, EnterHostNS, LinkByName (if_Name hv0), LinkSetUp l', LeaveHostNS]"
    "length (filter is_link_add pre) < 10" "\<exists>e. if_Name hv0 = ''veth'' @ hexString e" "if_Name cv0 = ifName"
    "link_Name c = ifName" "link_Name l = if_Name hv0" "link_Name l' = if_Name hv0" by blast
  with res show ?thesis by (intro exI [of _ pre] exI [of _ c] exI [of _ l] exI [of _ l']) simp
qed

lemma gateways_interfaces:
  assumes "calcGateways base n = Inr (res, g4, g6)"
  shows "IPs res = map (completed n) (IPs base)"
proof -
  from assms obtain ips routes where c: "calc_gateways n (IPs base) (Routes base) no_gw no_gw = Inr (ips, routes, g4, g6)"
    and res: "IPs res = ips" by (auto simp: calcGateways_def split: sum.split_asm)
  from calc_gateways_addresses [OF c] show ?thesis by (simp add: res)
qed

lemma given_nothing: "performs (\<lambda>c. given_by c = None) (disableIPV6DAD env i)"
  unfolding disableIPV6DAD_def by (auto intro!: effects performs_bind split: sum.split)

lemma configure_container_follows:
  assumes "calcGateways base n = Inr (res, g4, g6)"
  shows "follows given_by (map (\<lambda>ipc. GivenAddress (ipc_Address ipc)) (IPs base) @
    map (\<lambda>r. GivenRoute (rt_Dst r) (route_gateway (first_gateway True (IPs res)) (first_gateway False (IPs res)) r)) (Routes res))
    (configure_container env n a res)"
proof -
  let ?given = "map (\<lambda>ipc. GivenAddress (ipc_Address ipc)) (IPs base) @
    map (\<lambda>r. GivenRoute (rt_Dst r) (route_gateway (first_gateway True (IPs res)) (first_gateway False (IPs res)) r)) (Routes res)"
  have ips: "IPs res = map (completed n) (IPs base)" by (rule gateways_interfaces [OF assms])
  have cfg: "follows given_by ?given (ConfigureIface env (IfName a) res)"
    using ConfigureIface_follows [of res env "IfName a"] by (simp add: ips completed_def comp_def)
  have arps: "follows given_by [] (each (\<lambda>ipc. if ipc_Version ipc = ''4''
       then do { _ \<leftarrow> silent (GratuitousArp (net_IP (ipc_Address ipc)) (if_Name v)); ok () } else ok ()) (IPs res))" for v
    by (intro follows_reads performs_each) (auto intro!: effects performs_bind)
  have dad: "follows given_by [] (if b then disableIPV6DAD env (IfName a) else ok ())" for b
    by (simp add: follows_ok follows_reads [OF given_nothing])
  have iface: "follows given_by [] (interface_by_name env (IfName a))" "follows given_by [] (act env (EnterNS (Netns a)))"
    by (simp_all add: interface_by_name_def act_def follows_read)
  have "follows given_by ([] @ [] @ ?given @ []) (check id (interface_by_name env (IfName a)) (\<lambda>contVeth.
        check id
          (if list_ex (\<lambda>ipc. ipc_Version ipc = ''6'' \<and> (HairpinMode n \<or> PromiscMode n)) (IPs res)
           then disableIPV6DAD env (IfName a) else ok ()) (\<lambda>_.
        check id (ConfigureIface env (IfName a) res) (\<lambda>_.
        each (\<lambda>ipc. if ipc_Version ipc = ''4''
                     then do { _ \<leftarrow> silent (GratuitousArp (net_IP (ipc_Address ipc)) (if_Name contVeth)); ok () }
                     else ok ()) (IPs res)))))"
    by (intro follows_check iface dad cfg arps)
  then have body: "follows given_by ?given (deferred (check id (interface_by_name env (IfName a)) (\<lambda>contVeth.
        check id
          (if list_ex (\<lambda>ipc. ipc_Version ipc = ''6'' \<and> (HairpinMode n \<or> PromiscMode n)) (IPs res)
           then disableIPV6DAD env (IfName a) else ok ()) (\<lambda>_.
        check id (ConfigureIface env (IfName a) res) (\<lambda>_.
        each (\<lambda>ipc. if ipc_Version ipc = ''4''
                     then do { _ \<leftarrow> silent (GratuitousArp (net_IP (ipc_Address ipc)) (if_Name contVeth)); ok () }
                     else ok ()) (IPs res))))) (silent (LeaveNS (Netns a))))"
    by (intro follows_deferred) (auto intro: effects)
  from follows_check [OF iface(2) body, where w = id] show ?thesis
    unfolding configure_container_def in_netns_def by simp
qed

end
