(* ===== verification/PodNetwork.thy ===== *)
theory PodNetwork
  imports Daemon CniPlugin
begin

text \<open>
  Where the daemon and the CNI plugin meet: the plugin reads the configuration the daemon has installed
  (\<open>load_installed\<close>), and what the kubelet tells it about the pod (\<open>fold_pod_arg\<close>).
\<close>

section \<open>The configuration the daemon installs\<close>

definition installed_conf :: NetConf where
  "installed_conf = default_conf\<lparr>nc_Name := ''k-vswitch-cni'', nc_Type := ''k-vswitch-cni'', BridgeName := ''k-vswitch0'',
     IsDefaultGW := True, IPAM_Type := ''host-local''\<rparr>"

definition conf_json :: "string \<Rightarrow> json" where
  "conf_json pod_cidr =
     JObj [(''name'', JStr ''k-vswitch-cni''), (''type'', JStr ''k-vswitch-cni''), (''bridge'', JStr ''k-vswitch0''),
       (''isGateway'', JBool True), (''isDefaultGateway'', JBool True),
       (''ipam'', JObj [(''type'', JStr ''host-local''), (''subnet'', JStr pod_cidr)])]"

definition head_tokens :: "token list" where
  "head_tokens =
     [LBrace, TStr ''name'', Colon, TStr ''k-vswitch-cni'', Comma, TStr ''type'', Colon, TStr ''k-vswitch-cni'', Comma,
      TStr ''bridge'', Colon, TStr ''k-vswitch0'', Comma, TStr ''isGateway'', Colon, TLit ''true'', Comma,
      TStr ''isDefaultGateway'', Colon, TLit ''true'', Comma, TStr ''ipam'', Colon, LBrace,
      TStr ''type'', Colon, TStr ''host-local'', Comma, TStr ''subnet'', Colon]"

lemma lex_head: "lex_part Between cni_conf_head = Some (head_tokens, InStr [])"
  by code_simp

lemma lex_tail: "lex (InStr a) cni_conf_tail = Some [TStr a, RBrace, RBrace]"
proof -
  have tail: "cni_conf_tail = CHR 0x22 # tl cni_conf_tail" by code_simp
  have rest: "lex Between (tl cni_conf_tail) = Some [RBrace, RBrace]" by code_simp
  have "lex (InStr a) (CHR 0x22 # s) = map_option ((#) (TStr a)) (lex Between s)" for s by simp
  from this [of "tl cni_conf_tail"] show ?thesis unfolding rest tail [symmetric] by simp
qed

lemma parse_conf:
  assumes "plain_text pod_cidr"
  shows "parse_json (cni_conf pod_cidr) = Some (conf_json pod_cidr)"
proof -
  have "lex (InStr []) (pod_cidr @ cni_conf_tail) = Some [TStr pod_cidr, RBrace, RBrace]"
    using lex_part_append [OF lex_part_plain [OF assms, of "[]"], of cni_conf_tail] by (simp add: lex_tail)
  then have "lex Between (cni_conf pod_cidr) = Some (head_tokens @ [TStr pod_cidr, RBrace, RBrace])"
    using lex_part_append [OF lex_head, of "pod_cidr @ cni_conf_tail"] by (simp add: cni_conf_def)
  then show ?thesis
    by (simp add: parse_json_def head_tokens_def conf_json_def literal_def)
qed

lemma into_conf: "into_struct conf_field (conf_json pod_cidr) default_conf = Inr installed_conf"
proof -
  have names: "ToLower ''name'' = ''name''" "ToLower ''type'' = ''type''" "ToLower ''bridge'' = ''bridge''"
    "ToLower ''isGateway'' = ''isgateway''" "ToLower ''isDefaultGateway'' = ''isdefaultgateway''"
    "ToLower ''ipam'' = ''ipam''" "ToLower ''subnet'' = ''subnet''" by code_simp+
  show ?thesis
    by (simp add: conf_json_def conf_field_def ipam_field_def set_field_def names installed_conf_def Let_def)
qed

lemma load_installed:
  assumes "plain_text pod_cidr"
  shows "loadNetConf (cni_conf pod_cidr) = Inr (installed_conf, '''')"
  using parse_conf [OF assms] into_conf
  by (simp add: loadNetConf_def) (simp add: installed_conf_def default_conf_def)

section \<open>The pod of an ADD\<close>

lemma fold_pod_arg:
  assumes "\<And>a. a \<in> set as \<Longrightarrow> Contains a ''K8S_POD_NAMESPACE'' \<Longrightarrow> a = ''K8S_POD_NAMESPACE='' @ ns"
    and "\<And>a. a \<in> set as \<Longrightarrow> Contains a ''K8S_POD_NAME'' \<Longrightarrow> \<not> Contains a ''K8S_POD_NAMESPACE'' \<Longrightarrow> a = ''K8S_POD_NAME='' @ nm"
    and "\<not> Contains nm ''K8S_POD_NAMESPACE''"
  shows "fold pod_arg as (x, y) =
    ((if ''K8S_POD_NAMESPACE='' @ ns \<in> set as then ns else x), (if ''K8S_POD_NAME='' @ nm \<in> set as then nm else y))"
  using assms(1,2)
proof (induction as arbitrary: x y)
  case (Cons a as)
  let ?N = "''K8S_POD_NAMESPACE='' @ ns" and ?M = "''K8S_POD_NAME='' @ nm"
  have N: "Contains ?N ''K8S_POD_NAMESPACE''" using Contains_prefix [of "''K8S_POD_NAMESPACE''" "''='' @ ns"] by simp
  have M: "Contains ?M ''K8S_POD_NAME''" using Contains_prefix [of "''K8S_POD_NAME''" "''='' @ nm"] by simp
  have M': "\<not> Contains ?M ''K8S_POD_NAMESPACE''" using assms(3) Contains_name by metis
  have IH: "fold pod_arg as (x, y) = ((if ?N \<in> set as then ns else x), (if ?M \<in> set as then nm else y))" for x y
    by (rule Cons.IH) (use Cons.prems in auto)
  consider "a = ?N" | "a = ?M" "a \<noteq> ?N" | "\<not> Contains a ''K8S_POD_NAMESPACE''" "\<not> Contains a ''K8S_POD_NAME''" "a \<noteq> ?N" "a \<noteq> ?M"
    using Cons.prems(1,2) [of a] N M by (metis list.set_intros(1))
  then show ?case
  proof cases
    case 1
    then have "pod_arg a (x, y) = (ns, y)" using N by (simp add: pod_arg_def del: Contains.simps append.simps)
    moreover have "?N \<noteq> ?M" using N M' by metis
    ultimately show ?thesis using 1 IH by simp
  next
    case 2
    then have "pod_arg a (x, y) = (x, nm)" using M M' by (simp add: pod_arg_def del: Contains.simps append.simps)
    with 2 IH show ?thesis by auto
  next
    case 3
    then have "pod_arg a (x, y) = (x, y)" by (simp add: pod_arg_def)
    with 3 IH show ?thesis by auto
  qed
qed simp

end
