(* ===== verification/ControllerMain.thy ===== *)
theory ControllerMain
  imports Host InformerFactory VSwitchCfg
begin

text \<open>
  \<^verbatim>\<open>cmd/k-vswitch-controller/main.go\<close>: the cluster controller's start.  The flags are its arguments, after
  \<^verbatim>\<open>flag.Parse\<close> (the overlay type is \<^verbatim>\<open>vxlan\<close> unless it is given); an \<^verbatim>\<open>os.Exit(1)\<close> is an error.
\<close>

definition defaultOverlayType :: string where
  "defaultOverlayType = ''vxlan''"

record flags =
  fl_clusterCIDR :: string
  fl_serviceCIDR :: string
  fl_overlayType :: string

text \<open>The flags that are not given have their defaults.\<close>

definition parsed_flags :: "string option \<Rightarrow> string option \<Rightarrow> string option \<Rightarrow> flags" where
  "parsed_flags cluster service overlay =
     \<lparr>fl_clusterCIDR = (case cluster of None \<Rightarrow> '''' | Some s \<Rightarrow> s),
      fl_serviceCIDR = (case service of None \<Rightarrow> '''' | Some s \<Rightarrow> s),
      fl_overlayType = (case overlay of None \<Rightarrow> defaultOverlayType | Some s \<Rightarrow> s)\<rparr>"

definition controller_main :: "'a host_scheme \<Rightarrow> flags \<Rightarrow> (call, vswitchConfig) io" where
  "controller_main env fl =
     (if fl_clusterCIDR fl = '''' then fail (ErrorMsg ''--cluster-cidr is required'')
      else if fl_serviceCIDR fl = '''' then fail (ErrorMsg ''--service-cidr is required'')
      else if fl_overlayType fl \<noteq> ''vxlan'' \<and> fl_overlayType fl \<noteq> ''gre'' then fail (ErrorMsg ''invalid overlay type'')
      else
        check id (act env InClusterConfig) (\<lambda>_.
        check id (act env (NewClientset ''kubernetes'')) (\<lambda>_.
        check id (act env (NewClientset ''kvswitch'')) (\<lambda>_.
        (let kvs = NewSharedInformerFactory 0 :: int factory;
             core = NewSharedInformerFactory 0 :: int factory
         in check id (call (\<lambda>h. Inr ()) (Await (awaited kvs))) (\<lambda>_.
            check id (call (\<lambda>h. Inr ()) (Await (awaited core))) (\<lambda>_.
            let kvs = snd (InformerFor ''VSwitchConfig'' (\<lambda>resync. resync) kvs);
                vswitchController = NewVSwitchConfigController (fl_overlayType fl) (fl_clusterCIDR fl) (fl_serviceCIDR fl);
                core = snd (InformerFor ''Node'' (\<lambda>resync. resync) core)
            in check id (call (\<lambda>h. Inr ()) (RunInformers (fst (Start kvs)))) (\<lambda>_.
               check id (call (\<lambda>h. Inr ()) (RunInformers (fst (Start core)))) (\<lambda>_.
               ok vswitchController)))))))))"

text \<open>A controller that starts writes an overlay type the daemon can use, with both CIDRs set.\<close>

lemma controller_main_valid:
  assumes "run_state (controller_main env fl) h = (Inr v, h')"
  shows "vc_overlayType v \<in> {''vxlan'', ''gre''} \<and> vc_clusterCIDR v \<noteq> '''' \<and> vc_serviceCIDR v \<noteq> ''''"
  using assms
  by (auto simp: controller_main_def Let_def NewVSwitchConfigController_def split: if_split_asm elim!: run_check_Inr)

text \<open>It waits for the caches before any informer is started, so for none.\<close>

lemma controller_main_waits:
  assumes "run_state (controller_main env fl) h = (Inr v, h')"
  shows "h' = h @ [InClusterConfig, NewClientset ''kubernetes'', NewClientset ''kvswitch'', Await [], Await [],
    RunInformers [''VSwitchConfig''], RunInformers [''Node'']]"
  using assms
  by (auto simp: controller_main_def Let_def act_def InformerFor_def NewSharedInformerFactory_def
      NewSharedInformerFactoryWithOptions_def awaited_def Start_def split: if_split_asm elim!: run_check_Inr)

end
