(* ===== verification/Masquerade.thy ===== *)
theory Masquerade
  imports CniPlugin "HOL-Library.Multiset"
begin

text \<open>
  What the plugin's masquerading leaves in the nat tables.  A table is its chains in order, with their rules; \<open>apply_op\<close> is what
  the manual of \<^verbatim>\<open>iptables\<close> says of an operation, \<^const>\<open>None\<close> where it is refused: a new chain must not exist, a deleted rule
  must be there, a deleted chain must be empty and no rule may lead to it.  \<open>canon\<close> is the form in which a rule is
  kept.  \<open>iptables_ok\<close> says that the host's answers are these, for the tables that its history makes of those at the start.

  \<open>setup_tables\<close>, \<open>teardown_tables\<close>: what an ADD does to the tables, and that a DEL undoes it; \<open>two_networks_stuck\<close>: except
  for a second network of the same family.
\<close>

section \<open>The nat table\<close>

type_synonym nat_rule = "string list"
type_synonym nat_table = "(string \<times> nat_rule list) list"

text \<open>The chain a rule leads to.\<close>

definition target :: "nat_rule \<Rightarrow> string option" where
  "target r = (case dropWhile (\<lambda>x. x \<noteq> ''-j'') r of _ # t # _ \<Rightarrow> Some t | _ \<Rightarrow> None)"

definition referenced :: "nat_table \<Rightarrow> string \<Rightarrow> bool" where
  "referenced t c \<longleftrightarrow> list_ex (\<lambda>(_, rs). list_ex (\<lambda>r. target r = Some c) rs) t"

definition on_chain :: "string \<Rightarrow> (nat_rule list \<Rightarrow> nat_rule list) \<Rightarrow> nat_table \<Rightarrow> nat_table" where
  "on_chain c f t = map (\<lambda>(n, rs). (n, if n = c then f rs else rs)) t"

fun apply_op :: "(nat_rule \<Rightarrow> nat_rule) \<Rightarrow> nat_op \<Rightarrow> nat_table \<Rightarrow> nat_table option" where
  "apply_op canon ListChains t = Some t"
| "apply_op canon (NewChain c) t = (if map_of t c = None then Some (t @ [(c, [])]) else None)"
| "apply_op canon (AppendRule c r) t =
     (case map_of t c of
        None \<Rightarrow> None
      | Some rs \<Rightarrow> Some (if canon r \<in> set rs then t else on_chain c (\<lambda>rs. rs @ [canon r]) t))"
| "apply_op canon (DeleteRule c r) t =
     (case map_of t c of
        None \<Rightarrow> None
      | Some rs \<Rightarrow> if canon r \<in> set rs then Some (on_chain c (remove1 (canon r)) t) else None)"
| "apply_op canon (ClearChain c) t =
     (if map_of t c = None then Some (t @ [(c, [])]) else Some (on_chain c (\<lambda>_. []) t))"
| "apply_op canon (DeleteChain c) t =
     (if map_of t c = Some [] \<and> \<not> referenced t c then Some (filter (\<lambda>(n, _). n \<noteq> c) t) else None)"

text \<open>The tables of the two families after some calls.\<close>

fun nat_step :: "(nat_rule \<Rightarrow> nat_rule) \<Rightarrow> call \<Rightarrow> (bool \<Rightarrow> nat_table) \<Rightarrow> bool \<Rightarrow> nat_table" where
  "nat_step canon (Ipt v nop) t =
     (case apply_op canon nop (t v) of None \<Rightarrow> t | Some t' \<Rightarrow> t(v := t'))"
| "nat_step canon _ t = t"

definition tables :: "(nat_rule \<Rightarrow> nat_rule) \<Rightarrow> (bool \<Rightarrow> nat_table) \<Rightarrow> history \<Rightarrow> bool \<Rightarrow> nat_table" where
  "tables canon t0 h = fold (nat_step canon) h t0"

definition iptables_ok :: "(nat_rule \<Rightarrow> nat_rule) \<Rightarrow> (bool \<Rightarrow> nat_table) \<Rightarrow> 'a cni_host_scheme \<Rightarrow> bool" where
  "iptables_ok canon t0 env \<longleftrightarrow>
     (\<forall>h v. h_act env h (IptNew v) = Inr () \<and> c_chains env h v = Inr (map fst (tables canon t0 h v)) \<and>
        (\<forall>nop. isl (h_act env h (Ipt v nop)) \<longleftrightarrow> apply_op canon nop (tables canon t0 h v) = None))"

text \<open>The form of a rule has its target, and holds the network of the address that \<^verbatim>\<open>-s\<close> gives.\<close>

definition canon_ok :: "(nat_rule \<Rightarrow> nat_rule) \<Rightarrow> IPNet list \<Rightarrow> bool" where
  "canon_ok canon ipnets \<longleftrightarrow> (\<forall>r. target (canon r) = target r) \<and>
     (\<forall>ipn\<in>set ipnets. \<forall>rest. canon (''-s'' # IPNet_String ipn # rest) = canon (''-s'' # IPNet_String (Network ipn) # rest))"

section \<open>Rules\<close>

definition jump_rule :: "string \<Rightarrow> string \<Rightarrow> IPNet \<Rightarrow> nat_rule" where
  "jump_rule chain comment ipn = commented [''-s'', IPNet_String ipn, ''-j'', chain] comment"

definition accept_rule :: "string \<Rightarrow> IPNet \<Rightarrow> nat_rule" where
  "accept_rule comment ipn = commented [''-d'', IPNet_String ipn, ''-j'', ''ACCEPT''] comment"

definition masquerade_rule :: "string \<Rightarrow> bool \<Rightarrow> nat_rule" where
  "masquerade_rule comment isV6 =
     commented [''!'', ''-d'', if isV6 then ''ff00::/8'' else ''224.0.0.0/4'', ''-j'', ''MASQUERADE''] comment"

lemma IPNet_String_no_option: "IPNet_String n \<noteq> ''-j''"
proof -
  have "IPNet_String n = ''<nil>'' \<or> CHR ''/'' \<in> set (IPNet_String n)"
    by (auto simp: IPNet_String_def Let_def split: prod.split option.split)
  then show ?thesis by auto
qed

lemma rule_targets [simp]:
  "target (jump_rule chain comment ipn) = Some chain" "target (accept_rule comment ipn) = Some ''ACCEPT''"
  "target (masquerade_rule comment v) = Some ''MASQUERADE''"
  using IPNet_String_no_option [of ipn]
  by (simp_all add: target_def jump_rule_def accept_rule_def masquerade_rule_def commented_def)

definition isV6 :: "IPNet \<Rightarrow> bool" where
  "isV6 ipn \<longleftrightarrow> To4 (net_IP ipn) = []"

definition chain_rules :: "(nat_rule \<Rightarrow> nat_rule) \<Rightarrow> string \<Rightarrow> IPNet \<Rightarrow> nat_rule list" where
  "chain_rules canon comment ipn =
     (let a = canon (accept_rule comment ipn); m = canon (masquerade_rule comment (isV6 ipn)) in if m = a then [a] else [a, m])"

text \<open>A table with the rules for a network, on one without the chain.\<close>

definition masqueraded :: "(nat_rule \<Rightarrow> nat_rule) \<Rightarrow> string \<Rightarrow> string \<Rightarrow> IPNet \<Rightarrow> nat_table \<Rightarrow> nat_table" where
  "masqueraded canon chain comment ipn t =
     on_chain ''POSTROUTING'' (\<lambda>rs. rs @ [canon (jump_rule chain comment ipn)]) (t @ [(chain, chain_rules canon comment ipn)])"

definition fresh_chain :: "string \<Rightarrow> nat_table \<Rightarrow> bool" where
  "fresh_chain chain t \<longleftrightarrow> map_of t chain = None \<and> \<not> referenced t chain \<and> map_of t ''POSTROUTING'' \<noteq> None"

section \<open>Chains of a table\<close>

lemma on_chain_append [simp]: "on_chain c f (t @ u) = on_chain c f t @ on_chain c f u"
  by (simp add: on_chain_def)

lemma on_chain_one [simp]: "on_chain c f [(n, rs)] = [(n, if n = c then f rs else rs)]"
  by (simp add: on_chain_def)

lemma on_chain_absent: "map_of t c = None \<Longrightarrow> on_chain c f t = t"
  by (induction t) (auto simp: on_chain_def split: if_split_asm)

lemma map_of_on_chain: "map_of (on_chain c f t) n = (if n = c then map_option f (map_of t n) else map_of t n)"
  by (induction t) (auto simp: on_chain_def)

lemma on_chain_on_chain: "on_chain c g (on_chain c f t) = on_chain c (g \<circ> f) t"
  by (simp add: on_chain_def case_prod_beta comp_def)

lemma on_chain_id: "(\<And>rs. (c, rs) \<in> set t \<Longrightarrow> f rs = rs) \<Longrightarrow> on_chain c f t = t"
  by (induction t) (auto simp: on_chain_def)

lemma referenced_append [simp]: "referenced (t @ u) c \<longleftrightarrow> referenced t c \<or> referenced u c"
  by (simp add: referenced_def)

lemma not_referenced: "\<not> referenced t c \<Longrightarrow> (n, rs) \<in> set t \<Longrightarrow> r \<in> set rs \<Longrightarrow> target r \<noteq> Some c"
  by (auto simp: referenced_def list_ex_iff)

lemma filter_fresh: "map_of t c = None \<Longrightarrow> filter (\<lambda>(n, _). n \<noteq> c) t = t"
  by (induction t) (auto split: if_split_asm)

section \<open>Setting up\<close>

lemma tables_call: "tables canon t0 (h @ [c]) = nat_step canon c (tables canon t0 h)"
  by (simp add: tables_def)

lemma tables_append: "tables canon t0 (h @ t) = fold (nat_step canon) t (tables canon t0 h)"
  by (simp add: tables_def)

lemma run_ipt:
  assumes "iptables_ok canon t0 env" and "apply_op canon nop (tables canon t0 h v) = Some t'"
  shows "run_state (act env (Ipt v nop)) h = (Inr (), h @ [Ipt v nop])"
    and "tables canon t0 (h @ [Ipt v nop]) = (tables canon t0 h)(v := t')"
proof -
  from assms have "\<not> isl (h_act env h (Ipt v nop))" by (simp add: iptables_ok_def)
  then have "h_act env h (Ipt v nop) = Inr ()" by (cases "h_act env h (Ipt v nop)") simp_all
  then show "run_state (act env (Ipt v nop)) h = (Inr (), h @ [Ipt v nop])" by (simp add: act_def)
  show "tables canon t0 (h @ [Ipt v nop]) = (tables canon t0 h)(v := t')" using assms(2) by (simp add: tables_call)
qed

lemma run_ipt_new: "iptables_ok canon t0 env \<Longrightarrow> run_state (act env (IptNew v)) h = (Inr (), h @ [IptNew v])"
  by (simp add: iptables_ok_def act_def)

lemma tables_new [simp]: "tables canon t0 (h @ [IptNew v]) = tables canon t0 h"
  "tables canon t0 (h @ [Ipt v ListChains]) = tables canon t0 h"
  by (simp_all add: tables_call)

lemma run_chains:
  "iptables_ok canon t0 env \<Longrightarrow>
     run_state (ipt_chains env v) h = (Inr (map fst (tables canon t0 h v)), h @ [Ipt v ListChains])"
  by (simp add: iptables_ok_def ipt_chains_def)

lemma setup_one:
  assumes ok: "iptables_ok canon t0 env" and "canon_ok canon ns" and "fresh_chain chain (tables canon t0 h (isV6 ipn))"
    and "chain \<notin> {''POSTROUTING'', ''ACCEPT'', ''MASQUERADE''}"
  shows "\<exists>h'. run_state (SetupIPMasq env ipn chain comment) h = (Inr (), h') \<and>
    tables canon t0 h' = (tables canon t0 h)(isV6 ipn := masqueraded canon chain comment ipn (tables canon t0 h (isV6 ipn)))"
proof -
  let ?v = "isV6 ipn" and ?T = "tables canon t0 h" and ?a = "accept_rule comment ipn"
  let ?m = "masquerade_rule comment (isV6 ipn)" and ?j = "jump_rule chain comment ipn"
  let ?t = "tables canon t0 h ?v"
  let ?h1 = "h @ [IptNew ?v]" let ?h2 = "?h1 @ [Ipt ?v ListChains]" let ?h3 = "?h2 @ [Ipt ?v (NewChain chain)]"
  let ?h4 = "?h3 @ [Ipt ?v (AppendRule chain ?a)]" let ?h5 = "?h4 @ [Ipt ?v (AppendRule chain ?m)]"
  let ?h6 = "?h5 @ [Ipt ?v (AppendRule ''POSTROUTING'' ?j)]"
  from assms(3) obtain post where fresh: "map_of ?t chain = None" "\<not> referenced ?t chain" "map_of ?t ''POSTROUTING'' = Some post"
    by (auto simp: fresh_chain_def)
  have "chain \<notin> fst ` set ?t" using fresh(1) by (simp add: map_of_eq_None_iff)
  then have new: "chain \<notin> set (map fst (tables canon t0 ?h1 ?v))" by simp
  have T2: "tables canon t0 ?h2 = ?T" by (simp add: tables_append)
  have o3: "apply_op canon (NewChain chain) (tables canon t0 ?h2 ?v) = Some (?t @ [(chain, [])])"
    unfolding T2 using fresh(1) by simp
  note r3 = run_ipt [OF ok o3]
  have o4: "apply_op canon (AppendRule chain ?a) (tables canon t0 ?h3 ?v) = Some (?t @ [(chain, [canon ?a])])"
    unfolding r3(2) T2 using fresh(1) by (simp add: on_chain_absent map_add_def)
  note r4 = run_ipt [OF ok o4]
  have o5: "apply_op canon (AppendRule chain ?m) (tables canon t0 ?h4 ?v) = Some (?t @ [(chain, chain_rules canon comment ipn)])"
    unfolding r4(2) using fresh(1) by (simp add: on_chain_absent chain_rules_def Let_def map_add_def)
  note r5 = run_ipt [OF ok o5]
  have "target (canon ?j) = Some chain" using assms(2) by (simp add: canon_ok_def)
  then have "canon ?j \<notin> set post" using not_referenced [OF fresh(2)] map_of_SomeD [OF fresh(3)] by blast
  then have o6: "apply_op canon (AppendRule ''POSTROUTING'' ?j) (tables canon t0 ?h5 ?v) = Some (masqueraded canon chain comment ipn ?t)"
    unfolding r5(2) masqueraded_def using fresh(3) assms(4) by (simp add: map_add_def)
  note r6 = run_ipt [OF ok o6]
  have "run_state (SetupIPMasq env ipn chain comment) h = (Inr (), ?h6)"
    unfolding SetupIPMasq_def Let_def isV6_def [symmetric] accept_rule_def [symmetric] masquerade_rule_def [symmetric] jump_rule_def [symmetric]
    using new r3(1) r4(1) r5(1) r6(1) by (simp add: run_ipt_new [OF ok] run_chains [OF ok])
  moreover have "tables canon t0 ?h6 = ?T(?v := masqueraded canon chain comment ipn ?t)"
    unfolding r6(2) r5(2) r4(2) r3(2) T2 by simp
  ultimately show ?thesis by blast
qed

section \<open>Tearing down\<close>

lemma rules_unreferenced:
  assumes "canon_ok canon ns" and "chain \<notin> {''POSTROUTING'', ''ACCEPT'', ''MASQUERADE''}"
  shows "\<not> referenced [(n, chain_rules canon comment ipn)] chain"
  using assms by (auto simp: referenced_def chain_rules_def Let_def canon_ok_def)

lemma teardown_one:
  assumes ok: "iptables_ok canon t0 env" and can: "canon_ok canon ns" and "ipn \<in> set ns" and fresh: "fresh_chain chain t"
    and "chain \<notin> {''POSTROUTING'', ''ACCEPT'', ''MASQUERADE''}"
    and now: "tables canon t0 h (isV6 ipn) = masqueraded canon chain comment (Network ipn) t"
  shows "\<exists>h'. run_state (TeardownIPMasq env ipn chain comment) h = (Inr (), h') \<and>
    tables canon t0 h' = (tables canon t0 h)(isV6 ipn := t)"
proof -
  let ?v = "isV6 ipn" and ?T = "tables canon t0 h" and ?j = "jump_rule chain comment ipn"
  let ?rules = "chain_rules canon comment (Network ipn)"
  let ?h1 = "h @ [IptNew ?v]" let ?h2 = "?h1 @ [Ipt ?v (DeleteRule ''POSTROUTING'' ?j)]"
  let ?h3 = "?h2 @ [Ipt ?v (ClearChain chain)]" let ?h4 = "?h3 @ [Ipt ?v (DeleteChain chain)]"
  from fresh obtain post where t: "map_of t chain = None" "\<not> referenced t chain" "map_of t ''POSTROUTING'' = Some post"
    by (auto simp: fresh_chain_def)
  have j: "canon ?j = canon (jump_rule chain comment (Network ipn))"
    using can assms(3) by (simp add: canon_ok_def jump_rule_def commented_def)
  have target: "target (canon ?j) = Some chain" using can by (simp add: canon_ok_def)
  have "on_chain ''POSTROUTING'' (remove1 (canon ?j) \<circ> (\<lambda>rs. rs @ [canon ?j])) t = t"
    using not_referenced [OF t(2)] target by (intro on_chain_id) (auto simp: remove1_append)
  then have o2: "apply_op canon (DeleteRule ''POSTROUTING'' ?j) (tables canon t0 ?h1 ?v) = Some (t @ [(chain, ?rules)])"
    using t(3) assms(5) by (simp add: now masqueraded_def map_of_on_chain on_chain_on_chain map_add_def j [symmetric])
  note r2 = run_ipt [OF ok o2]
  have o3: "apply_op canon (ClearChain chain) (tables canon t0 ?h2 ?v) = Some (t @ [(chain, [])])"
    unfolding r2(2) using t(1) by (simp add: on_chain_absent)
  note r3 = run_ipt [OF ok o3]
  have o4: "apply_op canon (DeleteChain chain) (tables canon t0 ?h3 ?v) = Some t"
    unfolding r3(2) using t(1,2) by (simp add: filter_fresh map_add_def) (simp add: referenced_def)
  note r4 = run_ipt [OF ok o4]
  have "run_state (TeardownIPMasq env ipn chain comment) h = (Inr (), ?h4)"
    unfolding TeardownIPMasq_def Let_def isV6_def [symmetric] jump_rule_def [symmetric]
    using r2(1) r3(1) r4(1) by (simp add: run_ipt_new [OF ok])
  moreover have "tables canon t0 ?h4 = ?T(?v := t)"
    unfolding r4(2) r3(2) r2(2) by simp
  ultimately show ?thesis by blast
qed

text \<open>While another rule leads to the chain, the chain cannot be deleted.\<close>

lemma two_networks_stuck:
  assumes ok: "iptables_ok canon t0 env" and "canon_ok canon ns"
    and now: "tables canon t0 h (isV6 ipn) = t" and "map_of t ''POSTROUTING'' = Some (a @ canon (jump_rule chain comment other) # b)"
    and "canon (jump_rule chain comment other) \<noteq> canon (jump_rule chain comment ipn)" and "chain \<noteq> ''POSTROUTING''"
  shows "\<exists>e h'. run_state (TeardownIPMasq env ipn chain comment) h = (Inl e, h')"
proof (rule ccontr)
  assume no: "\<not> (\<exists>e h'. run_state (TeardownIPMasq env ipn chain comment) h = (Inl e, h'))"
  let ?v = "isV6 ipn" and ?j = "jump_rule chain comment ipn" and ?o = "jump_rule chain comment other"
  let ?h1 = "h @ [IptNew ?v]" let ?h2 = "?h1 @ [Ipt ?v (DeleteRule ''POSTROUTING'' ?j)]"
  let ?h3 = "?h2 @ [Ipt ?v (ClearChain chain)]"
  have step: "apply_op canon nop (tables canon t0 g ?v) \<noteq> None" if "h_act env g (Ipt ?v nop) = Inr ()" for nop g
  proof -
    have "\<not> isl (h_act env g (Ipt ?v nop))" using that by simp
    with ok show ?thesis by (simp add: iptables_ok_def)
  qed
  obtain r h' where "run_state (TeardownIPMasq env ipn chain comment) h = (r, h')" by fastforce
  with no have "run_state (TeardownIPMasq env ipn chain comment) h = (Inr (), h')" by (cases r) auto
  then have acts: "h_act env ?h1 (Ipt ?v (DeleteRule ''POSTROUTING'' ?j)) = Inr ()"
    "h_act env ?h2 (Ipt ?v (ClearChain chain)) = Inr ()" "h_act env ?h3 (Ipt ?v (DeleteChain chain)) = Inr ()"
    unfolding TeardownIPMasq_def Let_def isV6_def [symmetric] jump_rule_def [symmetric]
    by (auto simp: act_def elim!: run_check_Inr)
  have ref: "referenced u chain" if "map_of u ''POSTROUTING'' = Some rs" "canon ?o \<in> set rs" for u rs
  proof -
    have "target (canon ?o) = Some chain" using assms(2) by (simp add: canon_ok_def)
    with map_of_SomeD [OF that(1)] that(2) show ?thesis unfolding referenced_def list_ex_iff by fast
  qed
  from step [OF acts(1)] obtain t2 where t2: "apply_op canon (DeleteRule ''POSTROUTING'' ?j) t = Some t2"
    by (auto simp: now)
  then have m2: "map_of t2 ''POSTROUTING'' = Some (remove1 (canon ?j) (a @ canon ?o # b))"
    using assms(4) by (auto simp: map_of_on_chain split: if_split_asm)
  have T2: "tables canon t0 ?h2 ?v = t2" using run_ipt(2) [OF ok, of _ ?h1 ?v] t2 by (simp add: now)
  from step [OF acts(2)] obtain t3 where t3: "apply_op canon (ClearChain chain) t2 = Some t3" unfolding T2 by blast
  have T3: "tables canon t0 ?h3 ?v = t3" using run_ipt(2) [OF ok t3 [folded T2]] by simp
  have "map_of t3 ''POSTROUTING'' = Some (remove1 (canon ?j) (a @ canon ?o # b))"
    using t3 m2 assms(6) by (auto simp: map_of_on_chain map_add_def split: if_split_asm)
  moreover have "canon ?o \<in> set (remove1 (canon ?j) (a @ canon ?o # b))" using assms(5) by (simp add: remove1_append)
  ultimately have "referenced t3 chain" by (rule ref)
  with step [OF acts(3)] show False unfolding T3 by simp
qed

section \<open>All addresses of a pod\<close>

lemma setup_tables:
  assumes "iptables_ok canon t0 env" and "canon_ok canon ns" and "distinct (map isV6 nets)"
    and "\<forall>n\<in>set nets. fresh_chain chain (tables canon t0 h (isV6 n))"
    and "chain \<notin> {''POSTROUTING'', ''ACCEPT'', ''MASQUERADE''}"
  shows "\<exists>h'. run_state (each (\<lambda>n. SetupIPMasq env n chain comment) nets) h = (Inr (), h') \<and>
    (\<forall>n\<in>set nets. tables canon t0 h' (isV6 n) = masqueraded canon chain comment n (tables canon t0 h (isV6 n))) \<and>
    (\<forall>v. v \<notin> isV6 ` set nets \<longrightarrow> tables canon t0 h' v = tables canon t0 h v)"
  using assms(3,4)
proof (induction nets arbitrary: h)
  case (Cons n nets)
  from setup_one [OF assms(1,2) _ assms(5), of h n comment] Cons.prems obtain h1 where
    1: "run_state (SetupIPMasq env n chain comment) h = (Inr (), h1)"
    "tables canon t0 h1 = (tables canon t0 h)(isV6 n := masqueraded canon chain comment n (tables canon t0 h (isV6 n)))" by auto
  have other: "isV6 m \<noteq> isV6 n" if "m \<in> set nets" for m using Cons.prems(1) that by force
  then have "\<forall>m\<in>set nets. fresh_chain chain (tables canon t0 h1 (isV6 m))" using Cons.prems(2) 1(2) by simp
  moreover have "distinct (map isV6 nets)" using Cons.prems(1) by simp
  ultimately obtain h' where 2: "run_state (each (\<lambda>n. SetupIPMasq env n chain comment) nets) h1 = (Inr (), h')"
    "\<forall>m\<in>set nets. tables canon t0 h' (isV6 m) = masqueraded canon chain comment m (tables canon t0 h1 (isV6 m))"
    "\<forall>v. v \<notin> isV6 ` set nets \<longrightarrow> tables canon t0 h' v = tables canon t0 h1 v" using Cons.IH by blast
  have "isV6 n \<notin> isV6 ` set nets" using Cons.prems(1) by simp
  with 1 2 other show ?case by (intro exI [of _ h']) auto
qed simp

lemma teardown_tables:
  assumes "iptables_ok canon t0 env" and "canon_ok canon ns" and "set ipnets \<subseteq> set ns" and "distinct (map isV6 ipnets)"
    and "\<forall>n\<in>set ipnets. fresh_chain chain (old (isV6 n)) \<and>
      tables canon t0 h (isV6 n) = masqueraded canon chain comment (Network n) (old (isV6 n))"
    and "chain \<notin> {''POSTROUTING'', ''ACCEPT'', ''MASQUERADE''}"
  shows "\<exists>h'. run_state (each (\<lambda>n. TeardownIPMasq env n chain comment) ipnets) h = (Inr (), h') \<and>
    (\<forall>v. tables canon t0 h' v = (if v \<in> isV6 ` set ipnets then old v else tables canon t0 h v))"
  using assms(3-5)
proof (induction ipnets arbitrary: h)
  case (Cons n ipnets)
  have "n \<in> set ns" "fresh_chain chain (old (isV6 n))"
    "tables canon t0 h (isV6 n) = masqueraded canon chain comment (Network n) (old (isV6 n))" using Cons.prems by auto
  from teardown_one [OF assms(1,2) this(1,2) assms(6) this(3)] obtain h1 where
    1: "run_state (TeardownIPMasq env n chain comment) h = (Inr (), h1)"
    "tables canon t0 h1 = (tables canon t0 h)(isV6 n := old (isV6 n))" by blast
  have other: "isV6 m \<noteq> isV6 n" if "m \<in> set ipnets" for m using Cons.prems(2) that by force
  then have "\<forall>m\<in>set ipnets. fresh_chain chain (old (isV6 m)) \<and>
      tables canon t0 h1 (isV6 m) = masqueraded canon chain comment (Network m) (old (isV6 m))" using Cons.prems(3) 1(2) by simp
  with Cons.IH [of h1] Cons.prems(1,2) obtain h' where
    2: "run_state (each (\<lambda>n. TeardownIPMasq env n chain comment) ipnets) h1 = (Inr (), h')"
    "\<forall>v. tables canon t0 h' v = (if v \<in> isV6 ` set ipnets then old v else tables canon t0 h1 v)" by auto
  with 1 show ?case by (intro exI [of _ h']) auto
qed simp

definition no_ipt :: "call \<Rightarrow> bool" where
  "no_ipt c \<longleftrightarrow> (case c of Ipt v nop \<Rightarrow> False | _ \<Rightarrow> True)"

lemma tables_quiet: "list_all no_ipt t \<Longrightarrow> tables canon t0 (h @ t) = tables canon t0 h"
proof (induction t arbitrary: h)
  case (Cons c t)
  have "nat_step canon c T = T" for T using Cons.prems by (cases c) (simp_all add: no_ipt_def)
  with Cons.IH [of "h @ [c]"] Cons.prems show ?case by (simp add: tables_call)
qed simp

lemma FormatChainName_name:
  "FormatChainName env name cid \<notin> {''POSTROUTING'', ''ACCEPT'', ''MASQUERADE''}" "length (FormatChainName env name cid) \<le> 28"
  by (auto simp: FormatChainName_def)

end
