(* ===== verification/CniRun.thy ===== *)
theory CniRun
  imports CniPlugin
begin

text \<open>
  A whole ADD and a whole DEL of \<^verbatim>\<open>cmd/k-vswitch-cni/plugin.go\<close> that succeed: their milestones (the commands for the bridge, the
  calls of the IPAM plugin, the namespace opened and closed, the result printed) in order, and what the result says.
\<close>

definition milestone :: "call \<Rightarrow> bool" where
  "milestone c \<longleftrightarrow> \<not> inner c"

lemma milestone_simps [simp]:
  "milestone (Exec cmd)" "milestone (IpamAdd p d)" "milestone (IpamDel p d)" "milestone (PrintResult r v)"
  "milestone (GetNS n)" "milestone (CloseNS n)" "\<not> milestone (LinkByName n)" "\<not> milestone (LinkSetUp l)"
  by (simp_all add: milestone_def)

lemma inner_run:
  assumes "run_state m h = (r, h')" and "performs inner m"
  shows "filter milestone h' = filter milestone h"
proof -
  from assms(2,1) obtain t where t: "h' = h @ t" "list_all inner t" by (rule performsE)
  then have "filter milestone t = []" by (simp add: list_all_iff filter_empty_conv milestone_def)
  with t show ?thesis by simp
qed

section \<open>ADD\<close>

lemma configure_addresses_success:
  assumes "run_state (configure_addresses env n a base r) h = (Inr res, h')"
  shows "\<exists>ipam. c_convert env r = Inr ipam \<and> IPs ipam \<noteq> [] \<and> IPs res = map (completed n) (IPs ipam) \<and>
    Interfaces res = Interfaces base \<and> res_CNIVersion res = res_CNIVersion base"
proof -
  from assms obtain ipam g4 g6 where c: "c_convert env r = Inr ipam" "IPs ipam \<noteq> []"
    and g: "calcGateways (base\<lparr>IPs := IPs ipam, Routes := Routes ipam\<rparr>) n = Inr (res, g4, g6)"
    unfolding configure_addresses_def
    by (auto simp: Let_def split: if_split_asm prod.split_asm elim!: run_check_Inr)
  from gateways_interfaces [OF g] g c show ?thesis
    by (auto simp: calcGateways_def split: sum.split_asm)
qed

lemma finish_add_success:
  assumes "run_state (finish_add env n base) h = (Inr res, h')" and "links_ok env ix"
  shows "IPs res = IPs base \<and> res_DNS res = nc_DNS n \<and> res_CNIVersion res = res_CNIVersion base \<and>
    map if_Name (Interfaces res) = map if_Name (Interfaces base) \<and> tl (Interfaces res) = tl (Interfaces base)"
  using assms(1) by (auto simp: finish_add_def split: list.split elim!: run_check_Inr)

lemma add_addresses_success:
  assumes "run_state (add_addresses env n a base) h = (Inr res, h')" and "links_ok env ix" and "IPAM_Type n \<noteq> ''''"
  shows "\<exists>r ipam. c_ipam env h (IPAM_Type n) (StdinData a) = Inr r \<and> c_convert env r = Inr ipam \<and> IPs ipam \<noteq> [] \<and>
    IPs res = map (completed n) (IPs ipam) \<and> res_DNS res = nc_DNS n \<and> res_CNIVersion res = res_CNIVersion base \<and>
    map if_Name (Interfaces res) = map if_Name (Interfaces base) \<and> tl (Interfaces res) = tl (Interfaces base) \<and>
    filter milestone h' = filter milestone h @ [IpamAdd (IPAM_Type n) (StdinData a)]"
proof -
  let ?add = "IpamAdd (IPAM_Type n) (StdinData a)"
  from assms(1,3) obtain r where r: "c_ipam env h (IPAM_Type n) (StdinData a) = Inr r"
    and rest: "run_state (on_failure (check id (configure_addresses env n a base r) (finish_add env n)) (release n a)) (h @ [?add]) =
      (Inr res, h')"
    by (auto simp: add_addresses_def exec_ipam_add_def elim!: run_check_Inr)
  then have body: "run_state (check id (configure_addresses env n a base r) (finish_add env n)) (h @ [?add]) = (Inr res, h')"
    by (auto simp: run_on_failure split: prod.split_asm sum.split_asm)
  have "performs inner (check id (configure_addresses env n a base r) (finish_add env n))" by (intro effects)
  from inner_run [OF body this] have calls: "filter milestone h' = filter milestone h @ [?add]" by simp
  from body obtain res1 h1 where "run_state (configure_addresses env n a base r) (h @ [?add]) = (Inr res1, h1)"
    "run_state (finish_add env n res1) h1 = (Inr res, h')" by (rule run_check_Inr)
  from configure_addresses_success [OF this(1)] finish_add_success [OF this(2) assms(2)] r calls show ?thesis by auto
qed

lemma add_port_success:
  assumes "run_state (add_port env n a hi ci) h = (Inr (), h')"
  shows "\<exists>ns name. getPodInfo (h_env env h ''CNI_ARGS'') = Inr (ns, name) \<and>
    filter milestone h' = filter milestone h @
      [Exec (addPort_command (BridgeName n) (if_Name hi) (if_Mac ci) (Netns a) ns name)]"
  using assms
  by (auto simp: add_port_def addPort_def run_command_def link_by_name_def act_def split: prod.split_asm elim!: run_check_Inr)

theorem cmdAdd_success:
  assumes links: "links_ok env ix" and conf: "loadNetConf (StdinData a) = Inr (n, v)" and ipam: "IPAM_Type n \<noteq> ''''"
    and run: "run_state (cmdAdd env a) h = (Inr (), h')"
  shows "\<exists>bridge host cont ns name h1 r answer res.
    filter milestone h' = filter milestone h @
      [GetNS (Netns a), Exec (addPort_command (BridgeName n) (if_Name host) (if_Mac cont) (Netns a) ns name),
       IpamAdd (IPAM_Type n) (StdinData a), PrintResult res v, CloseNS (Netns a)] \<and>
    c_ipam env h1 (IPAM_Type n) (StdinData a) = Inr r \<and> c_convert env r = Inr answer \<and> IPs answer \<noteq> [] \<and>
    Interfaces res = [bridge, host, cont] \<and> if_Name bridge = defaultBridgeName \<and>
    if_Name cont = IfName a \<and> if_Sandbox cont = Netns a \<and> if_Sandbox host = '''' \<and>
    IPs res = map (completed n) (IPs answer) \<and> res_DNS res = nc_DNS n \<and> res_CNIVersion res = v"
proof -
  have link_ns: "link_Name l = m" if "h_link env g m = Inr l" for g m l using links that by (simp add: links_ok_def)
  let ?base = "\<lambda>bridge host cont. \<lparr>res_CNIVersion = v, Interfaces = [bridge, host, cont], IPs = [], Routes = [], res_DNS = empty_DNS\<rparr>"
  from run conf obtain bridge h1 host cont h2 h3 h4 h5 res where
    b: "run_state (getBridgeInterface env) h = (Inr bridge, h1)" and
    v: "run_state (setupVeth env (Netns a) (IfName a)) (h1 @ [GetNS (Netns a)]) = (Inr (host, cont), h2)" and
    m: "run_state (override_mac env (Netns a) (IfName a)) h2 = (Inr (), h3)" and
    p: "run_state (add_port env n a host cont) h3 = (Inr (), h4)" and
    ad: "run_state (add_addresses env n a (?base bridge host cont)) h4 = (Inr res, h5)" and
    h': "h' = h5 @ [PrintResult res v, CloseNS (Netns a)]"
    unfolding cmdAdd_def
    by (auto simp: run_deferred act_def silent_def Let_def split: prod.split_asm elim!: run_check_Inr)
  have 1: "filter milestone h1 = filter milestone h" using b by (rule inner_run) (intro effects)
  have 2: "filter milestone h2 = filter milestone h @ [GetNS (Netns a)]"
    using inner_run [OF v] 1 by (simp add: effects)
  have 3: "filter milestone h3 = filter milestone h2" using m by (rule inner_run) (intro effects)
  from add_port_success [OF p] obtain ns name where 4: "filter milestone h4 = filter milestone h3 @
      [Exec (addPort_command (BridgeName n) (if_Name host) (if_Mac cont) (Netns a) ns name)]" by blast
  from add_addresses_success [OF ad links ipam] obtain r answer where
    5: "c_ipam env h4 (IPAM_Type n) (StdinData a) = Inr r" "c_convert env r = Inr answer" "IPs answer \<noteq> []"
    "IPs res = map (completed n) (IPs answer)" "res_DNS res = nc_DNS n" "res_CNIVersion res = v"
    "map if_Name (Interfaces res) = [if_Name bridge, if_Name host, if_Name cont]" "tl (Interfaces res) = [host, cont]"
    "filter milestone h5 = filter milestone h4 @ [IpamAdd (IPAM_Type n) (StdinData a)]" by auto
  then obtain bridge' where br: "Interfaces res = [bridge', host, cont]" "if_Name bridge' = if_Name bridge"
    by (cases "Interfaces res") auto
  have 6: "if_Name bridge = defaultBridgeName"
    using b link_ns by (auto simp: getBridgeInterface_def bridgeByName_def link_by_name_def elim!: run_check_Inr)
  have 7: "if_Name cont = IfName a" "if_Sandbox cont = Netns a" "if_Sandbox host = ''''"
    using setupVeth_success [OF links v] by auto
  have "filter milestone h' = filter milestone h @ [GetNS (Netns a),
      Exec (addPort_command (BridgeName n) (if_Name host) (if_Mac cont) (Netns a) ns name),
      IpamAdd (IPAM_Type n) (StdinData a), PrintResult res v, CloseNS (Netns a)]"
    by (simp add: h' 2 3 4 5(9))
  then show ?thesis
    using 5(1-6) br(1) br(2) [unfolded 6] 7 by (intro exI conjI)
qed

section \<open>DEL\<close>

lemma delete_device_success:
  assumes "run_state (delete_device env i) h = (Inr ipnets, h')"
  shows "(\<exists>t. h' = h @ t \<and> LinkDel i \<in> set t) \<or> h_link env h i = Inl (ErrorMsg ''Link not found'') \<and> ipnets = []"
proof (cases "h_link env h i")
  case (Inl e)
  with assms show ?thesis
    by (auto simp: delete_device_def DelLinkByNameAddr_def link_by_name_def run_check ErrLinkNotFound_def split: if_split_asm)
next
  case (Inr l)
  let ?h = "h @ [LinkByName i, AddrList l 0]"
  obtain addrs err where a: "c_addrs env (h @ [LinkByName i]) l 0 = (addrs, err)" by fastforce
  have "err = None \<and> (\<exists>u. h_act env ?h (LinkDel i) = Inr u)"
    using assms a Inr
    by (auto simp: delete_device_def DelLinkByNameAddr_def link_by_name_def addr_list_def act_def run_check ErrLinkNotFound_def
        split: option.split_asm sum.split_asm if_split_asm)
  with assms a Inr show ?thesis
    by (auto simp: delete_device_def DelLinkByNameAddr_def link_by_name_def addr_list_def act_def run_check)
qed

lemma in_netns_success:
  assumes "run_state (in_netns env ns m) h = (Inr x, h')"
  obtains h1 where "run_state m (h @ [EnterNS ns]) = (Inr x, h1)" "h' = h1 @ [LeaveNS ns]"
  using assms by (auto simp: in_netns_def act_def run_deferred silent_def split: prod.split_asm elim!: run_check_Inr)

lemma inner_TeardownIPMasq [effects]: "performs inner (TeardownIPMasq env i c m)"
  by (auto simp: TeardownIPMasq_def Let_def intro!: effects)

lemma inner_delete_device [effects]: "performs inner (delete_device env i)"
  by (auto simp: delete_device_def DelLinkByNameAddr_def addr_list_def intro!: effects performs_bind split: option.split sum.split)

theorem cmdDel_success:
  assumes conf: "loadNetConf (StdinData a) = Inr (n, v)" "IPAM_Type n \<noteq> ''''" "Netns a \<noteq> ''''"
    and run: "run_state (cmdDel env a) h = (Inr (), h')"
  shows "\<exists>ns name out port cols rows t h1.
    getPodInfo (h_env env h ''CNI_ARGS'') = Inr (ns, name) \<and>
    h_text env h (Exec (findPort_command (Netns a) ns name)) = Inr out \<and> Unmarshal_Data out = Inr ((port # cols) # rows) \<and>
    h' = h @ t \<and> filter milestone t =
      [Exec (findPort_command (Netns a) ns name), Exec (vsctl [''--if-exists'', ''del-port'', BridgeName n, port]),
       IpamDel (IPAM_Type n) (StdinData a), GetNS (Netns a), CloseNS (Netns a)] \<and>
    (LinkDel (IfName a) \<in> set t \<or> h_link env (h @ h1) (IfName a) = Inl (ErrorMsg ''Link not found''))"
proof -
  let ?find = "\<lambda>ns name. Exec (findPort_command (Netns a) ns name)"
  let ?del = "\<lambda>port. Exec (vsctl [''--if-exists'', ''del-port'', BridgeName n, port])"
  let ?ipam = "IpamDel (IPAM_Type n) (StdinData a)"
  from run conf obtain ns name port h1 ipnets h3 where info: "getPodInfo (h_env env h ''CNI_ARGS'') = Inr (ns, name)"
    and find: "run_state (cni_findPort env (Netns a) ns name) h = (Inr port, h1)"
    and dev: "run_state (in_netns env (Netns a) (delete_device env (IfName a))) (h1 @ [?del port, ?ipam, GetNS (Netns a)]) = (Inr ipnets, h3)"
    and masq: "run_state (if IPMasq n then teardown_masquerade env n a ipnets else ok ()) (h3 @ [CloseNS (Netns a)]) = (Inr (), h')"
    unfolding cmdDel_def
    by (auto simp: run_deferred act_def silent_def delPort_def run_command_def Let_def split: prod.split_asm elim!: run_check_Inr)
  from find obtain out cols rows where f: "h1 = h @ [?find ns name]"
    "h_text env h (?find ns name) = Inr out" "Unmarshal_Data out = Inr ((port # cols) # rows)"
    by (auto simp: cni_findPort_def run_command_def split: sum.split_asm list.split_asm elim!: run_check_Inr)
  let ?h1 = "[?find ns name, ?del port, ?ipam, GetNS (Netns a)]"
  from dev obtain h2 where d: "run_state (delete_device env (IfName a)) (h @ ?h1 @ [EnterNS (Netns a)]) = (Inr ipnets, h2)"
    "h3 = h2 @ [LeaveNS (Netns a)]" by (rule in_netns_success) (simp add: f)
  have "performs inner (delete_device env (IfName a))" by (intro effects)
  then obtain s where s: "h2 = (h @ ?h1 @ [EnterNS (Netns a)]) @ s" "list_all inner s" using d(1) by (rule performsE)
  have "performs inner (if IPMasq n then teardown_masquerade env n a ipnets else ok ())"
    by (auto simp: teardown_masquerade_def Let_def intro!: effects)
  then obtain u where u: "h' = (h3 @ [CloseNS (Netns a)]) @ u" "list_all inner u" using masq by (rule performsE)
  let ?t = "?h1 @ EnterNS (Netns a) # s @ [LeaveNS (Netns a), CloseNS (Netns a)] @ u"
  have none: "filter milestone s = []" "filter milestone u = []"
    using s(2) u(2) by (auto simp: list_all_iff filter_empty_conv milestone_def)
  have "h' = h @ ?t" by (simp add: u d s)
  moreover have "filter milestone ?t = [?find ns name, ?del port, ?ipam, GetNS (Netns a), CloseNS (Netns a)]"
    by (simp add: none) (simp add: milestone_def)
  moreover have "LinkDel (IfName a) \<in> set ?t \<or>
      h_link env (h @ ?h1 @ [EnterNS (Netns a)]) (IfName a) = Inl (ErrorMsg ''Link not found'')"
    using delete_device_success [OF d(1)] s by auto
  ultimately show ?thesis using info f by (intro exI conjI)
qed

end
