(* ===== verification/NodeExamples.thy ===== *)
theory NodeExamples
  imports Examples PodNetwork ControllerMain Masquerade CniRun
begin

text \<open>
  Hosts on which the set-up of a node and the CNI plugin are instantiated: one on which every call succeeds, and
  one whose IPAM plugin answers with an address the pod's interface cannot be given.
\<close>

section \<open>Programs that succeed\<close>

definition succeeds :: "('c, 'a) io \<Rightarrow> bool" where
  "succeeds m \<longleftrightarrow> (\<forall>h. \<exists>x h'. run_state m h = (Inr x, h'))"

named_theorems success "programs that cannot fail"

lemma succeeds_ok [success]: "succeeds (ok x)"
  by (simp add: succeeds_def)

lemma succeeds_check:
  "succeeds m \<Longrightarrow> (\<And>h x h'. run_state m h = (Inr x, h') \<Longrightarrow> succeeds (k x)) \<Longrightarrow> succeeds (check w m k)"
  unfolding succeeds_def by (metis run_check_simps(2))

lemma succeeds_check_any [success]: "succeeds m \<Longrightarrow> (\<And>x. succeeds (k x)) \<Longrightarrow> succeeds (check w m k)"
  by (rule succeeds_check)

lemma succeeds_announce [success]: "succeeds (announce c)"
  by (simp add: succeeds_def announce_def)

section \<open>A node\<close>

definition node_n1 :: Node where
  "node_n1 = \<lparr>node_Name = ''n1'', node_PodCIDR = cidr_text 10 0 1 0 24,
     Addresses = [\<lparr>addr_Type = ''InternalIP'', Address = dotted 192 168 0 1\<rparr>]\<rparr>"

definition any_link :: "string \<Rightarrow> Link" where
  "any_link n = \<lparr>link_Name = n, link_Index = 1, link_HardwareAddr = [0x0a, 0x58, 0, 0, 1, 1]\<rparr>"

definition good_host :: daemon_host where
  "good_host = \<lparr>h_act = (\<lambda>h c. Inr ()), h_text = (\<lambda>h c. Inr ''''), h_env = (\<lambda>h s. ''n1''),
     h_link = (\<lambda>h n. Inr (any_link n)),
     h_iface = (\<lambda>h n. Inr \<lparr>if_Name = n, if_Mac = ''0a:58:0a:00:01:01'', if_Sandbox = ''''\<rparr>),
     d_node = (\<lambda>h n. Inr node_n1), d_vswitch = (\<lambda>h n. Inr vs1), d_os = (\<lambda>h. one_port_os), d_cost = (\<lambda>h. 0)\<rparr>"

lemma good_links: "links_ok good_host (\<lambda>n. 1)"
  by (simp add: links_ok_def good_host_def any_link_def)

lemma good_calls [success]:
  "succeeds (act good_host c)" "succeeds (run_command good_host cmd)" "succeeds (link_by_name good_host n)"
  "succeeds (interface_by_name good_host n)"
  by (simp_all add: succeeds_def host_ops good_host_def)

lemma good_setup: "succeeds (main_setup good_host vs1)"
proof -
  have "\<exists>a. netlinkAddrForLocal (PodCIDR (Spec vs1)) = Inr a"
    "\<exists>r. netlinkRouteForCluster (ClusterCIDR (Spec vs1)) l = Inr r" for l
    by (simp_all add: netlinkAddrForLocal_def netlinkRouteForCluster_def vs1_def ParseCIDR_v4 Let_def)
  then have r: "succeeds (returns (netlinkAddrForLocal (PodCIDR (Spec vs1))))"
    "succeeds (returns (netlinkRouteForCluster (ClusterCIDR (Spec vs1)) l))" for l
    by (simp_all add: succeeds_def returns_def)
  show ?thesis
    unfolding main_setup_def setupOVSBridgeIfNotExists_def setupClusterWideInternalPort_def setupOverlayPort_def
      setControllerTarget_def setSecureFailMode_def setupModulesAndSysctls_def setupBridgeForwarding_def Let_def
    by (intro success r)
qed

lemma good_wait: "run_state (waitForVSwitchConfig good_host n) h = (Inr vs1, h @ [GetVSwitchConfig n])"
proof -
  have "0 < waitDuration" by (simp add: waitDuration_def second_def)
  then show ?thesis by (simp add: waitForVSwitchConfig_def wait_loop.simps good_host_def)
qed

lemma good_config: "\<exists>h. run_state (main_config good_host) [] = (Inr (node_n1, vs1), h)"
proof -
  have "run_state (main_node good_host node_n1) h = (Inr (node_n1, vs1), h @ [WriteFile cniConfigPath (cni_conf (node_PodCIDR node_n1)),
      GetVSwitchConfig ''n1''])" for h
  proof -
    have "node_PodCIDR node_n1 \<noteq> []" by (simp add: node_n1_def cidr_text_nonempty)
    moreover have "run_state (installCNIConf good_host p) h = (Inr (), h @ [WriteFile cniConfigPath (cni_conf p)])" for p
      by (simp add: installCNIConf_def Let_def act_def good_host_def)
    ultimately show ?thesis using good_wait [of "''n1''"]
      by (simp add: main_node_def run_check) (simp add: node_n1_def)
  qed
  moreover have "run_state (act good_host c) h = (Inr (), h @ [c])" "run_state (get_node good_host n) h = (Inr node_n1, h @ [GetNode n])"
    "h_env good_host h s = ''n1''" for c h n s
    by (simp_all add: act_def get_node_def good_host_def)
  ultimately show ?thesis by (simp add: main_config_def run_check)
qed

lemma good_start: "succeeds (main_start good_host node_n1 vs1)"
proof -
  have "\<exists>c. NewController one_port_os b m w n (PodCIDR (Spec vs1)) cl = Inr c" for b m w n cl
    by (simp add: NewController_def vs1_def ParseCIDR_v4 one_port_ofport Let_def)
  then have n: "succeeds (new_controller good_host m w n (PodCIDR (Spec vs1)) cl)" for m w n cl
    by (simp add: succeeds_def new_controller_def good_host_def)
  show ?thesis
    unfolding main_start_def Initialize_def Let_def
    by (auto intro!: success n split: prod.split)
qed

lemma good_daemon_runs: "\<exists>s h. run_state (daemon_main good_host) [] = (Inr s, h)"
proof -
  obtain h where "run_state (main_config good_host) [] = (Inr (node_n1, vs1), h)" using good_config by blast
  moreover have "succeeds (check id (main_setup good_host vs1) (\<lambda>_. main_start good_host node_n1 vs1))"
    by (intro success good_setup good_start)
  then obtain s h' where "run_state (check id (main_setup good_host vs1) (\<lambda>_. main_start good_host node_n1 vs1)) h = (Inr s, h')"
    unfolding succeeds_def by blast
  ultimately show ?thesis by (simp add: daemon_main_def)
qed

section \<open>A pod\<close>

definition pod_args :: CmdArgs where
  "pod_args = \<lparr>ContainerID = ''c1'', Netns = ''/var/run/netns/web'', IfName = ''eth0'',
     StdinData = cni_conf (cidr_text 10 0 1 0 24)\<rparr>"

definition pod_ip :: IPConfig where
  "pod_ip = \<lparr>ipc_Version = ''4'', ipc_Interface = None,
     ipc_Address = \<lparr>net_IP = [10, 0, 1, 5], net_Mask = CIDRMask 24 32\<rparr>, ipc_Gateway = [10, 0, 1, 1]\<rparr>"

definition ipam_result :: Result where
  "ipam_result = \<lparr>res_CNIVersion = '''', Interfaces = [], IPs = [pod_ip], Routes = [], res_DNS = empty_DNS\<rparr>"

definition pod_host :: "(history \<Rightarrow> string \<Rightarrow> err + Interface) \<Rightarrow> string \<Rightarrow> cni_host" where
  "pod_host dev out = \<lparr>h_act = (\<lambda>h c. Inr ()),
     h_text = (\<lambda>h c. Inr out),
     h_env = (\<lambda>h s. ''IgnoreUnknown=1;K8S_POD_NAMESPACE=default;K8S_POD_NAME=web''),
     h_link = (\<lambda>h n. Inr (any_link n)),
     h_iface = dev,
     c_random = (\<lambda>h. Inr [1, 2, 3, 4]), c_addrs = (\<lambda>h l f. ([], None)), c_chains = (\<lambda>h v. Inr []),
     c_ipam = (\<lambda>h p d. Inr ''10.0.1.5''), c_convert = (\<lambda>r. Inr ipam_result), c_sha512 = (\<lambda>t. []), c_quote = id\<rparr>"

text \<open>One on which the pod's interface is not there, and no port is found; and one on which both are.\<close>

abbreviation no_device_host :: cni_host where
  "no_device_host \<equiv> pod_host (\<lambda>h n. Inl (ErrorMsg ''no such network interface'')) ''{\"data\":[]}''"

abbreviation good_pod_host :: cni_host where
  "good_pod_host \<equiv> pod_host (\<lambda>h n. Inr \<lparr>if_Name = n, if_Mac = ''0a:58:0a:00:01:01'', if_Sandbox = ''''\<rparr>)
     ''{\"data\":[[\"veth01020304\"]]}''"

lemma pod_conf: "loadNetConf (StdinData pod_args) = Inr (installed_conf, '''')"
proof -
  have "plain_text (cidr_text 10 0 1 0 24)" by code_simp
  then show ?thesis by (simp add: pod_args_def load_installed)
qed

lemma pod_info: "getPodInfo ''IgnoreUnknown=1;K8S_POD_NAMESPACE=default;K8S_POD_NAME=web'' = Inr (''default'', ''web'')"
  by code_simp

lemma xtoi2_pair:
  assumes "hex_val a = Some x" "hex_val b = Some y" "s = [] \<or> hd s = e"
  shows "xtoi2 (a # b # s) (Some e) = Some (word_of_nat (16 * x + y))"
proof -
  have "x < 16" "y < 16" using assms(1,2) by (auto simp: hex_val_def is_digit_def split: if_split_asm)
  then have "xtoi [a, b] = Some (16 * x + y, [])" using assms(1,2) by (simp add: xtoi_def)
  with assms(3) show ?thesis by (cases s) (auto simp: xtoi2_def)
qed

lemma pod_mac: "ParseMAC cni_podMacAddr = Inr [0xaa, 0xbb, 0xcc, 0xdd, 0xee, 0xff]"
proof -
  have h: "hex_val CHR ''a'' = Some 10" "hex_val CHR ''b'' = Some 11" "hex_val CHR ''c'' = Some 12"
    "hex_val CHR ''d'' = Some 13" "hex_val CHR ''e'' = Some 14" "hex_val CHR ''f'' = Some 15" by code_simp+
  note p = xtoi2_pair [OF h(1) h(1)] xtoi2_pair [OF h(2) h(2)] xtoi2_pair [OF h(3) h(3)] xtoi2_pair [OF h(4) h(4)]
    xtoi2_pair [OF h(5) h(5)] xtoi2_pair [OF h(6) h(6)]
  have six: "parse_mac_pairs 6 = parse_mac_pairs (Suc (Suc (Suc (Suc (Suc (Suc 0))))))" by (simp add: eval_nat_numeral)
  have "parse_mac_pairs 6 CHR '':'' ''aa:bb:cc:dd:ee:ff'' = Some [0xaa, 0xbb, 0xcc, 0xdd, 0xee, 0xff]"
    unfolding six by (simp add: p drop_Cons')
  then show ?thesis by (simp add: ParseMAC_def cni_podMacAddr_def)
qed

lemma conf_fields: "IPAM_Type installed_conf = ''host-local''" "IsGW installed_conf = False" "IsDefaultGW installed_conf = True"
  "BridgeName installed_conf = ''k-vswitch0''" "IPMasq installed_conf = False" "HairpinMode installed_conf = False"
  "PromiscMode installed_conf = False"
  by (simp_all add: installed_conf_def default_conf_def)

lemma gateways_ok: "\<exists>res g4 g6. calcGateways (base\<lparr>IPs := [pod_ip], Routes := []\<rparr>) installed_conf = Inr (res, g4, g6)"
proof -
  have "To4 [10, 0, 1, 5] \<noteq> []" by simp
  then show ?thesis
    by (simp add: calcGateways_def pod_ip_def add_gateway_def Let_def split: prod.split)
qed

text \<open>A program that allocates an address, fails and prints nothing.\<close>

definition wastes :: "call \<Rightarrow> (call, 'a) io \<Rightarrow> bool" where
  "wastes c m \<longleftrightarrow> (\<forall>h. \<exists>e h1 h2. run_state m h = (Inl e, h @ h1 @ c # h2) \<and> \<not> list_ex is_print h2)"

lemma wastes_first: "wastes c m \<Longrightarrow> wastes c (check w m k)"
  unfolding wastes_def by (metis run_check_simps(1))

lemma wastes_check:
  assumes "succeeds m" and "performs quiet m" and "\<And>h x h'. run_state m h = (Inr x, h') \<Longrightarrow> wastes c (k x)"
  shows "wastes c (check w m k)"
  unfolding wastes_def
proof
  fix h
  from assms(1) obtain x h' where m: "run_state m h = (Inr x, h')" unfolding succeeds_def by blast
  from assms(2) m obtain t where t: "h' = h @ t" by (rule performsE)
  from assms(3) [OF m] obtain e h1 h2 where "run_state (k x) h' = (Inl e, h' @ h1 @ c # h2)" "\<not> list_ex is_print h2"
    unfolding wastes_def by blast
  with m t have "run_state (check w m k) h = (Inl e, h @ (t @ h1) @ c # h2) \<and> \<not> list_ex is_print h2" by simp
  then show "\<exists>e h1 h2. run_state (check w m k) h = (Inl e, h @ h1 @ c # h2) \<and> \<not> list_ex is_print h2" by blast
qed

lemma wastes_deferred:
  assumes "wastes c m" and "performs quiet d"
  shows "wastes c (deferred m d)"
  unfolding wastes_def
proof
  fix h
  from assms(1) obtain e h1 h2 where m: "run_state m h = (Inl e, h @ h1 @ c # h2)" "\<not> list_ex is_print h2"
    unfolding wastes_def by blast
  from assms(2) obtain t where t: "snd (run_state d (h @ h1 @ c # h2)) = (h @ h1 @ c # h2) @ t" "list_all quiet t"
    unfolding performs_def by blast
  with m quiet_lists [of t] have "run_state (deferred m d) h = (Inl e, h @ h1 @ c # (h2 @ t)) \<and> \<not> list_ex is_print (h2 @ t)"
    by (simp add: run_deferred)
  then show "\<exists>e h1 h2. run_state (deferred m d) h = (Inl e, h @ h1 @ c # h2) \<and> \<not> list_ex is_print h2" by blast
qed

lemma pod_host_calls [success]:
  "succeeds (act (pod_host dev out) c)" "succeeds (run_command (pod_host dev out) cmd)" "succeeds (link_by_name (pod_host dev out) n)"
  "succeeds (call (\<lambda>h. c_random (pod_host dev out) h) ReadEntropy)"
  by (simp_all add: succeeds_def host_ops pod_host_def)

lemma succeeds_deferred [success]: "succeeds m \<Longrightarrow> succeeds (deferred m d)"
  by (auto simp: succeeds_def run_deferred Let_def split: prod.split) (metis prod.inject)

lemma succeeds_in_netns [success]: "succeeds m \<Longrightarrow> succeeds (in_netns (pod_host dev out) ns m)"
  unfolding in_netns_def by (intro success) simp_all

lemma pod_host_veth [success]: "succeeds (SetupVeth (pod_host dev out) n mtu)"
proof -
  have pair: "succeeds (makeVethPair (pod_host dev out) n peer mtu)" for peer
    by (simp add: succeeds_def makeVethPair_def run_on_failure run_check host_ops pod_host_def)
  have "succeeds (makeVeth (pod_host dev out) n mtu)"
    unfolding succeeds_def
  proof
    fix h
    have "succeeds (RandomVethName (pod_host dev out))" unfolding RandomVethName_def by (intro success)
    then obtain p h1 where p: "run_state (RandomVethName (pod_host dev out)) h = (Inr p, h1)" unfolding succeeds_def by blast
    from pair [of p] obtain v h2 where "run_state (makeVethPair (pod_host dev out) n p mtu) h1 = (Inr v, h2)"
      unfolding succeeds_def by blast
    with p show "\<exists>x h'. run_state (makeVeth (pod_host dev out) n mtu) h = (Inr x, h')"
      by (simp add: makeVeth_def eval_nat_numeral)
  qed
  then show ?thesis unfolding SetupVeth_def in_host_ns_def by (auto intro!: success split: prod.split)
qed

lemma succeeds_mac [success]: "succeeds (State_Monad.return (ParseMAC cni_podMacAddr))"
  by (simp add: succeeds_def pod_mac)

lemma pod_host_first:
  "succeeds (getBridgeInterface (pod_host dev out))" "succeeds (setupVeth (pod_host dev out) ns i)"
  "succeeds (override_mac (pod_host dev out) ns i)" "succeeds (add_port (pod_host dev out) installed_conf a hi ci)"
proof -
  show "succeeds (getBridgeInterface (pod_host dev out))"
    unfolding getBridgeInterface_def bridgeByName_def by (intro success)
  show "succeeds (setupVeth (pod_host dev out) ns i)"
    unfolding setupVeth_def Let_def by (auto intro!: success split: prod.split)
  show "succeeds (override_mac (pod_host dev out) ns i)"
    unfolding override_mac_def by (intro success)
  have "succeeds (addPort (pod_host dev out) b p m ns n nm)" for b p m ns n nm
    unfolding addPort_def by (intro success)
  moreover have "succeeds (State_Monad.return (getPodInfo ''IgnoreUnknown=1;K8S_POD_NAMESPACE=default;K8S_POD_NAME=web''))"
    by (simp add: succeeds_def pod_info)
  ultimately have "succeeds (check id (State_Monad.return (getPodInfo ''IgnoreUnknown=1;K8S_POD_NAMESPACE=default;K8S_POD_NAME=web''))
     (\<lambda>(podNamespace, podName).
       check id (addPort (pod_host dev out) (BridgeName installed_conf) (if_Name hi) (if_Mac ci) (Netns a) podNamespace podName) (\<lambda>_.
       check id (link_by_name (pod_host dev out) (if_Name hi)) (\<lambda>hostLink.
       check id (act (pod_host dev out) (LinkSetUp hostLink)) (\<lambda>_. ok ())))))"
    by (auto intro!: success split: prod.split)
  moreover have "h_env (pod_host dev out) h s = ''IgnoreUnknown=1;K8S_POD_NAMESPACE=default;K8S_POD_NAME=web''" for h s
    by (simp add: pod_host_def)
  ultimately show "succeeds (add_port (pod_host dev out) installed_conf a hi ci)"
    unfolding add_port_def succeeds_def by simp
qed

lemma no_device_configure: "\<exists>e h1. run_state (configure_container no_device_host installed_conf a r) h = (Inl e, h1)"
proof -
  have run: "run_state (act no_device_host (EnterNS ns)) h = (Inr (), h @ [EnterNS ns])"
    "run_state (interface_by_name no_device_host n) h = (Inl (ErrorMsg ''no such network interface''), h @ [InterfaceByName n])" for ns h n
    by (simp_all add: act_def interface_by_name_def pod_host_def)
  show ?thesis
    by (simp add: configure_container_def in_netns_def run_deferred run run_check)
qed

lemma no_device_wastes:
  "wastes (IpamAdd ''host-local'' (StdinData a)) (add_addresses no_device_host installed_conf a res)"
  unfolding wastes_def
proof
  fix h
  let ?r = "''10.0.1.5''" and ?add = "IpamAdd ''host-local'' (StdinData a)"
  obtain res' g4 g6 where g: "calcGateways (res\<lparr>IPs := [pod_ip], Routes := []\<rparr>) installed_conf = Inr (res', g4, g6)"
    using gateways_ok by blast
  obtain e h1 where c: "run_state (configure_container no_device_host installed_conf a res') (h @ [?add]) = (Inl e, h1)"
    using no_device_configure by blast
  have add: "run_state (exec_ipam_add no_device_host ''host-local'' (StdinData a)) h = (Inr ?r, h @ [?add])"
    by (simp add: exec_ipam_add_def pod_host_def)
  have conv: "c_convert no_device_host ?r = Inr ipam_result" by (simp add: pod_host_def)
  have ips: "IPs ipam_result = [pod_ip]" "Routes ipam_result = []" by (simp_all add: ipam_result_def)
  have "\<exists>e. run_state (configure_addresses no_device_host installed_conf a res ?r) (h @ [?add]) = (Inl e, h1)"
    by (simp add: configure_addresses_def conv ips g c run_check Let_def)
  moreover have "performs quiet (configure_addresses no_device_host installed_conf a res ?r)" by (intro effects)
  ultimately obtain e' t where r: "run_state (configure_addresses no_device_host installed_conf a res ?r) (h @ [?add]) = (Inl e', (h @ [?add]) @ t)"
    and t: "list_all quiet t" by (metis performsE)
  have "run_state (add_addresses no_device_host installed_conf a res) h =
      (Inl e', h @ [] @ ?add # (t @ [IpamDel ''host-local'' (StdinData a)]))"
    using add r by (simp add: add_addresses_def conf_fields run_on_failure release_def silent_def)
  moreover have "\<not> list_ex is_print (t @ [IpamDel ''host-local'' (StdinData a)])" using quiet_lists [OF t] by simp
  ultimately show "\<exists>e h1 h2. run_state (add_addresses no_device_host installed_conf a res) h = (Inl e, h @ h1 @ ?add # h2) \<and>
      \<not> list_ex is_print h2" by blast
qed

lemma no_device_add:
  "\<exists>e h1 h2. run_state (cmdAdd no_device_host pod_args) [] =
     (Inl e, h1 @ IpamAdd ''host-local'' (StdinData pod_args) # h2) \<and> \<not> list_ex is_print h2"
proof -
  let ?c = "IpamAdd ''host-local'' (StdinData pod_args)"
  have conf: "succeeds (State_Monad.return (loadNetConf (StdinData pod_args)))" by (simp add: succeeds_def pod_conf)
  have "wastes ?c (cmdAdd no_device_host pod_args)"
    unfolding cmdAdd_def Let_def
  proof (rule wastes_check [OF conf], intro effects)
    fix h x h'
    assume "run_state (State_Monad.return (loadNetConf (StdinData pod_args))) h = (Inr x, h')"
    then have x: "x = (installed_conf, '''')" by (simp add: pod_conf)
    show "wastes ?c (case x of (netConf, cniVersion) \<Rightarrow>
       check (Errorf ''failed to setup bridge'') (getBridgeInterface no_device_host) (\<lambda>bridge.
       check (Errorf ''failed to open netns'') (act no_device_host (GetNS (Netns pod_args))) (\<lambda>_.
       deferred
         (check id (setupVeth no_device_host (Netns pod_args) (IfName pod_args)) (\<lambda>(hostInterface, containerInterface).
          check (Errorf ''failed to override pod MAC address'') (override_mac no_device_host (Netns pod_args) (IfName pod_args)) (\<lambda>_.
          check id (add_port no_device_host netConf pod_args hostInterface containerInterface) (\<lambda>_.
          check id (add_addresses no_device_host netConf pod_args \<lparr>res_CNIVersion = cniVersion,
              Interfaces = [bridge, hostInterface, containerInterface], IPs = [], Routes = [], res_DNS = empty_DNS\<rparr>) (\<lambda>result.
          act no_device_host (PrintResult result cniVersion))))))
         (silent (CloseNS (Netns pod_args))))))"
      unfolding x prod.case
      by (auto intro!: wastes_check wastes_deferred wastes_first [OF no_device_wastes] pod_host_first success effects
          split: prod.split)
  qed
  from this [unfolded wastes_def, rule_format, of "[]"] show ?thesis by simp
qed

text \<open>A host with a nat table, that keeps a rule's network.\<close>

fun keep_net :: "nat_rule \<Rightarrow> nat_rule" where
  "keep_net (opt # n # r) = opt # (if opt = ''-s'' \<and> n = ''10.0.1.5/24'' then ''10.0.1.0/24'' else n) # r"
| "keep_net r = r"

definition empty_nat :: "bool \<Rightarrow> nat_table" where
  "empty_nat v6 = [(''POSTROUTING'', [])]"

definition masq_host :: cni_host where
  "masq_host = no_device_host\<lparr>
     h_act := (\<lambda>h c. case c of
       Ipt v nop \<Rightarrow> if apply_op keep_net nop (tables keep_net empty_nat h v) = None then Inl (ErrorMsg ''iptables'') else Inr ()
     | _ \<Rightarrow> Inr ()),
     c_chains := (\<lambda>h v. Inr (map fst (tables keep_net empty_nat h v)))\<rparr>"

lemma masq_ok: "iptables_ok keep_net empty_nat masq_host"
  by (simp add: iptables_ok_def masq_host_def)

lemma keep_target: "target (keep_net r) = target r"
  by (cases r rule: keep_net.cases) (auto simp: target_def)

lemma pod_net: "IPNet_String (ipc_Address pod_ip) = ''10.0.1.5/24''" "IPNet_String (Network (ipc_Address pod_ip)) = ''10.0.1.0/24''"
  "\<not> isV6 (ipc_Address pod_ip)" "\<not> isV6 (Network (ipc_Address pod_ip))"
  by code_simp+

lemma keep_ok: "canon_ok keep_net [ipc_Address pod_ip]"
  by (simp add: canon_ok_def keep_target pod_net)

section \<open>An ADD and a DEL that succeed\<close>

lemma check_pure: "check w (State_Monad.return (Inr x)) k = k x"
  by (simp add: check_def)

lemma pod_host_links: "links_ok (pod_host dev out) (\<lambda>n. 1)"
  by (simp add: links_ok_def pod_host_def any_link_def)

lemma good_iface [success]: "succeeds (interface_by_name good_pod_host n)"
  by (simp add: succeeds_def interface_by_name_def pod_host_def)

lemma succeeds_each: "(\<And>x. x \<in> set xs \<Longrightarrow> succeeds (body x)) \<Longrightarrow> succeeds (each body xs)"
  by (induction xs) (auto intro!: success)

lemma succeeds_bind: "(\<And>x. succeeds (k x)) \<Longrightarrow> succeeds (State_Monad.bind m k)"
  by (auto simp: succeeds_def split: prod.split)

lemma good_add_route [success]: "succeeds (add_route good_pod_host l g4 g6 r)"
  by (simp add: succeeds_def add_route_def act_def pod_host_def)

lemma good_configure:
  assumes "Interfaces base = [b, hi, ci]" and "if_Name ci = IfName a"
    and "calcGateways (base\<lparr>IPs := [pod_ip], Routes := rs\<rparr>) installed_conf = Inr (res, g4, g6)"
  shows "succeeds (configure_container good_pod_host installed_conf a res)"
proof -
  have ips: "IPs res = [completed installed_conf pod_ip]" using gateways_interfaces [OF assms(3)] by simp
  have ifs: "Interfaces res = [b, hi, ci]" using assms(1,3) by (auto simp: calcGateways_def split: sum.split_asm)
  have "succeeds (add_ips good_pod_host (IfName a) (Interfaces res) l (IPs res) [] [] False)" for l
    by (auto simp: ips ifs assms(2) completed_def pod_ip_def Let_def intro!: success)
  then have "succeeds (ConfigureIface good_pod_host (IfName a) res)"
    unfolding ConfigureIface_def using ifs
    by (auto intro!: success succeeds_bind succeeds_each split: prod.split)
  moreover have "ipc_Version (completed installed_conf pod_ip) = ''4''" by (simp add: completed_def pod_ip_def)
  ultimately show ?thesis
    unfolding configure_container_def ips by (auto intro!: success succeeds_bind)
qed

lemma good_add_addresses:
  assumes "Interfaces base = [b, hi, ci]" and "if_Name ci = IfName a"
  shows "succeeds (add_addresses good_pod_host installed_conf a base)"
  unfolding succeeds_def
proof
  fix h
  let ?r = "''10.0.1.5''" and ?h = "h @ [IpamAdd ''host-local'' (StdinData a)]"
  have add: "run_state (exec_ipam_add good_pod_host ''host-local'' (StdinData a)) h = (Inr ?r, ?h)"
    by (simp add: exec_ipam_add_def pod_host_def)
  obtain res g4 g6 where g: "calcGateways (base\<lparr>IPs := [pod_ip], Routes := []\<rparr>) installed_conf = Inr (res, g4, g6)"
    using gateways_ok by blast
  from good_configure [OF assms g] obtain h1 where c: "run_state (configure_container good_pod_host installed_conf a res) ?h = (Inr (), h1)"
    by (auto simp: succeeds_def)
  have conv: "c_convert good_pod_host ?r = Inr ipam_result" by (simp add: pod_host_def)
  have "IPs ipam_result = [pod_ip]" "Routes ipam_result = []" by (simp_all add: ipam_result_def)
  then have "run_state (configure_addresses good_pod_host installed_conf a base ?r) ?h = (Inr res, h1)"
    by (simp add: configure_addresses_def conv g c run_check Let_def conf_fields)
  moreover have "succeeds (finish_add good_pod_host installed_conf res)"
    unfolding finish_add_def bridgeByName_def Let_def by (intro success)
  then obtain res' h2 where "run_state (finish_add good_pod_host installed_conf res) h1 = (Inr res', h2)"
    unfolding succeeds_def by blast
  ultimately show "\<exists>x h'. run_state (add_addresses good_pod_host installed_conf a base) h = (Inr x, h')"
    using add by (simp add: add_addresses_def conf_fields run_on_failure)
qed

lemma good_add: "\<exists>h. run_state (cmdAdd good_pod_host pod_args) [] = (Inr (), h)"
proof -
  have veth: "succeeds (check id (setupVeth good_pod_host (Netns pod_args) (IfName pod_args)) (\<lambda>(hi, ci).
      check (Errorf ''failed to override pod MAC address'') (override_mac good_pod_host (Netns pod_args) (IfName pod_args)) (\<lambda>_.
      check id (add_port good_pod_host installed_conf pod_args hi ci) (\<lambda>_.
      let result = \<lparr>res_CNIVersion = '''', Interfaces = [b, hi, ci], IPs = [], Routes = [], res_DNS = empty_DNS\<rparr> in
      check id (add_addresses good_pod_host installed_conf pod_args result) (\<lambda>result.
      act good_pod_host (PrintResult result ''''))))))" for b
  proof (rule succeeds_check)
    show "succeeds (setupVeth good_pod_host (Netns pod_args) (IfName pod_args))" by (rule pod_host_first)
    fix h x h'
    assume run: "run_state (setupVeth good_pod_host (Netns pod_args) (IfName pod_args)) h = (Inr x, h')"
    obtain hi ci where x: "x = (hi, ci)" by (cases x)
    have "if_Name ci = IfName pod_args" using setupVeth_success [OF pod_host_links run [unfolded x]] by blast
    then show "succeeds (case x of (hi, ci) \<Rightarrow>
      check (Errorf ''failed to override pod MAC address'') (override_mac good_pod_host (Netns pod_args) (IfName pod_args)) (\<lambda>_.
      check id (add_port good_pod_host installed_conf pod_args hi ci) (\<lambda>_.
      let result = \<lparr>res_CNIVersion = '''', Interfaces = [b, hi, ci], IPs = [], Routes = [], res_DNS = empty_DNS\<rparr> in
      check id (add_addresses good_pod_host installed_conf pod_args result) (\<lambda>result.
      act good_pod_host (PrintResult result '''')))))"
      unfolding x prod.case Let_def
      by (intro success pod_host_first good_add_addresses [where b = b and hi = hi and ci = ci]) simp_all
  qed
  have "succeeds (cmdAdd good_pod_host pod_args)"
    unfolding cmdAdd_def pod_conf check_pure prod.case by (intro success pod_host_first veth)
  then show ?thesis by (auto simp: succeeds_def)
qed

lemma good_del: "\<exists>h. run_state (cmdDel good_pod_host pod_args) [] = (Inr (), h)"
proof -
  have "Unmarshal_Data ''{\"data\":[[\"veth01020304\"]]}'' = Inr [[''veth01020304'']]" by code_simp
  then have find: "succeeds (cni_findPort good_pod_host ns p n)" for ns p n
    by (simp add: succeeds_def cni_findPort_def run_command_def pod_host_def run_check)
  have del: "succeeds (delPort good_pod_host b p)" for b p
    unfolding delPort_def Let_def by (intro success)
  have addrs: "run_state (addr_list good_pod_host l f) h = (([], None), h @ [AddrList l f])" for l f h
    by (simp add: addr_list_def pod_host_def)
  have link: "run_state (link_by_name good_pod_host n) h = (Inr (any_link n), h @ [LinkByName n])"
    "run_state (act good_pod_host c) h = (Inr (), h @ [c])" for n h c
    by (simp_all add: host_ops pod_host_def)
  have device: "succeeds (delete_device good_pod_host i)" for i
    by (simp add: succeeds_def delete_device_def DelLinkByNameAddr_def addrs link run_check)
  have info: "h_env good_pod_host h s = ''IgnoreUnknown=1;K8S_POD_NAMESPACE=default;K8S_POD_NAME=web''" for h s
    by (simp add: pod_host_def)
  have ns: "Netns pod_args \<noteq> ''''" by (simp add: pod_args_def)
  have body: "succeeds (check id
         (if Netns pod_args \<noteq> '''' then
            check id (cni_findPort good_pod_host (Netns pod_args) ''default'' ''web'') (\<lambda>portName.
            delPort good_pod_host (BridgeName installed_conf) portName)
          else ok ()) (\<lambda>_.
       check id
         (if IPAM_Type installed_conf \<noteq> '''' then act good_pod_host (IpamDel (IPAM_Type installed_conf) (StdinData pod_args)) else ok ()) (\<lambda>_.
       if Netns pod_args = '''' then ok ()
       else
         check id
           (check id (act good_pod_host (GetNS (Netns pod_args))) (\<lambda>_.
            deferred (in_netns good_pod_host (Netns pod_args) (delete_device good_pod_host (IfName pod_args))) (silent (CloseNS (Netns pod_args))))) (\<lambda>ipnets.
         if IPAM_Type installed_conf \<noteq> '''' \<and> IPMasq installed_conf then
           teardown_masquerade good_pod_host installed_conf pod_args ipnets
         else ok ()))))"
    unfolding conf_fields using ns by (auto intro!: success find del device)
  then show ?thesis
    by (auto simp: cmdDel_def pod_conf check_pure info pod_info succeeds_def)
qed

end
