(* ===== verification/VSwitchClient.thy ===== *)
theory VSwitchClient
  imports RestRequest VSwitchCfg
begin

text \<open>
  The generated client of the \<^verbatim>\<open>VSwitchConfig\<close> resource: \<^verbatim>\<open>clientset/versioned/clientset.go\<close> and
  \<^verbatim>\<open>clientset/versioned/typed/kvswitch/v1alpha1\<close> below \<^verbatim>\<open>apis/generated\<close>.  An operation returns its results
  and the requests it has sent to the server \<open>srv\<close>.

  \<open>named_paths\<close>, \<open>collection_paths\<close>: where each operation sends its request.  \<open>controller_http\<close>: what the requests of
  the configuration controller are on the wire.
\<close>

section \<open>The REST client\<close>

record RESTClient =
  rc_base :: string
  rc_versionedAPIPath :: string
  rc_content :: string
  rc_timeout :: int

definition DefaultVersionedAPIPath :: "string \<Rightarrow> string \<times> string \<Rightarrow> string" where
  "DefaultVersionedAPIPath apiPath gv =
     (let versionedAPIPath = path_Join [''/'', apiPath] in
      if fst gv \<noteq> '''' then path_Join [versionedAPIPath, fst gv, snd gv] else path_Join [versionedAPIPath, snd gv])"

definition NewRESTClient :: "string \<Rightarrow> string \<Rightarrow> string \<Rightarrow> int \<Rightarrow> RESTClient" where
  "NewRESTClient base versionedAPIPath content timeout =
     \<lparr>rc_base = (if HasSuffix base ''/'' then base else base @ ''/''), rc_versionedAPIPath = versionedAPIPath,
      rc_content = (if content = '''' then ''application/json'' else content), rc_timeout = timeout\<rparr>"

definition rc_Verb :: "string \<Rightarrow> RESTClient \<Rightarrow> rest_request" where
  "rc_Verb verb c = NewRequest verb (rc_base c) (rc_versionedAPIPath c) (rc_content c) (rc_timeout c)"

definition rc_Patch :: "string \<Rightarrow> RESTClient \<Rightarrow> rest_request" where
  "rc_Patch pt c = (rc_Verb ''PATCH'' c)\<lparr>rq_contentType := Some pt\<rparr>"

section \<open>Clients from a configuration\<close>

text \<open>
  \<^verbatim>\<open>rest.Config\<close> with the fields the clients touch.  \<^verbatim>\<open>QPS\<close> is counted in hundredths; a rate limiter is its rate
  and burst.
\<close>

record rest_config =
  Host :: string
  APIPath :: string
  GroupVersion :: "(string \<times> string) option"
  UserAgent :: string
  ContentType :: string
  Timeout :: int
  QPS :: int
  Burst :: int
  RateLimiter :: "(int \<times> int) option"

text \<open>What the library makes of a configuration: the path of the host's URL, the transport (true for the default one), and the
  discovery client.\<close>

record rest_env =
  url_path_of :: "string \<Rightarrow> err + string"
  transport_for :: "rest_config \<Rightarrow> err + bool"
  serializers_for :: "string \<Rightarrow> err option"
  discovery_for :: "rest_config \<Rightarrow> err option"
  DefaultUserAgent :: string

definition RESTClientFor :: "rest_env \<Rightarrow> rest_config \<Rightarrow> err + RESTClient" where
  "RESTClientFor env config =
     (case GroupVersion config of
        None \<Rightarrow> Inl (ErrorMsg ''GroupVersion is required when initializing a RESTClient'')
      | Some gv \<Rightarrow>
          (case url_path_of env (if Host config = '''' then ''localhost'' else Host config) of
             Inl e \<Rightarrow> Inl e
           | Inr base \<Rightarrow>
               (case transport_for env config of
                  Inl e \<Rightarrow> Inl e
                | Inr dflt \<Rightarrow>
                    (let c = NewRESTClient base (DefaultVersionedAPIPath (APIPath config) gv) (ContentType config)
                           (if \<not> dflt \<and> 0 < Timeout config then Timeout config else 0)
                     in case serializers_for env (rc_content c) of Some e \<Rightarrow> Inl e | None \<Rightarrow> Inr c))))"

definition SchemeGroupVersion :: "string \<times> string" where
  "SchemeGroupVersion = (''kvswitch.io'', ''v1alpha1'')"

definition setConfigDefaults :: "rest_env \<Rightarrow> rest_config \<Rightarrow> rest_config" where
  "setConfigDefaults env config =
     (let config = config\<lparr>GroupVersion := Some SchemeGroupVersion, APIPath := ''/apis''\<rparr>
      in if UserAgent config = '''' then config\<lparr>UserAgent := DefaultUserAgent env\<rparr> else config)"

definition v1alpha1_NewForConfig :: "rest_env \<Rightarrow> rest_config \<Rightarrow> err + RESTClient" where
  "v1alpha1_NewForConfig env c = RESTClientFor env (setConfigDefaults env c)"

text \<open>A clientset is its client of the group; the discovery client is only required to exist.\<close>

definition clientset_NewForConfig :: "rest_env \<Rightarrow> rest_config \<Rightarrow> err + RESTClient" where
  "clientset_NewForConfig env c =
     (let c = (if RateLimiter c = None \<and> 0 < QPS c then c\<lparr>RateLimiter := Some (QPS c, Burst c)\<rparr> else c) in
      case v1alpha1_NewForConfig env c of
        Inl e \<Rightarrow> Inl e
      | Inr cs \<Rightarrow> (case discovery_for env c of Some e \<Rightarrow> Inl e | None \<Rightarrow> Inr cs))"

text \<open>The variants that panic on an error.  This clientset's clients do not share a rate limiter.\<close>

definition v1alpha1_NewForConfigOrDie :: "rest_env \<Rightarrow> rest_config \<Rightarrow> RESTClient option" where
  "v1alpha1_NewForConfigOrDie env c = (case v1alpha1_NewForConfig env c of Inl _ \<Rightarrow> None | Inr client \<Rightarrow> Some client)"

definition clientset_NewForConfigOrDie :: "rest_env \<Rightarrow> rest_config \<Rightarrow> RESTClient option" where
  "clientset_NewForConfigOrDie env c =
     (case v1alpha1_NewForConfigOrDie env c of
        None \<Rightarrow> None
      | Some cs \<Rightarrow> (case discovery_for env c of Some _ \<Rightarrow> None | None \<Rightarrow> Some cs))"

section \<open>The typed client\<close>

record VSwitchConfigList =
  list_ResourceVersion :: string
  list_Continue :: string
  Items :: "VSwitchConfig list"

definition zero_config :: VSwitchConfig where
  "zero_config = \<lparr>vs_Name = '''', vs_Labels = [],
     Spec = \<lparr>PodCIDR = '''', ClusterCIDR = '''', ServiceCIDR = '''', OverlayIP = '''', OverlayType = ''''\<rparr>\<rparr>"

definition zero_list :: VSwitchConfigList where
  "zero_list = \<lparr>list_ResourceVersion = '''', list_Continue = '''', Items = []\<rparr>"

text \<open>\<^verbatim>\<open>Do().Into(result)\<close>: the result keeps its zero value if there is an error.\<close>

definition Into :: "'a \<Rightarrow> (err + 'a) \<times> http_request list \<Rightarrow> ('a \<times> err option) \<times> http_request list" where
  "Into zero d = (case d of (Inl e, sent) \<Rightarrow> ((zero, Some e), sent) | (Inr x, sent) \<Rightarrow> ((x, None), sent))"

definition Error_of :: "(err + unit) \<times> http_request list \<Rightarrow> err option \<times> http_request list" where
  "Error_of d = (case d of (Inl e, sent) \<Rightarrow> (Some e, sent) | (Inr _, sent) \<Rightarrow> (None, sent))"

text \<open>The timeout of a list: \<^verbatim>\<open>time.Duration(*opts.TimeoutSeconds) * time.Second\<close> wraps around.\<close>

definition list_timeout :: "ListOptions \<Rightarrow> int" where
  "list_timeout opts =
     (case TimeoutSeconds opts of None \<Rightarrow> 0 | Some n \<Rightarrow> sint ((word_of_int n :: 64 word) * 1000000000))"

definition client_Get ::
  "(http_request \<Rightarrow> err + VSwitchConfig) \<Rightarrow> RESTClient \<Rightarrow> string \<Rightarrow> GetOptions \<Rightarrow>
     (VSwitchConfig \<times> err option) \<times> http_request list" where
  "client_Get srv c name options =
     Into zero_config (Do srv (VersionedParams (GetOptions_params options)
       (set_Name name (set_Resource ''vswitchconfigs'' (rc_Verb ''GET'' c)))))"

definition client_List ::
  "(http_request \<Rightarrow> err + VSwitchConfigList) \<Rightarrow> RESTClient \<Rightarrow> ListOptions \<Rightarrow>
     (VSwitchConfigList \<times> err option) \<times> http_request list" where
  "client_List srv c opts =
     Into zero_list (Do srv (set_Timeout (list_timeout opts) (VersionedParams (ListOptions_params opts)
       (set_Resource ''vswitchconfigs'' (rc_Verb ''GET'' c)))))"

definition client_Watch ::
  "(http_request \<Rightarrow> err + 'w) \<Rightarrow> RESTClient \<Rightarrow> ListOptions \<Rightarrow> (err + 'w) \<times> http_request list" where
  "client_Watch srv c opts =
     (let timeout = list_timeout opts; opts = opts\<lparr>Watch_flag := True\<rparr> in
      Do srv (set_Timeout timeout (VersionedParams (ListOptions_params opts)
        (set_Resource ''vswitchconfigs'' (rc_Verb ''GET'' c)))))"

definition client_Create ::
  "(http_request \<Rightarrow> err + VSwitchConfig) \<Rightarrow> RESTClient \<Rightarrow> VSwitchConfig \<Rightarrow>
     (VSwitchConfig \<times> err option) \<times> http_request list" where
  "client_Create srv c cfg =
     Into zero_config (Do srv (set_Body (Some (ConfigBody cfg))
       (set_Resource ''vswitchconfigs'' (rc_Verb ''POST'' c))))"

definition client_Update ::
  "(http_request \<Rightarrow> err + VSwitchConfig) \<Rightarrow> RESTClient \<Rightarrow> VSwitchConfig \<Rightarrow>
     (VSwitchConfig \<times> err option) \<times> http_request list" where
  "client_Update srv c cfg =
     Into zero_config (Do srv (set_Body (Some (ConfigBody cfg)) (set_Name (vs_Name cfg)
       (set_Resource ''vswitchconfigs'' (rc_Verb ''PUT'' c)))))"

definition client_Delete ::
  "(http_request \<Rightarrow> err + unit) \<Rightarrow> RESTClient \<Rightarrow> string \<Rightarrow> DeleteOptions option \<Rightarrow> err option \<times> http_request list" where
  "client_Delete srv c name options =
     Error_of (Do srv (set_Body (map_option OptionsBody options) (set_Name name
       (set_Resource ''vswitchconfigs'' (rc_Verb ''DELETE'' c)))))"

definition client_DeleteCollection ::
  "(http_request \<Rightarrow> err + unit) \<Rightarrow> RESTClient \<Rightarrow> DeleteOptions option \<Rightarrow> ListOptions \<Rightarrow>
     err option \<times> http_request list" where
  "client_DeleteCollection srv c options listOptions =
     Error_of (Do srv (set_Body (map_option OptionsBody options) (set_Timeout (list_timeout listOptions)
       (VersionedParams (ListOptions_params listOptions) (set_Resource ''vswitchconfigs'' (rc_Verb ''DELETE'' c))))))"

definition client_Patch ::
  "(http_request \<Rightarrow> err + VSwitchConfig) \<Rightarrow> RESTClient \<Rightarrow> string \<Rightarrow> string \<Rightarrow> string \<Rightarrow> string list \<Rightarrow>
     (VSwitchConfig \<times> err option) \<times> http_request list" where
  "client_Patch srv c name pt data subresources =
     Into zero_config (Do srv (set_Body (Some (RawBody data)) (set_Name name (set_SubResource subresources
       (set_Resource ''vswitchconfigs'' (rc_Patch pt c))))))"

section \<open>Where the requests go\<close>

definition api_segments :: "string list" where
  "api_segments = [''apis'', ''kvswitch.io'', ''v1alpha1'']"

text \<open>A client of the group on a server whose URL has the path \<open>xs\<close>.\<close>

definition client_at :: "string list \<Rightarrow> RESTClient \<Rightarrow> bool" where
  "client_at xs c \<longleftrightarrow> list_all segment xs \<and> segs (rc_base c) = xs \<and>
     rc_versionedAPIPath c = rooted_path api_segments"

definition collection_path :: "string list \<Rightarrow> string" where
  "collection_path xs = rooted_path (xs @ api_segments @ [''vswitchconfigs''])"

definition config_path :: "string list \<Rightarrow> string \<Rightarrow> string" where
  "config_path xs name = rooted_path (xs @ api_segments @ [''vswitchconfigs'', name])"

definition valid_name :: "string \<Rightarrow> bool" where
  "valid_name s \<longleftrightarrow> segment s \<and> CHR ''%'' \<notin> set s"

lemma api_segments_ok: "list_all segment api_segments" "segment ''vswitchconfigs''" "IsValidPathSegmentName ''vswitchconfigs'' = []"
  by (simp_all add: api_segments_def segment_def IsValidPathSegmentName_def)

lemma valid_name_segment': "valid_name s \<longleftrightarrow> IsValidPathSegmentName s = [] \<and> s \<noteq> ''''"
  using valid_name_segment [of s] by (auto simp: valid_name_def)

lemma config_path_inject:
  assumes "list_all segment xs" and "valid_name m" and "valid_name n" and "config_path xs m = config_path xs n"
  shows "m = n"
proof -
  have "last (segs (config_path xs k)) = k" if "valid_name k" for k
    using segs_rooted [of "xs @ api_segments @ [''vswitchconfigs'', k]"] that assms(1) api_segments_ok
    by (simp add: config_path_def valid_name_def)
  with assms show ?thesis by metis
qed

lemma Verb_prefix:
  assumes "client_at xs c"
  shows "rq_pathPrefix (rc_Verb v c) = rooted_path (xs @ api_segments)"
proof -
  have "path_Join [''/'', rc_base c] = rooted_path xs"
    using Join_segs [of "''''" "[rc_base c]"] assms by (simp add: client_at_def segs_def)
  with Join_paths [of xs api_segments] assms api_segments_ok(1) show ?thesis
    by (simp add: rc_Verb_def NewRequest_def client_at_def)
qed

lemma Verb_fields [simp]:
  "rq_err (rc_Verb v c) = None" "rq_resource (rc_Verb v c) = ''''" "rq_resourceName (rc_Verb v c) = ''''"
  "rq_subresource (rc_Verb v c) = ''''" "rq_params (rc_Verb v c) = []" "rq_timeout (rc_Verb v c) = rc_timeout c"
  "rq_body (rc_Verb v c) = None" "rq_verb (rc_Verb v c) = v" "rq_content (rc_Verb v c) = rc_content c"
  "rq_contentType (rc_Verb v c) = None"
  by (simp_all add: rc_Verb_def NewRequest_def)

lemma Resource_ok:
  "rq_err r = None \<Longrightarrow> rq_resource r = '''' \<Longrightarrow>
     set_Resource ''vswitchconfigs'' r = r\<lparr>rq_resource := ''vswitchconfigs''\<rparr>"
  by (simp add: set_Resource_def unless_err_def api_segments_ok)

lemma Name_ok:
  "rq_err r = None \<Longrightarrow> rq_resourceName r = '''' \<Longrightarrow> valid_name n \<Longrightarrow> set_Name n r = r\<lparr>rq_resourceName := n\<rparr>"
  by (simp add: set_Name_def unless_err_def valid_name_segment')

lemma Name_bad: "rq_err r = None \<Longrightarrow> rq_resourceName r = '''' \<Longrightarrow> \<not> valid_name n \<Longrightarrow> \<exists>e. rq_err (set_Name n r) = Some e"
  by (auto simp: set_Name_def unless_err_def rq_fail_def valid_name_segment')

lemma URL_paths:
  assumes "list_all segment xs" and "rq_pathPrefix r = rooted_path (xs @ api_segments)" and "rq_resource r = ''vswitchconfigs''"
    and "rq_subresource r = ''''"
  shows "rq_resourceName r = '''' \<Longrightarrow> url_Path (request_URL r) = collection_path xs"
    and "valid_name (rq_resourceName r) \<Longrightarrow> url_Path (request_URL r) = config_path xs (rq_resourceName r)"
proof -
  have lower: "ToLower ''vswitchconfigs'' = ''vswitchconfigs''" by code_simp
  have seg: "list_all segment (xs @ api_segments)" "list_all segment (xs @ api_segments @ [''vswitchconfigs''])"
    using assms(1) api_segments_ok by simp_all
  have p: "path_Join [rooted_path (xs @ api_segments), ''vswitchconfigs''] = collection_path xs"
    using Join_rooted [OF seg(1), of "[''vswitchconfigs'']"] api_segments_ok(2) by (simp add: collection_path_def)
  show "url_Path (request_URL r) = collection_path xs" if "rq_resourceName r = ''''"
    using that assms p by (simp add: request_URL_def Let_def lower)
  show "url_Path (request_URL r) = config_path xs (rq_resourceName r)" if v: "valid_name (rq_resourceName r)"
  proof -
    from v have "segment (rq_resourceName r)" "rq_resourceName r \<noteq> ''''" by (auto simp: valid_name_def segment_def)
    with assms p Join_rooted [OF seg(2), of "[rq_resourceName r, '''', '''']"] show ?thesis
      by (simp add: request_URL_def Let_def lower config_path_def collection_path_def)
  qed
qed

text \<open>What an operation on a named object sends: one request to its path, or none if the name is no path segment.\<close>

definition sends :: "http_request list \<Rightarrow> string \<Rightarrow> string \<Rightarrow> body option \<Rightarrow> bool" where
  "sends sent verb path b \<longleftrightarrow> (\<exists>q. sent = [q] \<and> http_Method q = verb \<and> url_Path (http_URL q) = path \<and> http_Body q = b)"

lemmas client_ops = client_Get_def client_List_def client_Watch_def client_Create_def client_Update_def client_Delete_def
  client_DeleteCollection_def client_Patch_def
lemma setters:
  assumes "rq_err r = None"
  shows "VersionedParams ps r = r\<lparr>rq_params := rq_params r @ ps\<rparr>" "set_Timeout d r = r\<lparr>rq_timeout := d\<rparr>"
    "set_Body (Some (ConfigBody cfg)) r = r\<lparr>rq_body := Some (ConfigBody cfg), rq_contentType := Some (rq_content r)\<rparr>"
    "set_Body (Some (RawBody t)) r = r\<lparr>rq_body := Some (RawBody t)\<rparr>"
    "rq_subresource r = '''' \<Longrightarrow> set_SubResource [] r = r\<lparr>rq_subresource := ''''\<rparr>"
  using assms
  by (simp_all add: VersionedParams_def set_Timeout_def set_Body_def set_SubResource_def unless_err_def path_Join_def)

lemma set_Body_fields:
  assumes "rq_err r = None"
  shows "rq_body r = None \<Longrightarrow> rq_body (set_Body (map_option OptionsBody o2) r) = map_option OptionsBody o2"
    "rq_err (set_Body b r) = None" "rq_pathPrefix (set_Body b r) = rq_pathPrefix r" "rq_resource (set_Body b r) = rq_resource r"
    "rq_resourceName (set_Body b r) = rq_resourceName r" "rq_subresource (set_Body b r) = rq_subresource r"
    "rq_verb (set_Body b r) = rq_verb r"
  using assms by (simp_all add: set_Body_def unless_err_def split: option.split body.split)

lemma snd_Into [simp]: "snd (Into z d) = snd d" "snd (Error_of e) = snd e"
  by (auto simp: Into_def Error_of_def split: prod.split sum.split)

lemma fst_Into: "fst (Into z (Do srv r)) = (case rq_err r of Some e \<Rightarrow> (z, Some e)
    | None \<Rightarrow> (case srv (http_of r) of Inl e \<Rightarrow> (z, Some e) | Inr x \<Rightarrow> (x, None)))"
  by (auto simp: Into_def Do_def split: option.split sum.split)

lemma sends_Do:
  "rq_err r = None \<Longrightarrow> sends (snd (Do srv r)) (rq_verb r) (url_Path (request_URL r)) (rq_body r)"
  by (simp add: Do_def sends_def http_of_def)

text \<open>A request whose chain of setters has had no error.\<close>

lemma sends_named:
  assumes "list_all segment xs" and "valid_name name" and "rq_pathPrefix r = rooted_path (xs @ api_segments)" and "rq_err r = None"
    and "rq_resource r = ''vswitchconfigs''" and "rq_resourceName r = name" and "rq_subresource r = ''''"
    and "rq_verb r = v" and "rq_body r = b"
  shows "sends (snd (Do srv r)) v (config_path xs name) b"
  using URL_paths(2) [OF assms(1,3,5,7)] sends_Do [of r srv] assms by simp

lemma sends_collection:
  assumes "list_all segment xs" and "rq_pathPrefix r = rooted_path (xs @ api_segments)" and "rq_err r = None"
    and "rq_resource r = ''vswitchconfigs''" and "rq_resourceName r = ''''" and "rq_subresource r = ''''"
    and "rq_verb r = v" and "rq_body r = b"
  shows "sends (snd (Do srv r)) v (collection_path xs) b"
  using URL_paths(1) [OF assms(1,2,4,6,5)] sends_Do [of r srv] assms by simp

lemma client_at_segments: "client_at xs c \<Longrightarrow> list_all segment xs"
  by (simp add: client_at_def)

lemma named_paths:
  assumes "client_at xs c" and "valid_name name"
  shows "sends (snd (client_Get srv c name o1)) ''GET'' (config_path xs name) None"
    and "vs_Name cfg = name \<Longrightarrow> sends (snd (client_Update srv c cfg)) ''PUT'' (config_path xs name) (Some (ConfigBody cfg))"
    and "sends (snd (client_Delete srv' c name o2)) ''DELETE'' (config_path xs name) (map_option OptionsBody o2)"
    and "sends (snd (client_Patch srv c name pt data [])) ''PATCH'' (config_path xs name) (Some (RawBody data))"
  unfolding client_ops rc_Patch_def snd_Into
  by (rule sends_named [OF client_at_segments [OF assms(1)] assms(2)];
      simp add: Verb_prefix [OF assms(1)] Resource_ok Name_ok [OF _ _ assms(2)] setters set_Body_fields)+

lemma collection_paths:
  assumes "client_at xs c"
  shows "sends (snd (client_List srv c o1)) ''GET'' (collection_path xs) None"
    and "sends (snd (client_Watch srv1 c o1)) ''GET'' (collection_path xs) None"
    and "sends (snd (client_Create srv2 c cfg)) ''POST'' (collection_path xs) (Some (ConfigBody cfg))"
    and "sends (snd (client_DeleteCollection srv3 c o2 o1)) ''DELETE'' (collection_path xs) (map_option OptionsBody o2)"
  unfolding client_ops snd_Into Let_def
  by (rule sends_collection [OF client_at_segments [OF assms]];
      simp add: Verb_prefix [OF assms] Resource_ok setters set_Body_fields)+

lemma invalid_name_sends_nothing:
  assumes "\<not> valid_name name"
  shows "\<exists>e. client_Get srv c name o1 = ((zero_config, Some e), [])"
    and "vs_Name cfg = name \<Longrightarrow> \<exists>e. client_Update srv c cfg = ((zero_config, Some e), [])"
    and "\<exists>e. client_Delete srv' c name o2 = (Some e, [])"
proof -
  note chain = client_ops Into_def Error_of_def Resource_ok keeps_error
  have bad: "\<exists>e. rq_err (set_Name name ((rc_Verb v c)\<lparr>rq_resource := ''vswitchconfigs''\<rparr>)) = Some e" for v
    using Name_bad [OF _ _ assms, of "(rc_Verb v c)\<lparr>rq_resource := ''vswitchconfigs''\<rparr>"] by simp
  obtain e where e: "rq_err (set_Name name ((rc_Verb ''GET'' c)\<lparr>rq_resource := ''vswitchconfigs''\<rparr>)) = Some e"
    using bad by blast
  show "\<exists>e. client_Get srv c name o1 = ((zero_config, Some e), [])" by (simp add: chain keeps_error [OF e])
  obtain e where e: "rq_err (set_Name name ((rc_Verb ''PUT'' c)\<lparr>rq_resource := ''vswitchconfigs''\<rparr>)) = Some e"
    using bad by blast
  show "vs_Name cfg = name \<Longrightarrow> \<exists>e. client_Update srv c cfg = ((zero_config, Some e), [])"
    by (simp add: chain keeps_error [OF e])
  obtain e where e: "rq_err (set_Name name ((rc_Verb ''DELETE'' c)\<lparr>rq_resource := ''vswitchconfigs''\<rparr>)) = Some e"
    using bad by blast
  show "\<exists>e. client_Delete srv' c name o2 = (Some e, [])" by (simp add: chain keeps_error [OF e])
qed

text \<open>The client made from a configuration.\<close>

lemma RESTClientFor_result:
  assumes "RESTClientFor env config = Inr c" and "GroupVersion config = Some gv"
    and "url_path_of env (if Host config = '''' then ''localhost'' else Host config) = Inr p"
  shows "rc_base c = (if HasSuffix p ''/'' then p else p @ ''/'')"
    and "rc_versionedAPIPath c = DefaultVersionedAPIPath (APIPath config) gv"
  using assms
  by (auto simp: RESTClientFor_def NewRESTClient_def Let_def split: sum.split_asm option.split_asm)

lemma setConfigDefaults_fields [simp]:
  "GroupVersion (setConfigDefaults env c) = Some SchemeGroupVersion" "APIPath (setConfigDefaults env c) = ''/apis''"
  "Host (setConfigDefaults env c) = Host c"
  by (simp_all add: setConfigDefaults_def Let_def)

lemma clientset_at:
  assumes "clientset_NewForConfig env cfg = Inr c" and "url_path_of env (if Host cfg = '''' then ''localhost'' else Host cfg) = Inr p"
    and "list_all segment (segs p)"
  shows "client_at (segs p) c"
proof -
  have s: "segment ''apis''" "segment ''kvswitch.io''" "segment ''v1alpha1''" by (simp_all add: segment_def)
  have "''/'' = rooted_path []" "''/apis'' = rooted_path [''apis'']" by (simp_all add: rooted_path_def)
  with Join_paths [of "[]" "[''apis'']"] Join_rooted [of "[''apis'']" "[''kvswitch.io'', ''v1alpha1'']"] s
  have v: "DefaultVersionedAPIPath ''/apis'' SchemeGroupVersion = rooted_path api_segments"
    by (simp add: DefaultVersionedAPIPath_def SchemeGroupVersion_def api_segments_def)
  have base: "segs (if HasSuffix p ''/'' then p else p @ ''/'') = segs p"
    by (simp add: segs_def Split_sep)
  let ?cfg = "if RateLimiter cfg = None \<and> 0 < QPS cfg then cfg\<lparr>RateLimiter := Some (QPS cfg, Burst cfg)\<rparr> else cfg"
  have "RESTClientFor env (setConfigDefaults env ?cfg) = Inr c"
    using assms(1) by (simp only: clientset_NewForConfig_def v1alpha1_NewForConfig_def Let_def split: sum.split_asm option.split_asm)
      simp_all
  then obtain cfg' where r: "RESTClientFor env (setConfigDefaults env cfg') = Inr c" and host: "Host cfg' = Host cfg" by fastforce
  have "url_path_of env (if Host (setConfigDefaults env cfg') = '''' then ''localhost'' else Host (setConfigDefaults env cfg')) = Inr p"
    unfolding setConfigDefaults_fields host by (rule assms(2))
  from RESTClientFor_result [OF r _ this, of SchemeGroupVersion] base v assms(3) show ?thesis
    by (simp add: client_at_def)
qed

section \<open>The controller's requests on the wire\<close>

text \<open>What the controller's calls of the client send, and the error it sees.\<close>

definition client_request ::
  "(http_request \<Rightarrow> err + VSwitchConfig) \<Rightarrow> RESTClient \<Rightarrow> request \<Rightarrow> err option \<times> http_request list" where
  "client_request srv c req =
     (case req of
        Create cfg \<Rightarrow> (case client_Create srv c cfg of ((_, err), sent) \<Rightarrow> (err, sent))
      | Update cfg \<Rightarrow> (case client_Update srv c cfg of ((_, err), sent) \<Rightarrow> (err, sent))
      | Delete name \<Rightarrow>
          client_Delete (\<lambda>q. case srv q of Inl e \<Rightarrow> Inl e | Inr _ \<Rightarrow> Inr ()) c name
            (Some \<lparr>GracePeriodSeconds = None, Preconditions_UID = None, OrphanDependents = None, PropagationPolicy = None,
                   DryRun = []\<rparr>))"

definition client_api :: "(http_request \<Rightarrow> err + VSwitchConfig) \<Rightarrow> RESTClient \<Rightarrow> api" where
  "client_api srv c req = fst (client_request srv c req)"

definition on_wire :: "(http_request \<Rightarrow> err + VSwitchConfig) \<Rightarrow> RESTClient \<Rightarrow> request list \<Rightarrow> http_request list" where
  "on_wire srv c reqs = concat (map (\<lambda>req. snd (client_request srv c req)) reqs)"

lemma on_wire_single:
  "on_wire srv c [Create cfg] = snd (client_Create srv c cfg)" "on_wire srv c [Update cfg] = snd (client_Update srv c cfg)"
  by (simp_all add: on_wire_def client_request_def split: prod.split)

lemma OnAdd_create_or_update:
  assumes "VS_OnAdd v get api (NodeObj node) = Some [req]"
  shows "(case get (node_Name node) of Inl _ \<Rightarrow> \<exists>cfg. req = Create cfg | Inr _ \<Rightarrow> \<exists>cfg. req = Update cfg)"
  using assms
  by (auto simp: VS_OnAdd_def syncVSwitchConfig_def Let_def split: sum.splits if_split_asm)

lemma lister_found: "vswitchLister_Get items name = Inr cfg \<Longrightarrow> \<exists>x\<in>set items. vs_Name x = name"
  by (auto simp: vswitchLister_Get_def find_Some_iff split: option.split_asm)

lemma lister_missing: "vswitchLister_Get items name = Inl e \<Longrightarrow> \<not> (\<exists>x\<in>set items. vs_Name x = name)"
  by (auto simp: vswitchLister_Get_def find_None_iff split: option.split_asm)

lemma controller_http:
  assumes "client_at xs c" and "valid_name (node_Name node)"
    and "nodeOverlayIP node = Inr oip" and "nodePodCIDR node = Inr pc"
    and "\<nexists>cfg. cfg \<in> set items \<and> up_to_date v node cfg"
  shows "\<exists>reqs cfg. VS_OnAdd v (vswitchLister_Get items) (client_api srv c) (NodeObj node) = Some reqs \<and>
    up_to_date v node cfg \<and> ServiceCIDR (Spec cfg) = vc_serviceCIDR v \<and>
    (if \<exists>x\<in>set items. vs_Name x = node_Name node
     then sends (on_wire srv c reqs) ''PUT'' (config_path xs (node_Name node)) (Some (ConfigBody cfg))
     else sends (on_wire srv c reqs) ''POST'' (collection_path xs) (Some (ConfigBody cfg)))"
proof -
  from outdated_written [OF assms(3-5), of "client_api srv c"] obtain req cfg where
    r: "VS_OnAdd v (vswitchLister_Get items) (client_api srv c) (NodeObj node) = Some [req]"
    "written_config req = Some cfg" "up_to_date v node cfg" "ServiceCIDR (Spec cfg) = vc_serviceCIDR v" by blast
  have name: "vs_Name cfg = node_Name node" using r(3) by (simp add: up_to_date_def)
  show ?thesis
  proof (cases "vswitchLister_Get items (node_Name node)")
    case (Inl e)
    with OnAdd_create_or_update [OF r(1)] r(2) have "req = Create cfg" by auto
    with r lister_missing [OF Inl] collection_paths(3) [OF assms(1)] show ?thesis
      by (intro exI [of _ "[req]"] exI [of _ cfg]) (auto simp: on_wire_single)
  next
    case (Inr old)
    with OnAdd_create_or_update [OF r(1)] r(2) have "req = Update cfg" by auto
    with r lister_found [OF Inr] named_paths(2) [OF assms(1,2) name] show ?thesis
      by (intro exI [of _ "[req]"] exI [of _ cfg]) (auto simp: on_wire_single)
  qed
qed

end
