(* ===== verification/FakeClient.thy ===== *)
theory FakeClient
  imports VSwitchClient
begin

text \<open>
  The generated fake client (\<^verbatim>\<open>clientset/versioned/fake\<close> and \<^verbatim>\<open>typed/kvswitch/v1alpha1/fake\<close> below \<^verbatim>\<open>apis/generated\<close>)
  over the vendored object tracker of \<^verbatim>\<open>client-go/testing\<close>: an API server in memory, for this one resource, which
  has no namespace.  A type assertion that fails is a panic.  The patch libraries and the parser of selectors are
  parameters; the events of a watcher are kept, unread, as a list.

  The locale \<open>config_store\<close> is the contract of the API the controller and the daemon share; the fake client provides
  it.  \<open>replay\<close>: a watcher has seen every change since it was made.
\<close>

section \<open>The tracker\<close>

datatype watch_event =
    Added VSwitchConfig
  | Modified VSwitchConfig
  | Deleted VSwitchConfig

datatype fake_action =
    GetAction string
  | ListAction ListOptions
  | WatchAction ListOptions
  | CreateAction VSwitchConfig
  | UpdateAction VSwitchConfig
  | DeleteAction string
  | DeleteCollectionAction ListOptions
  | PatchAction string string string string

record fake_clientset =
  fk_actions :: "fake_action list"
  fk_objects :: "VSwitchConfig list"
  fk_watchers :: "watch_event list list"

definition broadcast :: "watch_event \<Rightarrow> fake_clientset \<Rightarrow> fake_clientset" where
  "broadcast e s = s\<lparr>fk_watchers := map (\<lambda>w. w @ [e]) (fk_watchers s)\<rparr>"

definition filterByName :: "VSwitchConfig list \<Rightarrow> string \<Rightarrow> VSwitchConfig list" where
  "filterByName objs name = filter (\<lambda>x. name = '''' \<or> vs_Name x = name) objs"

definition tracker_Get :: "fake_clientset \<Rightarrow> string \<Rightarrow> err + VSwitchConfig" where
  "tracker_Get s name =
     (case filterByName (fk_objects s) name of
        [] \<Rightarrow> Inl (NotFound name)
      | [obj] \<Rightarrow> Inr obj
      | _ \<Rightarrow> Inl (ApiError ''more than one object matched''))"

primrec replace_named :: "VSwitchConfig \<Rightarrow> VSwitchConfig list \<Rightarrow> VSwitchConfig list" where
  "replace_named obj [] = []"
| "replace_named obj (x # xs) = (if vs_Name x = vs_Name obj then obj # xs else x # replace_named obj xs)"

primrec remove_named :: "string \<Rightarrow> VSwitchConfig list \<Rightarrow> VSwitchConfig list" where
  "remove_named name [] = []"
| "remove_named name (x # xs) = (if vs_Name x = name then xs else x # remove_named name xs)"

definition tracker_add :: "bool \<Rightarrow> VSwitchConfig \<Rightarrow> fake_clientset \<Rightarrow> err option \<times> fake_clientset" where
  "tracker_add replaceExisting obj s =
     (case List.find (\<lambda>x. vs_Name x = vs_Name obj) (fk_objects s) of
        Some old \<Rightarrow>
          if replaceExisting
          then (None, (broadcast (Modified obj) s)\<lparr>fk_objects := replace_named obj (fk_objects s)\<rparr>)
          else (Some (ApiError ''already exists''), s)
      | None \<Rightarrow>
          if replaceExisting then (Some (NotFound (vs_Name obj)), s)
          else (None, broadcast (Added obj) (s\<lparr>fk_objects := fk_objects s @ [obj]\<rparr>)))"

definition tracker_Delete :: "string \<Rightarrow> fake_clientset \<Rightarrow> err option \<times> fake_clientset" where
  "tracker_Delete name s =
     (case List.find (\<lambda>x. vs_Name x = name) (fk_objects s) of
        None \<Rightarrow> (Some (NotFound name), s)
      | Some obj \<Rightarrow> (None, broadcast (Deleted obj) (s\<lparr>fk_objects := remove_named name (fk_objects s)\<rparr>)))"

section \<open>The reaction and the chain\<close>

datatype fake_obj = ConfigObj VSwitchConfig | ListObj VSwitchConfigList

type_synonym reaction = "bool \<times> fake_obj option \<times> err option"

definition found :: "err + VSwitchConfig \<Rightarrow> reaction" where
  "found r = (case r of Inl e \<Rightarrow> (True, None, Some e) | Inr obj \<Rightarrow> (True, Some (ConfigObj obj), None))"

definition ObjectReaction ::
  "(string \<Rightarrow> string \<Rightarrow> VSwitchConfig \<Rightarrow> err + VSwitchConfig) \<Rightarrow> fake_action \<Rightarrow> fake_clientset \<Rightarrow> reaction \<times> fake_clientset" where
  "ObjectReaction patch action s =
     (case action of
        ListAction opts \<Rightarrow> ((True, Some (ListObj (zero_list\<lparr>Items := filterByName (fk_objects s) ''''\<rparr>)), None), s)
      | GetAction name \<Rightarrow> (found (tracker_Get s name), s)
      | CreateAction obj \<Rightarrow>
          (case tracker_add False obj s of
             (Some e, s) \<Rightarrow> ((True, None, Some e), s)
           | (None, s) \<Rightarrow> (found (tracker_Get s (vs_Name obj)), s))
      | UpdateAction obj \<Rightarrow>
          (case tracker_add True obj s of
             (Some e, s) \<Rightarrow> ((True, None, Some e), s)
           | (None, s) \<Rightarrow> (found (tracker_Get s (vs_Name obj)), s))
      | DeleteAction name \<Rightarrow> (case tracker_Delete name s of (e, s) \<Rightarrow> ((True, None, e), s))
      | PatchAction name pt data sub \<Rightarrow>
          (case tracker_Get s name of
             Inl e \<Rightarrow> ((True, None, Some e), s)
           | Inr old \<Rightarrow>
               (case patch pt data old of
                  Inl e \<Rightarrow> ((True, None, Some e), s)
                | Inr obj \<Rightarrow>
                    (case tracker_add True obj s of
                       (Some e, s) \<Rightarrow> ((True, None, Some e), s)
                     | (None, s) \<Rightarrow> ((True, Some (ConfigObj obj), None), s))))
      | _ \<Rightarrow> ((False, None, Some (ErrorMsg ''no reaction implemented'')), s))"

text \<open>\<^verbatim>\<open>Invokes\<close> with the one reactor of \<^verbatim>\<open>NewSimpleClientset\<close>, which handles every verb and resource.\<close>

definition Invokes ::
  "(fake_action \<Rightarrow> fake_clientset \<Rightarrow> reaction \<times> fake_clientset) \<Rightarrow> fake_action \<Rightarrow> fake_obj \<Rightarrow> fake_clientset \<Rightarrow>
     (fake_obj option \<times> err option) \<times> fake_clientset" where
  "Invokes react action defaultReturnObj s =
     (let s = s\<lparr>fk_actions := fk_actions s @ [action]\<rparr> in
      case react action s of
        ((handled, ret, err), s) \<Rightarrow> if handled then ((ret, err), s) else ((Some defaultReturnObj, None), s))"

definition NewSimpleClientset :: "VSwitchConfig list \<Rightarrow> fake_clientset option" where
  "NewSimpleClientset objects =
     foreach (\<lambda>obj s. case tracker_add False obj s of (None, s) \<Rightarrow> Some s | (Some e, s) \<Rightarrow> None) objects
       \<lparr>fk_actions = [], fk_objects = [], fk_watchers = []\<rparr>"

section \<open>The fake client\<close>

definition as_config ::
  "(fake_obj option \<times> err option) \<times> fake_clientset \<Rightarrow> ((VSwitchConfig option \<times> err option) \<times> fake_clientset) option" where
  "as_config r =
     (case r of
        ((None, err), s) \<Rightarrow> Some ((None, err), s)
      | ((Some (ConfigObj obj), err), s) \<Rightarrow> Some ((Some obj, err), s)
      | ((Some (ListObj _), err), s) \<Rightarrow> None)"

definition fake_Get where
  "fake_Get react name s = as_config (Invokes react (GetAction name) (ConfigObj zero_config) s)"

definition fake_Create where
  "fake_Create react cfg s = as_config (Invokes react (CreateAction cfg) (ConfigObj zero_config) s)"

definition fake_Update where
  "fake_Update react cfg s = as_config (Invokes react (UpdateAction cfg) (ConfigObj zero_config) s)"

definition fake_Patch where
  "fake_Patch react name pt data subresources s =
     as_config (Invokes react (PatchAction name pt data (path_Join subresources)) (ConfigObj zero_config) s)"

definition fake_Delete ::
  "(fake_action \<Rightarrow> fake_clientset \<Rightarrow> reaction \<times> fake_clientset) \<Rightarrow> string \<Rightarrow> fake_clientset \<Rightarrow> err option \<times> fake_clientset" where
  "fake_Delete react name s =
     (case Invokes react (DeleteAction name) (ConfigObj zero_config) s of ((_, err), s) \<Rightarrow> (err, s))"

text \<open>\<open>extract\<close> is \<^verbatim>\<open>ExtractFromListOptions\<close>; \<^const>\<open>None\<close> is its panic on an invalid selector.\<close>

definition fake_DeleteCollection ::
  "(ListOptions \<Rightarrow> selector option) \<Rightarrow> (fake_action \<Rightarrow> fake_clientset \<Rightarrow> reaction \<times> fake_clientset) \<Rightarrow> ListOptions \<Rightarrow>
     fake_clientset \<Rightarrow> (err option \<times> fake_clientset) option" where
  "fake_DeleteCollection extract react listOptions s =
     (case extract listOptions of
        None \<Rightarrow> None
      | Some _ \<Rightarrow>
          (case Invokes react (DeleteCollectionAction listOptions) (ListObj zero_list) s of ((_, err), s) \<Rightarrow> Some (err, s)))"

definition fake_List ::
  "(ListOptions \<Rightarrow> selector option) \<Rightarrow> (fake_action \<Rightarrow> fake_clientset \<Rightarrow> reaction \<times> fake_clientset) \<Rightarrow> ListOptions \<Rightarrow>
     fake_clientset \<Rightarrow> ((VSwitchConfigList option \<times> err option) \<times> fake_clientset) option" where
  "fake_List extract react opts s =
     (case extract opts of
        None \<Rightarrow> None
      | Some label \<Rightarrow>
          (case Invokes react (ListAction opts) (ListObj zero_list) s of
             ((None, err), s) \<Rightarrow> Some ((None, err), s)
           | ((Some (ConfigObj _), err), s) \<Rightarrow> None
           | ((Some (ListObj l), err), s) \<Rightarrow>
               Some ((Some (l\<lparr>Items := filter (\<lambda>item. Selector_Matches label (vs_Labels item)) (Items l)\<rparr>), err), s)))"

text \<open>A watch adds a watcher, whose position is its handle.\<close>

definition fake_Watch ::
  "(ListOptions \<Rightarrow> selector option) \<Rightarrow> ListOptions \<Rightarrow> fake_clientset \<Rightarrow> (nat \<times> fake_clientset) option" where
  "fake_Watch extract opts s =
     (case extract opts of
        None \<Rightarrow> None
      | Some _ \<Rightarrow> Some (length (fk_watchers s), s\<lparr>fk_actions := fk_actions s @ [WatchAction opts], fk_watchers := fk_watchers s @ [[]]\<rparr>))"

section \<open>The store the tracker is\<close>

definition fake_ok :: "fake_clientset \<Rightarrow> bool" where
  "fake_ok s \<longleftrightarrow> distinct (map vs_Name (fk_objects s))"

definition stored_config :: "fake_clientset \<Rightarrow> string \<Rightarrow> VSwitchConfig option" where
  "stored_config s name = List.find (\<lambda>x. vs_Name x = name) (fk_objects s)"

lemma find_append: "List.find P (xs @ ys) = (case List.find P xs of None \<Rightarrow> List.find P ys | Some x \<Rightarrow> Some x)"
  by (induction xs) simp_all

lemma find_replace_named:
  assumes "List.find (\<lambda>x. vs_Name x = vs_Name obj) xs \<noteq> None"
  shows "List.find (\<lambda>x. vs_Name x = n) (replace_named obj xs) =
    (if n = vs_Name obj then Some obj else List.find (\<lambda>x. vs_Name x = n) xs)"
  using assms by (induction xs) auto

lemma names_replace [simp]: "map vs_Name (replace_named obj xs) = map vs_Name xs"
  by (induction xs) auto

lemma set_remove: "set (remove_named name xs) \<subseteq> set xs"
  by (induction xs) auto

lemma remove_named_distinct:
  assumes "distinct (map vs_Name xs)"
  shows "distinct (map vs_Name (remove_named name xs))"
    and "List.find (\<lambda>x. vs_Name x = n) (remove_named name xs) = (if n = name then None else List.find (\<lambda>x. vs_Name x = n) xs)"
proof -
  show "distinct (map vs_Name (remove_named name xs))"
    using assms by (induction xs) (auto dest: subsetD [OF set_remove])
  show "List.find (\<lambda>x. vs_Name x = n) (remove_named name xs) = (if n = name then None else List.find (\<lambda>x. vs_Name x = n) xs)"
    using assms by (induction xs) (auto simp: find_None_iff image_iff)
qed

lemma find_no_name: "n \<notin> vs_Name ` set xs \<Longrightarrow> List.find (\<lambda>x. vs_Name x = n) xs = None"
  by (auto simp: find_None_iff)

lemma filterByName_find:
  assumes "distinct (map vs_Name xs)" and "n \<noteq> ''''"
  shows "filterByName xs n = (case List.find (\<lambda>x. vs_Name x = n) xs of None \<Rightarrow> [] | Some x \<Rightarrow> [x])"
  using assms by (induction xs) (auto simp: filterByName_def find_no_name)

lemma tracker_Get_stored:
  assumes "fake_ok s" and "n \<noteq> ''''"
  shows "tracker_Get s n = (case stored_config s n of None \<Rightarrow> Inl (NotFound n) | Some c \<Rightarrow> Inr c)"
  using filterByName_find [of "fk_objects s" n] assms
  by (simp add: tracker_Get_def stored_config_def fake_ok_def split: option.split)

lemma stored_fields [simp]:
  "stored_config (s\<lparr>fk_actions := a\<rparr>) = stored_config s" "stored_config (broadcast e s) = stored_config s"
  "fake_ok (s\<lparr>fk_actions := a\<rparr>) = fake_ok s" "fake_ok (broadcast e s) = fake_ok s"
  "fk_objects (broadcast e s) = fk_objects s"
  by (auto simp: stored_config_def fake_ok_def broadcast_def)

lemma tracker_add_new:
  assumes "fake_ok s" and "stored_config s (vs_Name c) = None"
  shows "\<exists>s'. tracker_add False c s = (None, s') \<and> fake_ok s' \<and> stored_config s' = (stored_config s)(vs_Name c \<mapsto> c)"
proof -
  have "vs_Name c \<notin> vs_Name ` set (fk_objects s)"
    using assms(2) by (auto simp: stored_config_def find_None_iff)
  with assms show ?thesis
    by (auto simp: tracker_add_def stored_config_def fake_ok_def broadcast_def find_append fun_eq_iff split: option.split)
qed

lemma tracker_add_known:
  assumes "fake_ok s" and "stored_config s (vs_Name c) \<noteq> None"
  shows "\<exists>s'. tracker_add True c s = (None, s') \<and> fake_ok s' \<and> stored_config s' = (stored_config s)(vs_Name c \<mapsto> c)"
  using assms find_replace_named [of c "fk_objects s"]
  by (auto simp: tracker_add_def stored_config_def fake_ok_def broadcast_def fun_eq_iff)

lemma tracker_Delete_stored:
  assumes "fake_ok s"
  shows "\<exists>s'. tracker_Delete n s = (if stored_config s n = None then Some (NotFound n) else None, s') \<and> fake_ok s' \<and>
    stored_config s' = (stored_config s)(n := None)"
proof (cases "stored_config s n")
  case None
  then show ?thesis using assms by (auto simp: tracker_Delete_def stored_config_def fun_eq_iff)
next
  case (Some obj)
  then show ?thesis
    using assms remove_named_distinct [of "fk_objects s"]
    by (auto simp: tracker_Delete_def stored_config_def fake_ok_def broadcast_def fun_eq_iff)
qed

section \<open>The contract of the API\<close>

type_synonym 's config_op = "VSwitchConfig \<Rightarrow> 's \<Rightarrow> ((VSwitchConfig option \<times> err option) \<times> 's) option"

text \<open>A request of the controller, on the state of the API.\<close>

definition perform_request ::
  "'s config_op \<Rightarrow> 's config_op \<Rightarrow> (string \<Rightarrow> 's \<Rightarrow> err option \<times> 's) \<Rightarrow> request \<Rightarrow> 's \<Rightarrow> (err option \<times> 's) option" where
  "perform_request create update delete req s =
     (case req of
        Create cfg \<Rightarrow> (case create cfg s of None \<Rightarrow> None | Some ((_, err), s') \<Rightarrow> Some (err, s'))
      | Update cfg \<Rightarrow> (case update cfg s of None \<Rightarrow> None | Some ((_, err), s') \<Rightarrow> Some (err, s'))
      | Delete name \<Rightarrow> Some (delete name s))"

text \<open>A handler of the controller on the state of the API: the requests it makes, performed in order.\<close>

definition run_requests ::
  "'s config_op \<Rightarrow> 's config_op \<Rightarrow> (string \<Rightarrow> 's \<Rightarrow> err option \<times> 's) \<Rightarrow> (api \<Rightarrow> request list option) \<Rightarrow> 's \<Rightarrow> 's option" where
  "run_requests create update delete handler s =
     (case handler (\<lambda>req. case perform_request create update delete req s of None \<Rightarrow> None | Some (err, _) \<Rightarrow> err) of
        None \<Rightarrow> None
      | Some reqs \<Rightarrow> foreach (\<lambda>req s. map_option snd (perform_request create update delete req s)) reqs s)"

locale config_store =
  fixes get :: "string \<Rightarrow> 's \<Rightarrow> ((VSwitchConfig option \<times> err option) \<times> 's) option"
    and create update :: "'s config_op"
    and delete :: "string \<Rightarrow> 's \<Rightarrow> err option \<times> 's"
    and ok :: "'s \<Rightarrow> bool"
    and stored :: "'s \<Rightarrow> string \<Rightarrow> VSwitchConfig option"
  assumes get_stored: "ok s \<Longrightarrow> n \<noteq> '''' \<Longrightarrow> \<exists>s'. ok s' \<and> stored s' = stored s \<and>
      get n s = Some (case stored s n of None \<Rightarrow> ((None, Some (NotFound n)), s') | Some c \<Rightarrow> ((Some c, None), s'))"
    and create_new: "ok s \<Longrightarrow> vs_Name c \<noteq> '''' \<Longrightarrow> stored s (vs_Name c) = None \<Longrightarrow>
      \<exists>s'. create c s = Some ((Some c, None), s') \<and> ok s' \<and> stored s' = (stored s)(vs_Name c \<mapsto> c)"
    and update_known: "ok s \<Longrightarrow> vs_Name c \<noteq> '''' \<Longrightarrow> stored s (vs_Name c) \<noteq> None \<Longrightarrow>
      \<exists>s'. update c s = Some ((Some c, None), s') \<and> ok s' \<and> stored s' = (stored s)(vs_Name c \<mapsto> c)"
    and delete_stored: "ok s \<Longrightarrow>
      \<exists>s'. delete n s = (if stored s n = None then Some (NotFound n) else None, s') \<and> ok s' \<and>
        stored s' = (stored s)(n := None)"
begin

text \<open>A cache that has caught up with the API.\<close>

definition synced :: "VSwitchConfig list \<Rightarrow> 's \<Rightarrow> bool" where
  "synced items s \<longleftrightarrow>
     (\<forall>n. vswitchLister_Get items n = (case stored s n of None \<Rightarrow> Inl (NotFound n) | Some c \<Rightarrow> Inr c))"

lemma perform_write:
  assumes "ok s" and "written_config req = Some cfg" and "vs_Name cfg \<noteq> ''''"
    and "case req of Create c \<Rightarrow> stored s (vs_Name c) = None | Update c \<Rightarrow> stored s (vs_Name c) \<noteq> None | Delete n \<Rightarrow> True"
  shows "\<exists>s'. perform_request create update delete req s = Some (None, s') \<and> ok s' \<and>
    stored s' = (stored s)(vs_Name cfg \<mapsto> cfg)"
proof (cases req)
  case (Create c)
  with assms create_new [of s c] show ?thesis by (auto simp: perform_request_def)
next
  case (Update c)
  with assms update_known [of s c] show ?thesis by (auto simp: perform_request_def)
qed (use assms(2) in simp)

lemma OnAdd_writes:
  assumes "ok s" and "synced items s" and "node_Name node \<noteq> ''''"
    and "nodeOverlayIP node = Inr oip" and "nodePodCIDR node = Inr pc"
    and "\<nexists>cfg. stored s (node_Name node) = Some cfg \<and> up_to_date v node cfg"
  shows "\<exists>s' cfg. run_requests create update delete (\<lambda>api. VS_OnAdd v (vswitchLister_Get items) api (NodeObj node)) s = Some s' \<and>
    ok s' \<and> stored s' = (stored s)(node_Name node \<mapsto> cfg) \<and> up_to_date v node cfg \<and> ServiceCIDR (Spec cfg) = vc_serviceCIDR v"
proof -
  let ?get = "vswitchLister_Get items" and ?api = "\<lambda>req. case perform_request create update delete req s of None \<Rightarrow> None | Some (err, _) \<Rightarrow> err"
  have get: "?get (node_Name node) = (case stored s (node_Name node) of None \<Rightarrow> Inl (NotFound (node_Name node)) | Some c \<Rightarrow> Inr c)"
    using assms(2) by (simp add: synced_def)
  have "case ?get (node_Name node) of Inl e \<Rightarrow> IsNotFound e | Inr cfg \<Rightarrow> \<not> up_to_date v node cfg"
    unfolding get using assms(6) by (auto simp: IsNotFound_def split: option.split)
  from vlist.outdated_sync [OF assms(4,5) this, of ?api] obtain req cfg where
    r: "VS_OnAdd v ?get ?api (NodeObj node) = Some [req]" "written_config req = Some cfg" "up_to_date v node cfg"
    "ServiceCIDR (Spec cfg) = vc_serviceCIDR v" by blast
  have name: "vs_Name cfg = node_Name node" using r(3) by (simp add: up_to_date_def)
  have "case req of Create c \<Rightarrow> stored s (vs_Name c) = None | Update c \<Rightarrow> stored s (vs_Name c) \<noteq> None | Delete n \<Rightarrow> True"
    using OnAdd_create_or_update [OF r(1)] r(2) name unfolding get by (auto split: option.split_asm)
  from perform_write [OF assms(1) r(2) _ this] name assms(3) obtain s' where
    "perform_request create update delete req s = Some (None, s')" "ok s'" "stored s' = (stored s)(node_Name node \<mapsto> cfg)" by auto
  with r show ?thesis by (intro exI [of _ s'] exI [of _ cfg]) (simp add: run_requests_def)
qed

text \<open>Whatever was stored, the handler leaves the right configuration, and a second run changes nothing.\<close>

lemma OnAdd_settles:
  assumes "ok s" and "synced items s" and "node_Name node \<noteq> ''''"
    and "nodeOverlayIP node = Inr oip" and "nodePodCIDR node = Inr pc"
  shows "\<exists>s' cfg. run_requests create update delete (\<lambda>api. VS_OnAdd v (vswitchLister_Get items) api (NodeObj node)) s = Some s' \<and>
    ok s' \<and> stored s' = (stored s)(node_Name node \<mapsto> cfg) \<and> up_to_date v node cfg \<and>
    (\<forall>items'. synced items' s' \<longrightarrow>
      run_requests create update delete (\<lambda>api. VS_OnAdd v (vswitchLister_Get items') api (NodeObj node)) s' = Some s')"
proof -
  have again: "run_requests create update delete (\<lambda>api. VS_OnAdd v (vswitchLister_Get items) api (NodeObj node)) s = Some s"
    if "synced items s" "stored s (node_Name node) = Some cfg" "up_to_date v node cfg" for items s cfg
  proof -
    have "vswitchLister_Get items (node_Name node) = Inr cfg" using that by (simp add: synced_def)
    from up_to_date_quiet [of "vswitchLister_Get items", OF this that(3)] show ?thesis by (simp add: run_requests_def)
  qed
  show ?thesis
  proof (cases "\<exists>cfg. stored s (node_Name node) = Some cfg \<and> up_to_date v node cfg")
    case True
    then obtain cfg where cfg: "stored s (node_Name node) = Some cfg" "up_to_date v node cfg" by blast
    then have "stored s = (stored s)(node_Name node \<mapsto> cfg)" by (simp add: fun_upd_idem)
    with again [OF _ cfg] assms(1,2) cfg show ?thesis by metis
  next
    case False
    from OnAdd_writes [OF assms this] obtain s' cfg where
      w: "run_requests create update delete (\<lambda>api. VS_OnAdd v (vswitchLister_Get items) api (NodeObj node)) s = Some s'"
      "ok s'" "stored s' = (stored s)(node_Name node \<mapsto> cfg)" "up_to_date v node cfg" by blast
    with again [of _ s' cfg] show ?thesis by (intro exI [of _ s'] exI [of _ cfg]) simp
  qed
qed

lemma OnDelete_removes:
  assumes "ok s"
  shows "\<exists>s'. run_requests create update delete (\<lambda>api. VS_OnDelete api (NodeObj node)) s = Some s' \<and> ok s' \<and>
    stored s' = (stored s)(node_Name node := None)"
  using delete_stored [OF assms, of "node_Name node"]
  by (auto simp: run_requests_def VS_OnDelete_def perform_request_def)

end

section \<open>The fake client provides it\<close>

lemma Invokes_record:
  "Invokes react action z s = (case react action (s\<lparr>fk_actions := fk_actions s @ [action]\<rparr>) of
     ((handled, ret, err), s) \<Rightarrow> if handled then ((ret, err), s) else ((Some z, None), s))"
  by (simp add: Invokes_def)

lemma fake_Get_store:
  assumes "fake_ok s" and "n \<noteq> ''''"
  shows "\<exists>s'. fake_ok s' \<and> stored_config s' = stored_config s \<and>
    fake_Get (ObjectReaction patch) n s =
      Some (case stored_config s n of None \<Rightarrow> ((None, Some (NotFound n)), s') | Some c \<Rightarrow> ((Some c, None), s'))"
proof -
  let ?s = "s\<lparr>fk_actions := fk_actions s @ [GetAction n]\<rparr>"
  have "tracker_Get ?s n = (case stored_config s n of None \<Rightarrow> Inl (NotFound n) | Some c \<Rightarrow> Inr c)"
    using tracker_Get_stored [of ?s n] assms by simp
  then show ?thesis using assms(1)
    by (intro exI [of _ ?s]) (auto simp: fake_Get_def Invokes_record ObjectReaction_def found_def as_config_def split: option.split)
qed

lemma fake_write_store:
  assumes "fake_ok s" and "vs_Name c \<noteq> ''''"
  shows "stored_config s (vs_Name c) = None \<Longrightarrow> \<exists>s'. fake_Create (ObjectReaction patch) c s = Some ((Some c, None), s') \<and>
      fake_ok s' \<and> stored_config s' = (stored_config s)(vs_Name c \<mapsto> c)"
    and "stored_config s (vs_Name c) \<noteq> None \<Longrightarrow> \<exists>s'. fake_Update (ObjectReaction patch) c s = Some ((Some c, None), s') \<and>
      fake_ok s' \<and> stored_config s' = (stored_config s)(vs_Name c \<mapsto> c)"
proof -
  show "\<exists>s'. fake_Create (ObjectReaction patch) c s = Some ((Some c, None), s') \<and>
      fake_ok s' \<and> stored_config s' = (stored_config s)(vs_Name c \<mapsto> c)" if "stored_config s (vs_Name c) = None"
  proof -
    let ?s = "s\<lparr>fk_actions := fk_actions s @ [CreateAction c]\<rparr>"
    from tracker_add_new [of ?s c] assms(1) that obtain s' where
      "tracker_add False c ?s = (None, s')" "fake_ok s'" "stored_config s' = (stored_config s)(vs_Name c \<mapsto> c)" by auto
    with tracker_Get_stored [of s' "vs_Name c"] assms(2) show ?thesis
      by (intro exI [of _ s']) (simp add: fake_Create_def Invokes_record ObjectReaction_def found_def as_config_def)
  qed
  show "\<exists>s'. fake_Update (ObjectReaction patch) c s = Some ((Some c, None), s') \<and>
      fake_ok s' \<and> stored_config s' = (stored_config s)(vs_Name c \<mapsto> c)" if "stored_config s (vs_Name c) \<noteq> None"
  proof -
    let ?s = "s\<lparr>fk_actions := fk_actions s @ [UpdateAction c]\<rparr>"
    from tracker_add_known [of ?s c] assms(1) that obtain s' where
      "tracker_add True c ?s = (None, s')" "fake_ok s'" "stored_config s' = (stored_config s)(vs_Name c \<mapsto> c)" by auto
    with tracker_Get_stored [of s' "vs_Name c"] assms(2) show ?thesis
      by (intro exI [of _ s']) (simp add: fake_Update_def Invokes_record ObjectReaction_def found_def as_config_def)
  qed
qed

lemma fake_Delete_store:
  assumes "fake_ok s"
  shows "\<exists>s'. fake_Delete (ObjectReaction patch) n s = (if stored_config s n = None then Some (NotFound n) else None, s') \<and>
    fake_ok s' \<and> stored_config s' = (stored_config s)(n := None)"
  using tracker_Delete_stored [of "s\<lparr>fk_actions := fk_actions s @ [DeleteAction n]\<rparr>" n] assms
  by (auto simp: fake_Delete_def Invokes_record ObjectReaction_def)

interpretation fake: config_store "fake_Get (ObjectReaction patch)" "fake_Create (ObjectReaction patch)"
  "fake_Update (ObjectReaction patch)" "fake_Delete (ObjectReaction patch)" fake_ok stored_config for patch
  by unfold_locales (simp_all add: fake_Get_store fake_write_store fake_Delete_store)

text \<open>An informer's cache that has caught up holds the tracker's objects.\<close>

lemma synced_objects: "fake.synced (fk_objects s) s"
  by (simp add: fake.synced_def vswitchLister_Get_def stored_config_def)

text \<open>The controller's handlers on the fake client, with a cache that has caught up.\<close>

definition fake_OnAdd where
  "fake_OnAdd patch v node s =
     run_requests (fake_Create (ObjectReaction patch)) (fake_Update (ObjectReaction patch)) (fake_Delete (ObjectReaction patch))
       (\<lambda>api. VS_OnAdd v (vswitchLister_Get (fk_objects s)) api (NodeObj node)) s"

definition fake_OnDelete where
  "fake_OnDelete patch node s =
     run_requests (fake_Create (ObjectReaction patch)) (fake_Update (ObjectReaction patch)) (fake_Delete (ObjectReaction patch))
       (\<lambda>api. VS_OnDelete api (NodeObj node)) s"

section \<open>Watchers\<close>

fun apply_event :: "watch_event \<Rightarrow> VSwitchConfig list \<Rightarrow> VSwitchConfig list" where
  "apply_event (Added c) xs = xs @ [c]"
| "apply_event (Modified c) xs = replace_named c xs"
| "apply_event (Deleted c) xs = remove_named (vs_Name c) xs"

definition replayed :: "fake_clientset \<Rightarrow> fake_clientset \<Rightarrow> bool" where
  "replayed s s' \<longleftrightarrow> (\<exists>es. fk_watchers s' = map (\<lambda>w. w @ es) (fk_watchers s) \<and> fk_objects s' = fold apply_event es (fk_objects s))"

lemma replayed_none: "fk_watchers s' = fk_watchers s \<Longrightarrow> fk_objects s' = fk_objects s \<Longrightarrow> replayed s s'"
  unfolding replayed_def by (intro exI [of _ "[]"]) simp

lemma replayed_one:
  "fk_watchers s' = map (\<lambda>w. w @ [e]) (fk_watchers s) \<Longrightarrow> fk_objects s' = apply_event e (fk_objects s) \<Longrightarrow> replayed s s'"
  unfolding replayed_def by (intro exI [of _ "[e]"]) simp

lemma replayed_add: "tracker_add r c s = (err, s') \<Longrightarrow> replayed s s'"
  by (auto simp: tracker_add_def broadcast_def split: option.split_asm if_split_asm
      intro: replayed_none replayed_one [where e = "Added c"] replayed_one [where e = "Modified c"])

lemma replayed_Delete: "tracker_Delete n s = (err, s') \<Longrightarrow> replayed s s'"
  by (auto simp: tracker_Delete_def broadcast_def find_Some_iff split: option.split_asm
      intro: replayed_none replayed_one [where e = "Deleted obj" for obj])

text \<open>A watcher's events are the changes since it was made, whatever the client is asked to do.\<close>

lemma watchers_replay: "replayed s (snd (Invokes (ObjectReaction patch) action z s))"
proof -
  let ?s = "s\<lparr>fk_actions := fk_actions s @ [action]\<rparr>"
  have "replayed ?s (snd (ObjectReaction patch action ?s))"
    by (auto simp: ObjectReaction_def intro: replayed_none dest: replayed_add replayed_Delete
        split: fake_action.split prod.split option.split sum.split)
  then show ?thesis by (auto simp: Invokes_record replayed_def split: prod.split)
qed

end
