(* ===== verification/VSwitchInformer.thy ===== *)
theory VSwitchInformer
  imports InformerFactory FakeClient
begin

text \<open>
  The generated informer of the resource: \<^verbatim>\<open>informers/externalversions/kvswitch\<close> and \<^verbatim>\<open>generic.go\<close> below
  \<^verbatim>\<open>apis/generated\<close>.  The group and version accessors carry the factory's namespace and tweak; the factory itself is
  the state.  The client is a parameter: the server it talks to, and its REST client.

  \<open>one_informer\<close>: all ways to ask a factory for the informer give the same one.  \<open>factory_inv\<close>: no informer is run twice,
  however often a factory is started.
\<close>

section \<open>The informer\<close>

record 'w shared_informer =
  ListFunc :: "ListOptions \<Rightarrow> (VSwitchConfigList \<times> err option) \<times> http_request list"
  WatchFunc :: "ListOptions \<Rightarrow> (err + 'w) \<times> http_request list"
  resyncPeriod :: int
  inf_indexers :: "string list"

record 'w versioned_client =
  vcl_list :: "http_request \<Rightarrow> err + VSwitchConfigList"
  vcl_watch :: "http_request \<Rightarrow> err + 'w"
  vcl_rest :: RESTClient

definition tweaked :: "(ListOptions \<Rightarrow> ListOptions) option \<Rightarrow> ListOptions \<Rightarrow> ListOptions" where
  "tweaked tweak options = (case tweak of None \<Rightarrow> options | Some t \<Rightarrow> t options)"

definition NewFilteredVSwitchConfigInformer ::
  "'w versioned_client \<Rightarrow> int \<Rightarrow> string list \<Rightarrow> (ListOptions \<Rightarrow> ListOptions) option \<Rightarrow> 'w shared_informer" where
  "NewFilteredVSwitchConfigInformer client resync indexers tweak =
     \<lparr>ListFunc = (\<lambda>options. client_List (vcl_list client) (vcl_rest client) (tweaked tweak options)),
      WatchFunc = (\<lambda>options. client_Watch (vcl_watch client) (vcl_rest client) (tweaked tweak options)),
      resyncPeriod = resync, inf_indexers = indexers\<rparr>"

definition NewVSwitchConfigInformer :: "'w versioned_client \<Rightarrow> int \<Rightarrow> string list \<Rightarrow> 'w shared_informer" where
  "NewVSwitchConfigInformer client resync indexers = NewFilteredVSwitchConfigInformer client resync indexers None"

section \<open>Group, version, resource\<close>

record group =
  gr_namespace :: string
  gr_tweakListOptions :: "(ListOptions \<Rightarrow> ListOptions) option"

record version =
  ve_namespace :: string
  ve_tweakListOptions :: "(ListOptions \<Rightarrow> ListOptions) option"

record vSwitchConfigInformer =
  vci_tweakListOptions :: "(ListOptions \<Rightarrow> ListOptions) option"

definition Kvswitch :: "'i factory \<Rightarrow> group" where
  "Kvswitch f = \<lparr>gr_namespace = namespace f, gr_tweakListOptions = tweakListOptions f\<rparr>"

definition V1alpha1 :: "group \<Rightarrow> version" where
  "V1alpha1 g = \<lparr>ve_namespace = gr_namespace g, ve_tweakListOptions = gr_tweakListOptions g\<rparr>"

definition VSwitchConfigs :: "version \<Rightarrow> vSwitchConfigInformer" where
  "VSwitchConfigs v = \<lparr>vci_tweakListOptions = ve_tweakListOptions v\<rparr>"

definition defaultInformer :: "vSwitchConfigInformer \<Rightarrow> 'w versioned_client \<Rightarrow> int \<Rightarrow> 'w shared_informer" where
  "defaultInformer i client resync =
     NewFilteredVSwitchConfigInformer client resync [''namespace''] (vci_tweakListOptions i)"

definition Informer ::
  "vSwitchConfigInformer \<Rightarrow> 'w versioned_client \<Rightarrow> 'w shared_informer factory \<Rightarrow>
     'w shared_informer \<times> 'w shared_informer factory" where
  "Informer i client f = InformerFor ''VSwitchConfig'' (defaultInformer i client) f"

definition factory_informer ::
  "'w versioned_client \<Rightarrow> 'w shared_informer factory \<Rightarrow> 'w shared_informer \<times> 'w shared_informer factory" where
  "factory_informer client f = Informer (VSwitchConfigs (V1alpha1 (Kvswitch f))) client f"

text \<open>A generic informer is its informer and the resource its lister is for.\<close>

definition ForResource ::
  "'w versioned_client \<Rightarrow> string \<times> string \<times> string \<Rightarrow> 'w shared_informer factory \<Rightarrow>
     err + (('w shared_informer \<times> string \<times> string) \<times> 'w shared_informer factory)" where
  "ForResource client resource f =
     (if resource = (fst SchemeGroupVersion, snd SchemeGroupVersion, ''vswitchconfigs'') then
        (let (informer, f) = factory_informer client f
         in Inr ((informer, fst resource, snd (snd resource)), f))
      else Inl (ErrorMsg ''no informer found''))"

section \<open>One informer per factory\<close>

lemma InformerFor_fields [simp]:
  "namespace (snd (InformerFor t new f)) = namespace f" "tweakListOptions (snd (InformerFor t new f)) = tweakListOptions f"
  "customResync (snd (InformerFor t new f)) = customResync f" "defaultResync (snd (InformerFor t new f)) = defaultResync f"
  by (simp_all add: InformerFor_def Let_def split: option.split)

lemma one_informer:
  assumes "factory_informer client f = (i, f')"
  shows "factory_informer client' f' = (i, f')"
    and "ForResource client' (''kvswitch.io'', ''v1alpha1'', ''vswitchconfigs'') f' =
      Inr ((i, ''kvswitch.io'', ''vswitchconfigs''), f')"
proof -
  show known: "factory_informer client' f' = (i, f')"
    using assms unfolding factory_informer_def Informer_def by (rule InformerFor_known)
  then show "ForResource client' (''kvswitch.io'', ''v1alpha1'', ''vswitchconfigs'') f' =
      Inr ((i, ''kvswitch.io'', ''vswitchconfigs''), f')"
    by (simp add: ForResource_def SchemeGroupVersion_def)
qed

text \<open>The informer of a new factory lists and watches the collection, with the factory's tweak of the options.\<close>

definition new_factory :: "'i factory \<Rightarrow> bool" where
  "new_factory f \<longleftrightarrow> informers f = [] \<and> startedInformers f = []"

lemma factory_informer_new:
  assumes "informers f = []"
  shows "fst (factory_informer client f) = NewFilteredVSwitchConfigInformer client
    (case map_of (customResync f) ''VSwitchConfig'' of None \<Rightarrow> defaultResync f | Some p \<Rightarrow> p) [''namespace''] (tweakListOptions f)"
  using assms
  by (simp add: factory_informer_def Informer_def InformerFor_def defaultInformer_def Kvswitch_def V1alpha1_def
      VSwitchConfigs_def Let_def)

lemma informer_requests:
  assumes "client_at xs (vcl_rest client)"
  shows "sends (snd (ListFunc (NewFilteredVSwitchConfigInformer client r ix tweak) opts)) ''GET'' (collection_path xs) None"
    and "sends (snd (WatchFunc (NewFilteredVSwitchConfigInformer client r ix tweak) opts)) ''GET'' (collection_path xs) None"
  using collection_paths(1,2) [OF assms] by (simp_all add: NewFilteredVSwitchConfigInformer_def)

section \<open>Informers are run once\<close>

text \<open>What may happen to a factory, and the informers that have been run.\<close>

inductive factory_run :: "'i factory \<Rightarrow> string list \<Rightarrow> bool" where
  run_new: "informers f = [] \<Longrightarrow> startedInformers f = [] \<Longrightarrow> factory_run f []"
| run_ask: "factory_run f started \<Longrightarrow> InformerFor t new f = (i, f') \<Longrightarrow> factory_run f' started"
| run_start: "factory_run f started \<Longrightarrow> Start f = (run, f') \<Longrightarrow> factory_run f' (started @ run)"

lemma factory_inv:
  "factory_run f started \<Longrightarrow> distinct (map fst (informers f)) \<and> startedInformers f = started \<and> distinct started \<and>
     set started \<subseteq> fst ` set (informers f)"
proof (induction rule: factory_run.induct)
  case (run_ask f started t new i f')
  then show ?case
    by (auto simp: InformerFor_def Let_def map_of_eq_None_iff split: option.split_asm)
next
  case (run_start f started run f')
  then have "run = filter (\<lambda>t. t \<notin> set started) (map fst (informers f))" "f' = f\<lparr>startedInformers := started @ run\<rparr>"
    by (auto simp: Start_def Let_def)
  with run_start.IH show ?case by (auto intro: distinct_filter)
qed simp

end
