(* ===== verification/DeepCopy.thy ===== *)
theory DeepCopy
  imports VSwitchCfg "HOL-Library.Sublist"
begin

text \<open>
  \<^verbatim>\<open>apis/kvswitch/v1alpha1/zz_generated.deepcopy.go\<close> with the vendored \<^verbatim>\<open>ObjectMeta.DeepCopyInto\<close>, on an explicit store:
  an informer's cache hands out pointers into itself, and \<^verbatim>\<open>syncVSwitchConfig\<close> must not write through them.

  A heap is a list of cells, an address its position, \<^verbatim>\<open>new\<close> and \<^verbatim>\<open>make\<close> append.  A map, an object and a list of objects
  are a cell each; what lies below one of the other references of \<^verbatim>\<open>ObjectMeta\<close> (times, owners, initializers,
  finalizers, managed fields) is one cell, copied as a whole.  Reading through a dangling pointer is \<^const>\<open>None\<close>.

  \<open>DeepCopy_fresh\<close>: a copy has the value of the original, shares nothing with the heap before it, and leaves that as it
  was.  \<open>heap_sync_refines\<close>: on the heap the controller makes the requests of \<^verbatim>\<open>VSwitchCfg\<close>, and the cache is untouched.
\<close>

section \<open>The store\<close>

type_synonym addr = nat

record ObjectMeta =
  om_Name :: string
  om_GenerateName :: string
  om_Namespace :: string
  om_SelfLink :: string
  om_UID :: string
  om_ResourceVersion :: string
  om_Generation :: int
  om_CreationTimestamp :: int
  om_ClusterName :: string
  om_DeletionTimestamp :: "addr option"
  om_DeletionGracePeriodSeconds :: "addr option"
  om_Labels :: "addr option"
  om_Annotations :: "addr option"
  om_OwnerReferences :: "addr option"
  om_Initializers :: "addr option"
  om_Finalizers :: "addr option"
  om_ManagedFields :: "addr option"

record config_obj =
  co_Kind :: string
  co_APIVersion :: string
  co_Meta :: ObjectMeta
  co_Spec :: VSwitchConfigSpec

record list_obj =
  lo_Kind :: string
  lo_APIVersion :: string
  lo_ListMeta :: "string \<times> string \<times> string"
  lo_Items :: "addr option"

datatype 'r cell =
    StrMapCell labels
  | ConfigCell config_obj
  | SpecCell VSwitchConfigSpec
  | ItemsCell "config_obj list"
  | ListCell list_obj
  | OtherCell 'r

type_synonym 'r heap = "'r cell list"

definition deref :: "'r heap \<Rightarrow> addr \<Rightarrow> 'r cell option" where
  "deref h a = (if a < length h then Some (h ! a) else None)"

definition alloc :: "'r cell \<Rightarrow> 'r heap \<Rightarrow> addr \<times> 'r heap" where
  "alloc c h = (length h, h @ [c])"

section \<open>Deep copies\<close>

text \<open>A reference field: nil stays nil, anything else is copied to a new cell.\<close>

definition copy_ref :: "addr option \<Rightarrow> 'r heap \<Rightarrow> (addr option \<times> 'r heap) option" where
  "copy_ref r h =
     (case r of
        None \<Rightarrow> Some (None, h)
      | Some a \<Rightarrow> do { c \<leftarrow> deref h a; let (b, h) = alloc c h; Some (Some b, h) })"

definition ObjectMeta_DeepCopyInto :: "ObjectMeta \<Rightarrow> 'r heap \<Rightarrow> (ObjectMeta \<times> 'r heap) option" where
  "ObjectMeta_DeepCopyInto m h =
     do { (deletion, h) \<leftarrow> copy_ref (om_DeletionTimestamp m) h;
       (grace, h) \<leftarrow> copy_ref (om_DeletionGracePeriodSeconds m) h;
       (labels, h) \<leftarrow> copy_ref (om_Labels m) h;
       (annotations, h) \<leftarrow> copy_ref (om_Annotations m) h;
       (owners, h) \<leftarrow> copy_ref (om_OwnerReferences m) h;
       (initializers, h) \<leftarrow> copy_ref (om_Initializers m) h;
       (finalizers, h) \<leftarrow> copy_ref (om_Finalizers m) h;
       (managed, h) \<leftarrow> copy_ref (om_ManagedFields m) h;
       Some (m\<lparr>om_DeletionTimestamp := deletion, om_DeletionGracePeriodSeconds := grace, om_Labels := labels,
               om_Annotations := annotations, om_OwnerReferences := owners, om_Initializers := initializers,
               om_Finalizers := finalizers, om_ManagedFields := managed\<rparr>, h) }"

definition VSwitchConfig_DeepCopyInto :: "config_obj \<Rightarrow> 'r heap \<Rightarrow> (config_obj \<times> 'r heap) option" where
  "VSwitchConfig_DeepCopyInto obj h =
     do { (meta, h) \<leftarrow> ObjectMeta_DeepCopyInto (co_Meta obj) h; Some (obj\<lparr>co_Meta := meta\<rparr>, h) }"

definition zero_meta :: ObjectMeta where
  "zero_meta = \<lparr>om_Name = '''', om_GenerateName = '''', om_Namespace = '''', om_SelfLink = '''', om_UID = '''',
     om_ResourceVersion = '''', om_Generation = 0, om_CreationTimestamp = 0, om_ClusterName = '''',
     om_DeletionTimestamp = None, om_DeletionGracePeriodSeconds = None, om_Labels = None, om_Annotations = None,
     om_OwnerReferences = None, om_Initializers = None, om_Finalizers = None, om_ManagedFields = None\<rparr>"

definition zero_spec :: VSwitchConfigSpec where
  "zero_spec = \<lparr>PodCIDR = '''', ClusterCIDR = '''', ServiceCIDR = '''', OverlayIP = '''', OverlayType = ''''\<rparr>"

definition zero_obj :: config_obj where
  "zero_obj = \<lparr>co_Kind = '''', co_APIVersion = '''', co_Meta = zero_meta, co_Spec = zero_spec\<rparr>"

definition VSwitchConfig_DeepCopy :: "addr option \<Rightarrow> 'r heap \<Rightarrow> (addr option \<times> 'r heap) option" where
  "VSwitchConfig_DeepCopy p h =
     (case p of
        None \<Rightarrow> Some (None, h)
      | Some a \<Rightarrow>
          (let (out, h) = alloc (ConfigCell zero_obj) h in
           case deref h a of
             Some (ConfigCell obj) \<Rightarrow>
               do { (obj, h) \<leftarrow> VSwitchConfig_DeepCopyInto obj h; Some (Some out, h[out := ConfigCell obj]) }
           | _ \<Rightarrow> None))"

text \<open>The items of a list are structs of one array: the new array is filled from left to right.\<close>

primrec copy_items :: "config_obj list \<Rightarrow> 'r heap \<Rightarrow> (config_obj list \<times> 'r heap) option" where
  "copy_items [] h = Some ([], h)"
| "copy_items (x # xs) h =
     do { (y, h) \<leftarrow> VSwitchConfig_DeepCopyInto x h; (ys, h) \<leftarrow> copy_items xs h; Some (y # ys, h) }"

definition VSwitchConfigList_DeepCopyInto :: "list_obj \<Rightarrow> 'r heap \<Rightarrow> (list_obj \<times> 'r heap) option" where
  "VSwitchConfigList_DeepCopyInto l h =
     (case lo_Items l of
        None \<Rightarrow> Some (l, h)
      | Some a \<Rightarrow>
          (case deref h a of
             Some (ItemsCell xs) \<Rightarrow>
               (let (b, h) = alloc (ItemsCell (replicate (length xs) zero_obj)) h in
                do { (ys, h) \<leftarrow> copy_items xs h; Some (l\<lparr>lo_Items := Some b\<rparr>, h[b := ItemsCell ys]) })
           | _ \<Rightarrow> None))"

definition VSwitchConfigList_DeepCopy :: "addr option \<Rightarrow> 'r heap \<Rightarrow> (addr option \<times> 'r heap) option" where
  "VSwitchConfigList_DeepCopy p h =
     (case p of
        None \<Rightarrow> Some (None, h)
      | Some a \<Rightarrow>
          (let (out, h) = alloc (ListCell \<lparr>lo_Kind = '''', lo_APIVersion = '''', lo_ListMeta = ('''', '''', ''''), lo_Items = None\<rparr>) h in
           case deref h a of
             Some (ListCell l) \<Rightarrow>
               do { (l, h) \<leftarrow> VSwitchConfigList_DeepCopyInto l h; Some (Some out, h[out := ListCell l]) }
           | _ \<Rightarrow> None))"

definition VSwitchConfigSpec_DeepCopyInto :: "VSwitchConfigSpec \<Rightarrow> VSwitchConfigSpec" where
  "VSwitchConfigSpec_DeepCopyInto spec = spec"

definition VSwitchConfigSpec_DeepCopy :: "addr option \<Rightarrow> 'r heap \<Rightarrow> (addr option \<times> 'r heap) option" where
  "VSwitchConfigSpec_DeepCopy p h =
     (case p of
        None \<Rightarrow> Some (None, h)
      | Some a \<Rightarrow>
          (let (out, h) = alloc (SpecCell zero_spec) h in
           case deref h a of
             Some (SpecCell spec) \<Rightarrow> Some (Some out, h[out := SpecCell (VSwitchConfigSpec_DeepCopyInto spec)])
           | _ \<Rightarrow> None))"

text \<open>The copy as a \<^verbatim>\<open>runtime.Object\<close>: a nil pointer becomes a nil interface.\<close>

datatype runtime_object = VSwitchConfigPtr addr | VSwitchConfigListPtr addr

definition VSwitchConfig_DeepCopyObject :: "addr option \<Rightarrow> 'r heap \<Rightarrow> (runtime_object option \<times> 'r heap) option" where
  "VSwitchConfig_DeepCopyObject p h =
     do { (c, h) \<leftarrow> VSwitchConfig_DeepCopy p h; Some (map_option VSwitchConfigPtr c, h) }"

definition VSwitchConfigList_DeepCopyObject :: "addr option \<Rightarrow> 'r heap \<Rightarrow> (runtime_object option \<times> 'r heap) option" where
  "VSwitchConfigList_DeepCopyObject p h =
     do { (c, h) \<leftarrow> VSwitchConfigList_DeepCopy p h; Some (map_option VSwitchConfigListPtr c, h) }"

section \<open>What a copy shares\<close>

definition meta_refs :: "ObjectMeta \<Rightarrow> addr option list" where
  "meta_refs m = [om_DeletionTimestamp m, om_DeletionGracePeriodSeconds m, om_Labels m, om_Annotations m,
     om_OwnerReferences m, om_Initializers m, om_Finalizers m, om_ManagedFields m]"

definition valid_ref :: "'r heap \<Rightarrow> addr option \<Rightarrow> bool" where
  "valid_ref h r \<longleftrightarrow> (\<forall>a. r = Some a \<longrightarrow> a < length h)"

text \<open>\<open>r'\<close> is a copy of \<open>r\<close> made after \<open>h\<close>.\<close>

definition copied :: "'r heap \<Rightarrow> 'r heap \<Rightarrow> addr option \<Rightarrow> addr option \<Rightarrow> bool" where
  "copied h h' r r' \<longleftrightarrow> rel_option (\<lambda>a b. length h \<le> b \<and> b < length h' \<and> h' ! b = h ! a) r r'"

lemma prefix_nth: "prefix h h' \<Longrightarrow> a < length h \<Longrightarrow> h' ! a = h ! a"
  by (auto simp: prefix_def nth_append)

lemma valid_prefix: "valid_ref h r \<Longrightarrow> prefix h h' \<Longrightarrow> valid_ref h' r"
  unfolding valid_ref_def using prefix_length_le by fastforce

lemma copy_ref_ok:
  assumes "valid_ref h r"
  shows "\<exists>r' h'. copy_ref r h = Some (r', h') \<and> prefix h h' \<and> copied h h' r r'"
  using assms by (cases r) (auto simp: copy_ref_def valid_ref_def deref_def alloc_def copied_def)

primrec copy_refs :: "addr option list \<Rightarrow> 'r heap \<Rightarrow> (addr option list \<times> 'r heap) option" where
  "copy_refs [] h = Some ([], h)"
| "copy_refs (r # rs) h = do { (r', h) \<leftarrow> copy_ref r h; (rs', h) \<leftarrow> copy_refs rs h; Some (r' # rs', h) }"

lemma copied_later:
  assumes "copied h h1 r r'" and "prefix h1 h2"
  shows "copied h h2 r r'"
  using assms prefix_nth [OF assms(2)] prefix_length_le [OF assms(2)]
  unfolding copied_def by (auto elim!: option.rel_mono_strong)

lemma copied_earlier:
  assumes "copied h1 h2 r r'" and "prefix h h1" and "valid_ref h r"
  shows "copied h h2 r r'"
  using assms prefix_nth [OF assms(2)] prefix_length_le [OF assms(2)]
  unfolding copied_def valid_ref_def by (cases r; cases r') auto

lemma copy_refs_ok:
  "list_all (valid_ref h) rs \<Longrightarrow>
     \<exists>rs' h'. copy_refs rs h = Some (rs', h') \<and> prefix h h' \<and> list_all2 (copied h h') rs rs'"
proof (induction rs arbitrary: h)
  case (Cons r rs)
  then obtain r' h1 where r: "copy_ref r h = Some (r', h1)" "prefix h h1" "copied h h1 r r'"
    using copy_ref_ok [of h r] by auto
  have "list_all (valid_ref h1) rs" using Cons.prems valid_prefix [OF _ r(2)] by (auto simp: list_all_iff)
  from Cons.IH [OF this] obtain rs' h2 where rs: "copy_refs rs h1 = Some (rs', h2)" "prefix h1 h2"
    "list_all2 (copied h1 h2) rs rs'" by blast
  have "list_all2 (copied h h2) rs rs'"
    using rs(3) Cons.prems by (auto simp: list_all_iff elim!: list.rel_mono_strong intro: copied_earlier [OF _ r(2)])
  with r rs copied_later [OF r(3) rs(2)] show ?case by (auto intro: prefix_order.trans)
qed simp

lemma ObjectMeta_as_refs:
  assumes "copy_refs (meta_refs m) h = Some ([r1, r2, r3, r4, r5, r6, r7, r8], h')"
  shows "ObjectMeta_DeepCopyInto m h =
    Some (m\<lparr>om_DeletionTimestamp := r1, om_DeletionGracePeriodSeconds := r2, om_Labels := r3, om_Annotations := r4,
      om_OwnerReferences := r5, om_Initializers := r6, om_Finalizers := r7, om_ManagedFields := r8\<rparr>, h')"
  using assms by (auto simp: meta_refs_def ObjectMeta_DeepCopyInto_def Option.bind_eq_Some_conv)

text \<open>The fields that are no references.\<close>

definition meta_values :: "ObjectMeta \<Rightarrow> string list \<times> int \<times> int" where
  "meta_values m = ([om_Name m, om_GenerateName m, om_Namespace m, om_SelfLink m, om_UID m, om_ResourceVersion m,
     om_ClusterName m], om_Generation m, om_CreationTimestamp m)"

lemma ObjectMeta_DeepCopy_ok:
  assumes "list_all (valid_ref h) (meta_refs m)"
  shows "\<exists>m' h'. ObjectMeta_DeepCopyInto m h = Some (m', h') \<and> prefix h h' \<and> meta_values m' = meta_values m \<and>
    list_all2 (copied h h') (meta_refs m) (meta_refs m')"
proof -
  from copy_refs_ok [OF assms] obtain rs h' where c: "copy_refs (meta_refs m) h = Some (rs, h')" "prefix h h'"
    "list_all2 (copied h h') (meta_refs m) rs" by blast
  from c(3) have "length rs = 8" by (auto simp: meta_refs_def dest: list_all2_lengthD)
  then obtain r1 r2 r3 r4 r5 r6 r7 r8 where rs: "rs = [r1, r2, r3, r4, r5, r6, r7, r8]"
    by (auto simp: eval_nat_numeral length_Suc_conv)
  let ?m = "m\<lparr>om_DeletionTimestamp := r1, om_DeletionGracePeriodSeconds := r2, om_Labels := r3, om_Annotations := r4,
      om_OwnerReferences := r5, om_Initializers := r6, om_Finalizers := r7, om_ManagedFields := r8\<rparr>"
  have "meta_refs ?m = rs" "meta_values ?m = meta_values m" by (simp_all add: meta_refs_def meta_values_def rs)
  with c ObjectMeta_as_refs [OF c(1) [unfolded rs]] show ?thesis by metis
qed

section \<open>Copies of objects\<close>

text \<open>The value of an object, as the other theories see it.\<close>

definition labels_at :: "'r heap \<Rightarrow> addr option \<Rightarrow> labels" where
  "labels_at h r = (case r of None \<Rightarrow> [] | Some a \<Rightarrow> (case deref h a of Some (StrMapCell l) \<Rightarrow> l | _ \<Rightarrow> []))"

definition value_of :: "'r heap \<Rightarrow> config_obj \<Rightarrow> VSwitchConfig" where
  "value_of h obj = \<lparr>vs_Name = om_Name (co_Meta obj), vs_Labels = labels_at h (om_Labels (co_Meta obj)), Spec = co_Spec obj\<rparr>"

definition config_at :: "'r heap \<Rightarrow> addr \<Rightarrow> config_obj option" where
  "config_at h a = (case deref h a of Some (ConfigCell obj) \<Rightarrow> Some obj | _ \<Rightarrow> None)"

text \<open>An object whose references are in the heap, and one whose references lie beyond a point of it.\<close>

definition valid_obj :: "'r heap \<Rightarrow> config_obj \<Rightarrow> bool" where
  "valid_obj h obj \<longleftrightarrow> list_all (valid_ref h) (meta_refs (co_Meta obj))"

definition fresh_obj :: "'r heap \<Rightarrow> config_obj \<Rightarrow> bool" where
  "fresh_obj h obj \<longleftrightarrow> list_all (\<lambda>r. \<forall>a. r = Some a \<longrightarrow> length h \<le> a) (meta_refs (co_Meta obj))"

lemma copied_fresh: "list_all2 (copied h h') rs rs' \<Longrightarrow> list_all (\<lambda>r. \<forall>a. r = Some a \<longrightarrow> length h \<le> a) rs'"
  by (induction rs rs' rule: list_all2_induct) (auto simp: copied_def option_rel_Some2)

lemma copied_labels:
  assumes "copied h h' r r'" and "valid_ref h r"
  shows "labels_at h' r' = labels_at h r"
  using assms by (cases r; cases r') (auto simp: copied_def labels_at_def deref_def valid_ref_def)

lemma DeepCopyInto_ok:
  assumes "valid_obj h obj"
  shows "\<exists>obj' h'. VSwitchConfig_DeepCopyInto obj h = Some (obj', h') \<and> prefix h h' \<and> value_of h' obj' = value_of h obj \<and>
    fresh_obj h obj' \<and> co_Kind obj' = co_Kind obj \<and> co_APIVersion obj' = co_APIVersion obj \<and>
    meta_values (co_Meta obj') = meta_values (co_Meta obj) \<and>
    list_all2 (copied h h') (meta_refs (co_Meta obj)) (meta_refs (co_Meta obj'))"
proof -
  from ObjectMeta_DeepCopy_ok assms obtain m' h' where
    c: "ObjectMeta_DeepCopyInto (co_Meta obj) h = Some (m', h')" "prefix h h'" "meta_values m' = meta_values (co_Meta obj)"
    "list_all2 (copied h h') (meta_refs (co_Meta obj)) (meta_refs m')" unfolding valid_obj_def by blast
  have "copied h h' (om_Labels (co_Meta obj)) (om_Labels m')" using c(4) by (simp add: meta_refs_def)
  moreover have "valid_ref h (om_Labels (co_Meta obj))" using assms by (simp add: valid_obj_def meta_refs_def)
  ultimately have "labels_at h' (om_Labels m') = labels_at h (om_Labels (co_Meta obj))" by (rule copied_labels)
  with c copied_fresh [OF c(4)] show ?thesis
    by (auto simp: VSwitchConfig_DeepCopyInto_def value_of_def fresh_obj_def meta_values_def)
qed

text \<open>A copy of an object in the heap: a new object of the same value, and nothing that was there before has changed.\<close>

lemma value_prefix:
  assumes "valid_obj h obj" and "prefix h h'"
  shows "value_of h' obj = value_of h obj" and "valid_obj h' obj"
proof -
  have l: "valid_ref h (om_Labels (co_Meta obj))" using assms(1) by (simp add: valid_obj_def meta_refs_def)
  then have "labels_at h' (om_Labels (co_Meta obj)) = labels_at h (om_Labels (co_Meta obj))"
    using prefix_nth [OF assms(2)] prefix_length_le [OF assms(2)]
    by (auto simp: labels_at_def deref_def valid_ref_def split: option.split)
  then show "value_of h' obj = value_of h obj" by (simp add: value_of_def)
  show "valid_obj h' obj" using assms valid_prefix [OF _ assms(2)] by (auto simp: valid_obj_def list_all_iff)
qed

lemma DeepCopy_fresh:
  assumes "config_at h a = Some obj" and "valid_obj h obj"
  shows "\<exists>b obj' h'. VSwitchConfig_DeepCopy (Some a) h = Some (Some b, h') \<and> prefix h h' \<and> length h \<le> b \<and>
    config_at h' b = Some obj' \<and> value_of h' obj' = value_of h obj \<and> fresh_obj h obj' \<and> valid_obj h' obj'"
proof -
  let ?out = "length h" and ?h1 = "h @ [ConfigCell zero_obj]"
  have a: "a < length h" "h ! a = ConfigCell obj"
    using assms(1) by (auto simp: config_at_def deref_def split: if_split_asm cell.split_asm)
  have "prefix h ?h1" by simp
  from value_prefix [OF assms(2) this] obtain obj' h2 where
    c: "VSwitchConfig_DeepCopyInto obj ?h1 = Some (obj', h2)" "prefix ?h1 h2" "value_of h2 obj' = value_of h obj"
    "fresh_obj ?h1 obj'" "list_all2 (copied ?h1 h2) (meta_refs (co_Meta obj)) (meta_refs (co_Meta obj'))"
    using DeepCopyInto_ok [of ?h1 obj] by auto
  obtain t where t: "h2 = h @ ConfigCell zero_obj # t" using c(2) by (auto simp: prefix_def)
  let ?h3 = "h2[?out := ConfigCell obj']"
  have h3: "?h3 = h @ ConfigCell obj' # t" by (simp add: t)
  have beyond: "length h < b \<and> b < length h2" if "Some b \<in> set (meta_refs (co_Meta obj'))" for b
    using c(5) that by (induction rule: list_all2_induct) (auto simp: copied_def option_rel_Some2)
  have "VSwitchConfig_DeepCopy (Some a) h = Some (Some ?out, ?h3)"
    using a c(1) by (simp add: VSwitchConfig_DeepCopy_def alloc_def deref_def nth_append)
  moreover have "config_at ?h3 ?out = Some obj'" by (simp add: config_at_def deref_def h3)
  moreover have "labels_at ?h3 (om_Labels (co_Meta obj')) = labels_at h2 (om_Labels (co_Meta obj'))"
  proof (cases "om_Labels (co_Meta obj')")
    case (Some b)
    with beyond [of b] have "length h < b" by (simp add: meta_refs_def)
    with Some show ?thesis by (simp add: labels_at_def deref_def)
  qed (simp add: labels_at_def)
  then have "value_of ?h3 obj' = value_of h obj" using c(3) by (simp add: value_of_def)
  moreover have "fresh_obj h obj'" using beyond by (force simp: fresh_obj_def list_all_iff)
  moreover have "valid_obj ?h3 obj'" using beyond by (auto simp: valid_obj_def valid_ref_def list_all_iff)
  moreover have "prefix h ?h3" by (simp add: h3)
  ultimately show ?thesis by blast
qed

text \<open>A copy of a list: its items are copies, below a new array.\<close>

lemma copy_items_ok:
  "list_all (valid_obj h) xs \<Longrightarrow>
     \<exists>ys h'. copy_items xs h = Some (ys, h') \<and> prefix h h' \<and> map (value_of h') ys = map (value_of h) xs \<and>
       list_all (fresh_obj h) ys \<and> list_all (valid_obj h') ys"
proof (induction xs arbitrary: h)
  case (Cons x xs)
  then obtain y h1 where y: "VSwitchConfig_DeepCopyInto x h = Some (y, h1)" "prefix h h1" "value_of h1 y = value_of h x"
    "fresh_obj h y" "list_all2 (copied h h1) (meta_refs (co_Meta x)) (meta_refs (co_Meta y))"
    using DeepCopyInto_ok [of h x] by auto
  have vy: "valid_obj h1 y"
    using y(5) unfolding valid_obj_def
    by (induction rule: list_all2_induct) (auto simp: copied_def valid_ref_def option_rel_Some2)
  have "list_all (valid_obj h1) xs" using Cons.prems value_prefix(2) [OF _ y(2)] by (auto simp: list_all_iff)
  from Cons.IH [OF this] obtain ys h2 where ys: "copy_items xs h1 = Some (ys, h2)" "prefix h1 h2"
    "map (value_of h2) ys = map (value_of h1) xs" "list_all (fresh_obj h1) ys" "list_all (valid_obj h2) ys" by blast
  have "map (value_of h1) xs = map (value_of h) xs"
    using Cons.prems value_prefix(1) [OF _ y(2)] by (auto simp: list_all_iff)
  moreover have "list_all (fresh_obj h) ys"
    using ys(4) prefix_length_le [OF y(2)] by (force simp: fresh_obj_def list_all_iff)
  ultimately show ?case
    using y ys value_prefix [OF vy ys(2)] by (auto intro: prefix_order.trans)
qed simp

section \<open>The controller on the heap\<close>

datatype ref_request = CreateRef addr | UpdateRef addr

primrec ref_addr :: "ref_request \<Rightarrow> addr" where
  "ref_addr (CreateRef a) = a"
| "ref_addr (UpdateRef a) = a"

text \<open>The request the API gets: the value of the object at the time of the call.\<close>

fun request_at :: "'r heap \<Rightarrow> ref_request \<Rightarrow> request option" where
  "request_at h (CreateRef a) = map_option (\<lambda>obj. Create (value_of h obj)) (config_at h a)"
| "request_at h (UpdateRef a) = map_option (\<lambda>obj. Update (value_of h obj)) (config_at h a)"

definition heap_nodeToVSwitchConfig ::
  "Node \<Rightarrow> string \<Rightarrow> string \<Rightarrow> string \<Rightarrow> string \<Rightarrow> string \<Rightarrow> 'r heap \<Rightarrow> addr \<times> 'r heap" where
  "heap_nodeToVSwitchConfig node overlayType overlayIP podCIDR clusterCIDR serviceCIDR h =
     alloc (ConfigCell (zero_obj\<lparr>co_Meta := zero_meta\<lparr>om_Name := node_Name node\<rparr>,
       co_Spec := \<lparr>PodCIDR = podCIDR, ClusterCIDR = clusterCIDR, ServiceCIDR = serviceCIDR, OverlayIP = overlayIP,
                   OverlayType = overlayType\<rparr>\<rparr>)) h"

definition heap_syncVSwitchConfig ::
  "vswitchConfig \<Rightarrow> (string \<Rightarrow> err + addr) \<Rightarrow> api \<Rightarrow> Node \<Rightarrow> 'r heap \<Rightarrow>
     ((err option \<times> ref_request list) \<times> 'r heap) option" where
  "heap_syncVSwitchConfig v get api node h =
     (case nodeOverlayIP node of
        Inl e \<Rightarrow> Some ((Some (Errorf ''error getting overlay IP for node'' e), []), h)
      | Inr overlayIP \<Rightarrow>
          (case nodePodCIDR node of
             Inl e \<Rightarrow> Some ((Some (Errorf ''failed to get pod CIDR for node'' e), []), h)
           | Inr podCIDR \<Rightarrow>
               (case get (node_Name node) of
                  Inl e \<Rightarrow>
                    if IsNotFound e then
                      (let (a, h) = heap_nodeToVSwitchConfig node (vc_overlayType v) overlayIP podCIDR
                             (vc_clusterCIDR v) (vc_serviceCIDR v) h
                       in do { req \<leftarrow> request_at h (CreateRef a); Some ((api req, [CreateRef a]), h) })
                    else Some ((Some (Errorf ''error getting vswitch config from cache'' e), []), h)
                | Inr vswitchCfg \<Rightarrow>
                    do { (p, h) \<leftarrow> VSwitchConfig_DeepCopy (Some vswitchCfg) h;
                      newVSwitchCfg \<leftarrow> p;
                      obj \<leftarrow> config_at h newVSwitchCfg;
                      let h = h[newVSwitchCfg := ConfigCell (obj\<lparr>co_Spec := (co_Spec obj)\<lparr>OverlayIP := overlayIP,
                            OverlayType := vc_overlayType v, PodCIDR := podCIDR, ClusterCIDR := vc_clusterCIDR v,
                            ServiceCIDR := vc_serviceCIDR v\<rparr>\<rparr>)];
                      req \<leftarrow> request_at h (UpdateRef newVSwitchCfg);
                      Some ((api req, [UpdateRef newVSwitchCfg]), h) })))"

text \<open>The cache as the other theories see it: the values its pointers lead to.\<close>

definition cache_get :: "'r heap \<Rightarrow> (string \<Rightarrow> err + addr) \<Rightarrow> vswitch_get" where
  "cache_get h get name =
     (case get name of
        Inl e \<Rightarrow> Inl e
      | Inr a \<Rightarrow> (case config_at h a of None \<Rightarrow> Inl (ErrorMsg ''dangling pointer'') | Some obj \<Rightarrow> Inr (value_of h obj)))"

definition cache_ok :: "'r heap \<Rightarrow> (string \<Rightarrow> err + addr) \<Rightarrow> bool" where
  "cache_ok h get \<longleftrightarrow> (\<forall>n a. get n = Inr a \<longrightarrow> (\<exists>obj. config_at h a = Some obj \<and> valid_obj h obj))"

lemma update_cell:
  assumes "prefix h h1" and "length h \<le> b" and "config_at h1 b = Some obj"
  shows "prefix h (h1[b := ConfigCell (obj\<lparr>co_Spec := spec\<rparr>)])"
    and "config_at (h1[b := ConfigCell (obj\<lparr>co_Spec := spec\<rparr>)]) b = Some (obj\<lparr>co_Spec := spec\<rparr>)"
    and "value_of (h1[b := ConfigCell (obj\<lparr>co_Spec := spec\<rparr>)]) (obj\<lparr>co_Spec := spec\<rparr>) = (value_of h1 obj)\<lparr>Spec := spec\<rparr>"
proof -
  have b: "b < length h1" "h1 ! b = ConfigCell obj"
    using assms(3) by (auto simp: config_at_def deref_def split: if_split_asm cell.split_asm)
  obtain t where "h1 = h @ t" using assms(1) by (auto simp: prefix_def)
  with assms(2) show "prefix h (h1[b := ConfigCell (obj\<lparr>co_Spec := spec\<rparr>)])" by (simp add: list_update_append)
  show "config_at (h1[b := ConfigCell (obj\<lparr>co_Spec := spec\<rparr>)]) b = Some (obj\<lparr>co_Spec := spec\<rparr>)"
    using b by (simp add: config_at_def deref_def)
  show "value_of (h1[b := ConfigCell (obj\<lparr>co_Spec := spec\<rparr>)]) (obj\<lparr>co_Spec := spec\<rparr>) = (value_of h1 obj)\<lparr>Spec := spec\<rparr>"
    using b by (auto simp: value_of_def labels_at_def deref_def nth_list_update split: option.split)
qed

text \<open>
  On the heap the controller makes the requests of the functional model on the values the cache holds, the cache
  and everything it refers to are as before, and what it hands to the API shares nothing with them.
\<close>

theorem heap_sync_refines:
  assumes "cache_ok h get"
  shows "\<exists>err refs h'. heap_syncVSwitchConfig v get api node h = Some ((err, refs), h') \<and> prefix h h' \<and>
    fst (syncVSwitchConfig v (cache_get h get) api node) = err \<and>
    map Some (snd (syncVSwitchConfig v (cache_get h get) api node)) = map (request_at h') refs \<and>
    (\<forall>r\<in>set refs. length h \<le> ref_addr r \<and> (\<exists>obj. config_at h' (ref_addr r) = Some obj \<and> fresh_obj h obj))"
proof (cases "nodeOverlayIP node")
  case (Inl e)
  then show ?thesis by (simp add: heap_syncVSwitchConfig_def syncVSwitchConfig_def)
next
  case ip: (Inr overlayIP)
  show ?thesis
  proof (cases "nodePodCIDR node")
    case (Inl e)
    with ip show ?thesis by (simp add: heap_syncVSwitchConfig_def syncVSwitchConfig_def)
  next
    case pc: (Inr podCIDR)
    show ?thesis
    proof (cases "get (node_Name node)")
      case (Inl e)
      with ip pc show ?thesis
        by (auto simp: heap_syncVSwitchConfig_def syncVSwitchConfig_def cache_get_def heap_nodeToVSwitchConfig_def alloc_def
            config_at_def deref_def nodeToVSwitchConfig_def value_of_def labels_at_def zero_obj_def zero_meta_def fresh_obj_def
            meta_refs_def Let_def)
    next
      case (Inr a)
      with assms obtain obj where obj: "config_at h a = Some obj" "valid_obj h obj" by (auto simp: cache_ok_def)
      from DeepCopy_fresh [OF obj] obtain b obj' h1 where
        c: "VSwitchConfig_DeepCopy (Some a) h = Some (Some b, h1)" "prefix h h1" "length h \<le> b"
        "config_at h1 b = Some obj'" "value_of h1 obj' = value_of h obj" "fresh_obj h obj'" by blast
      let ?spec = "(co_Spec obj')\<lparr>OverlayIP := overlayIP, OverlayType := vc_overlayType v, PodCIDR := podCIDR,
          ClusterCIDR := vc_clusterCIDR v, ServiceCIDR := vc_serviceCIDR v\<rparr>"
      let ?h2 = "h1[b := ConfigCell (obj'\<lparr>co_Spec := ?spec\<rparr>)]" and ?cfg = "(value_of h obj)\<lparr>Spec := ?spec\<rparr>"
      note u = update_cell [OF c(2,3,4), of ?spec]
      have req: "request_at ?h2 (UpdateRef b) = Some (Update ?cfg)" using u(2,3) c(5) by simp
      have "Spec (value_of h obj) = co_Spec obj'" using c(5) by (metis VSwitchConfig.select_convs(3) value_of_def)
      then have func: "syncVSwitchConfig v (cache_get h get) api node = (api (Update ?cfg), [Update ?cfg])"
        using ip pc Inr obj(1) by (simp add: syncVSwitchConfig_def cache_get_def Let_def)
      have run: "heap_syncVSwitchConfig v get api node h = Some ((api (Update ?cfg), [UpdateRef b]), ?h2)"
        using ip pc Inr c(1,4) req by (simp add: heap_syncVSwitchConfig_def Let_def del: request_at.simps)
      have "fresh_obj h (obj'\<lparr>co_Spec := ?spec\<rparr>)" using c(6) by (simp add: fresh_obj_def)
      with run func req u(1,2) c(3) show ?thesis by (simp del: request_at.simps)
    qed
  qed
qed

lemma cache_get_prefix:
  assumes "cache_ok h get" and "prefix h h'"
  shows "cache_get h' get = cache_get h get"
proof
  fix n
  show "cache_get h' get n = cache_get h get n"
  proof (cases "get n")
    case (Inr a)
    with assms(1) obtain obj where obj: "config_at h a = Some obj" "valid_obj h obj" by (auto simp: cache_ok_def)
    then have "a < length h" by (auto simp: config_at_def deref_def split: if_split_asm)
    then have "config_at h' a = Some obj"
      using obj(1) prefix_nth [OF assms(2)] prefix_length_le [OF assms(2)] by (simp add: config_at_def deref_def)
    with Inr obj value_prefix(1) [OF obj(2) assms(2)] show ?thesis by (simp add: cache_get_def)
  qed (simp add: cache_get_def)
qed

end
