(* ===== verification/Indexer.thy ===== *)
theory Indexer
  imports VSwitchCfg "HOL-Library.AList" "HOL-Library.Multiset"
begin

text \<open>
  The cache behind an informer, vendored in \<^verbatim>\<open>client-go/tools/cache\<close>: \<^verbatim>\<open>thread_safe_store.go\<close> with its indices, the keys of
  \<^verbatim>\<open>store.go\<close>, \<^verbatim>\<open>HandleDeltas\<close> of \<^verbatim>\<open>shared_informer.go\<close>, which keeps the cache and tells the handlers, and the
  listers that read it.  A Go map is an association list, in the order in which it is ranged over; a set of keys a list.
  An index function that fails is a panic.  The interface of a stored object that these use is its metadata.

  \<open>ts_inv\<close>: every index holds exactly the keys of the objects it should; \<open>deltas_mirrored\<close>: what the handlers are told is
  what happens to the cache; \<open>indexed_lister_contract\<close>: the listers of the caches list what is in them.
\<close>

section \<open>The store and its indices\<close>

record object_meta =
  mt_Namespace :: string
  mt_Name :: string
  mt_Labels :: labels

type_synonym index = "(string \<times> string list) list"
type_synonym index_func = "object_meta \<Rightarrow> err + string list"

record 'o thread_safe_map =
  ts_items :: "(string \<times> 'o) list"
  ts_indexers :: "(string \<times> index_func) list"
  ts_indices :: "(string \<times> index) list"

definition NewThreadSafeStore :: "(string \<times> index_func) list \<Rightarrow> 'o thread_safe_map" where
  "NewThreadSafeStore indexers = \<lparr>ts_items = [], ts_indexers = indexers, ts_indices = []\<rparr>"

definition go_get :: "(string \<times> 'v list) list \<Rightarrow> string \<Rightarrow> 'v list" where
  "go_get m k = (case map_of m k of None \<Rightarrow> [] | Some v \<Rightarrow> v)"

definition deleteFromIndices :: "('o \<Rightarrow> object_meta) \<Rightarrow> 'o \<Rightarrow> string \<Rightarrow> 'o thread_safe_map \<Rightarrow> 'o thread_safe_map option" where
  "deleteFromIndices meta obj objKey c =
     foreach (\<lambda>(name, indexFunc) c.
       case indexFunc (meta obj) of
         Inl e \<Rightarrow> None
       | Inr indexValues \<Rightarrow>
           (case map_of (ts_indices c) name of
              None \<Rightarrow> Some c
            | Some index \<Rightarrow>
                (let index = fold (\<lambda>indexValue index.
                       case map_of index indexValue of
                         None \<Rightarrow> index
                       | Some ks \<Rightarrow> AList.update indexValue (removeAll objKey ks) index) indexValues index
                 in Some (c\<lparr>ts_indices := AList.update name index (ts_indices c)\<rparr>)))) (ts_indexers c) c"

definition updateIndices ::
  "('o \<Rightarrow> object_meta) \<Rightarrow> 'o option \<Rightarrow> 'o \<Rightarrow> string \<Rightarrow> 'o thread_safe_map \<Rightarrow> 'o thread_safe_map option" where
  "updateIndices meta oldObj newObj objKey c =
     do { c \<leftarrow> (case oldObj of None \<Rightarrow> Some c | Some oldObj \<Rightarrow> deleteFromIndices meta oldObj objKey c);
       foreach (\<lambda>(name, indexFunc) c.
         case indexFunc (meta newObj) of
           Inl e \<Rightarrow> None
         | Inr indexValues \<Rightarrow>
             (let index = fold (\<lambda>indexValue index. AList.update indexValue (List.insert objKey (go_get index indexValue)) index)
                    indexValues (go_get (ts_indices c) name)
              in Some (c\<lparr>ts_indices := AList.update name index (ts_indices c)\<rparr>))) (ts_indexers c) c }"

definition ts_Add :: "('o \<Rightarrow> object_meta) \<Rightarrow> string \<Rightarrow> 'o \<Rightarrow> 'o thread_safe_map \<Rightarrow> 'o thread_safe_map option" where
  "ts_Add meta objKey obj c =
     (let oldObject = map_of (ts_items c) objKey in
      updateIndices meta oldObject obj objKey (c\<lparr>ts_items := AList.update objKey obj (ts_items c)\<rparr>))"

definition ts_Update :: "('o \<Rightarrow> object_meta) \<Rightarrow> string \<Rightarrow> 'o \<Rightarrow> 'o thread_safe_map \<Rightarrow> 'o thread_safe_map option" where
  "ts_Update meta objKey obj c =
     (let oldObject = map_of (ts_items c) objKey in
      updateIndices meta oldObject obj objKey (c\<lparr>ts_items := AList.update objKey obj (ts_items c)\<rparr>))"

definition ts_Delete :: "('o \<Rightarrow> object_meta) \<Rightarrow> string \<Rightarrow> 'o thread_safe_map \<Rightarrow> 'o thread_safe_map option" where
  "ts_Delete meta objKey c =
     (case map_of (ts_items c) objKey of
        None \<Rightarrow> Some c
      | Some obj \<Rightarrow>
          map_option (\<lambda>c. c\<lparr>ts_items := AList.delete objKey (ts_items c)\<rparr>) (deleteFromIndices meta obj objKey c))"

definition ts_List :: "'o thread_safe_map \<Rightarrow> 'o list" where
  "ts_List c = map snd (ts_items c)"

text \<open>A key without an object would put a nil interface into the list.\<close>

definition ts_Index :: "string \<Rightarrow> object_meta \<Rightarrow> 'o thread_safe_map \<Rightarrow> err + 'o option list" where
  "ts_Index indexName obj c =
     (case map_of (ts_indexers c) indexName of
        None \<Rightarrow> Inl (ErrorMsg ''Index does not exist'')
      | Some indexFunc \<Rightarrow>
          (case indexFunc obj of
             Inl e \<Rightarrow> Inl e
           | Inr indexKeys \<Rightarrow>
               (let index = go_get (ts_indices c) indexName;
                    returnKeySet = (case indexKeys of
                      [k] \<Rightarrow> go_get index k
                    | _ \<Rightarrow> fold (\<lambda>indexKey keys. fold List.insert (go_get index indexKey) keys) indexKeys [])
                in Inr (map (map_of (ts_items c)) returnKeySet))))"

section \<open>Keys\<close>

definition MetaNamespaceKeyFunc :: "object_meta \<Rightarrow> string" where
  "MetaNamespaceKeyFunc m = (if mt_Namespace m \<noteq> '''' then mt_Namespace m @ ''/'' @ mt_Name m else mt_Name m)"

definition SplitMetaNamespaceKey :: "string \<Rightarrow> err + (string \<times> string)" where
  "SplitMetaNamespaceKey objKey =
     (case Split objKey CHR ''/'' of
        [name] \<Rightarrow> Inr ('''', name)
      | [ns, name] \<Rightarrow> Inr (ns, name)
      | _ \<Rightarrow> Inl (ErrorMsg ''unexpected key format''))"

definition NamespaceIndex :: string where
  "NamespaceIndex = ''namespace''"

definition MetaNamespaceIndexFunc :: index_func where
  "MetaNamespaceIndexFunc m = Inr [mt_Namespace m]"

definition NewIndexer :: "(string \<times> index_func) list \<Rightarrow> 'o thread_safe_map" where
  "NewIndexer indexers = NewThreadSafeStore indexers"

section \<open>Deltas\<close>

datatype 'o delta_obj = Known 'o | DeletedFinalStateUnknown string 'o

datatype 'o delta =
    Sync 'o
  | DeltaAdded 'o
  | DeltaUpdated 'o
  | DeltaDeleted "'o delta_obj"

datatype 'o notification =
    updateNotification 'o 'o
  | addNotification 'o
  | deleteNotification "'o delta_obj"

definition DeletionHandlingMetaNamespaceKeyFunc :: "('o \<Rightarrow> object_meta) \<Rightarrow> 'o delta_obj \<Rightarrow> string" where
  "DeletionHandlingMetaNamespaceKeyFunc meta obj =
     (case obj of DeletedFinalStateUnknown objKey _ \<Rightarrow> objKey | Known obj \<Rightarrow> MetaNamespaceKeyFunc (meta obj))"

text \<open>A notification is distributed with its flag: a sync reaches the listeners that resynchronise, anything else all.\<close>

type_synonym 'o informer_state = "'o thread_safe_map \<times> ('o notification \<times> bool) list"

definition set_object :: "('o \<Rightarrow> object_meta) \<Rightarrow> 'o \<Rightarrow> bool \<Rightarrow> 'o informer_state \<Rightarrow> 'o informer_state option" where
  "set_object meta obj isSync s =
     (let (c, sent) = s; objKey = MetaNamespaceKeyFunc (meta obj) in
      case map_of (ts_items c) objKey of
        Some old \<Rightarrow> map_option (\<lambda>c. (c, sent @ [(updateNotification old obj, isSync)])) (ts_Update meta objKey obj c)
      | None \<Rightarrow> map_option (\<lambda>c. (c, sent @ [(addNotification obj, isSync)])) (ts_Add meta objKey obj c))"

definition handle_delta :: "('o \<Rightarrow> object_meta) \<Rightarrow> 'o delta \<Rightarrow> 'o informer_state \<Rightarrow> 'o informer_state option" where
  "handle_delta meta d s =
     (case d of
        Sync obj \<Rightarrow> set_object meta obj True s
      | DeltaAdded obj \<Rightarrow> set_object meta obj False s
      | DeltaUpdated obj \<Rightarrow> set_object meta obj False s
      | DeltaDeleted obj \<Rightarrow>
          (let (c, sent) = s in
           map_option (\<lambda>c. (c, sent @ [(deleteNotification obj, False)]))
             (ts_Delete meta (DeletionHandlingMetaNamespaceKeyFunc meta obj) c)))"

definition HandleDeltas ::
  "('o \<Rightarrow> object_meta) \<Rightarrow> 'o delta list \<Rightarrow> 'o thread_safe_map \<Rightarrow> 'o informer_state option" where
  "HandleDeltas meta deltas c = foreach (handle_delta meta) deltas (c, [])"

section \<open>Listers\<close>

text \<open>The loop over some objects, of which \<open>None\<close> is a nil interface: it has no metadata, and its assertion to the type fails.\<close>

definition append_selected :: "('o \<Rightarrow> object_meta) \<Rightarrow> selector \<Rightarrow> 'o option list \<Rightarrow> (err + 'o list) option" where
  "append_selected meta sel objs =
     foreach (\<lambda>m ret.
       case ret of
         Inl e \<Rightarrow> Some (Inl e)
       | Inr ret \<Rightarrow>
           (if Selector_Empty sel then (case m of None \<Rightarrow> None | Some m \<Rightarrow> Some (Inr (ret @ [m])))
            else
              (case m of
                 None \<Rightarrow> Some (Inl (ErrorMsg ''object does not implement the Object interfaces''))
               | Some m \<Rightarrow> Some (Inr (if Selector_Matches sel (mt_Labels (meta m)) then ret @ [m] else ret)))))
       objs (Inr [])"

definition store_ListAll :: "('o \<Rightarrow> object_meta) \<Rightarrow> 'o thread_safe_map \<Rightarrow> selector \<Rightarrow> (err + 'o list) option" where
  "store_ListAll meta c sel = append_selected meta sel (map Some (ts_List c))"

definition index_ListAllByNamespace ::
  "('o \<Rightarrow> object_meta) \<Rightarrow> 'o thread_safe_map \<Rightarrow> string \<Rightarrow> selector \<Rightarrow> (err + 'o list) option" where
  "index_ListAllByNamespace meta c ns sel =
     (if ns = '''' then append_selected meta sel (map Some (ts_List c))
      else
        (case ts_Index NamespaceIndex \<lparr>mt_Namespace = ns, mt_Name = '''', mt_Labels = []\<rparr> c of
           Inl e \<Rightarrow>
             Some (Inr (filter (\<lambda>m. mt_Namespace (meta m) = ns \<and> Selector_Matches sel (mt_Labels (meta m))) (ts_List c)))
         | Inr items \<Rightarrow> append_selected meta sel items))"

text \<open>The generated lister of the \<^verbatim>\<open>VSwitchConfig\<close>s.\<close>

definition vswitch_meta :: "VSwitchConfig \<Rightarrow> object_meta" where
  "vswitch_meta v = \<lparr>mt_Namespace = '''', mt_Name = vs_Name v, mt_Labels = vs_Labels v\<rparr>"

record vSwitchConfigLister =
  lister_indexer :: "VSwitchConfig thread_safe_map"

definition NewVSwitchConfigLister :: "VSwitchConfig thread_safe_map \<Rightarrow> vSwitchConfigLister" where
  "NewVSwitchConfigLister indexer = \<lparr>lister_indexer = indexer\<rparr>"

definition lister_List :: "vSwitchConfigLister \<Rightarrow> selector \<Rightarrow> (err + VSwitchConfig list) option" where
  "lister_List s sel = store_ListAll vswitch_meta (lister_indexer s) sel"

definition lister_Get :: "vSwitchConfigLister \<Rightarrow> vswitch_get" where
  "lister_Get s name =
     (case map_of (ts_items (lister_indexer s)) name of None \<Rightarrow> Inl (NotFound name) | Some obj \<Rightarrow> Inr obj)"

section \<open>The indices are right\<close>

definition keyset :: "'o thread_safe_map \<Rightarrow> string \<Rightarrow> string \<Rightarrow> string list" where
  "keyset c n v = go_get (go_get (ts_indices c) n) v"

lemma go_get_update [simp]: "go_get (AList.update k v m) k' = (if k' = k then v else go_get m k')"
  by (simp add: go_get_def update_conv')

lemma go_get_fold_delete:
  "go_get (fold (\<lambda>v index. case map_of index v of None \<Rightarrow> index | Some ks \<Rightarrow> AList.update v (removeAll k ks) index) vs index) w =
     (if w \<in> set vs then removeAll k (go_get index w) else go_get index w)"
proof (induction vs arbitrary: index)
  case (Cons v vs)
  show ?case
  proof (cases "map_of index v")
    case None
    then have "go_get index v = []" by (simp add: go_get_def)
    with None Cons.IH show ?thesis by auto
  next
    case (Some ks)
    then have "go_get index v = ks" by (simp add: go_get_def)
    with Some Cons.IH show ?thesis by auto
  qed
qed simp

lemma go_get_fold_insert:
  "go_get (fold (\<lambda>v index. AList.update v (List.insert k (go_get index v)) index) vs index) w =
     (if w \<in> set vs then List.insert k (go_get index w) else go_get index w)"
  by (induction vs arbitrary: index) auto

text \<open>A loop over the index functions that changes the sets of an object's values by \<open>f\<close>.\<close>

definition on_values :: "(string list \<Rightarrow> string list) \<Rightarrow> index_func option \<Rightarrow> object_meta \<Rightarrow> string \<Rightarrow> string list \<Rightarrow> string list" where
  "on_values f indexFunc m v ks =
     (case indexFunc of
        None \<Rightarrow> ks
      | Some g \<Rightarrow> (case g m of Inl _ \<Rightarrow> ks | Inr vs \<Rightarrow> if v \<in> set vs then f ks else ks))"

definition reindexed :: "(string list \<Rightarrow> string list) \<Rightarrow> object_meta \<Rightarrow> 'o thread_safe_map \<Rightarrow> 'o thread_safe_map \<Rightarrow> bool" where
  "reindexed f m c c' \<longleftrightarrow> ts_items c' = ts_items c \<and> ts_indexers c' = ts_indexers c \<and>
     (\<forall>n v. keyset c' n v = on_values f (map_of (ts_indexers c) n) m v (keyset c n v))"

lemma foreach_indexers:
  fixes body :: "string \<times> index_func \<Rightarrow> 'o thread_safe_map \<Rightarrow> 'o thread_safe_map option"
  assumes "distinct (map fst ixs)" and "\<forall>(n, g)\<in>set ixs. \<not> isl (g m)"
    and step: "\<And>n g c vs. g m = Inr vs \<Longrightarrow> \<exists>c'. body (n, g) c = Some c' \<and> ts_items c' = ts_items c \<and>
      ts_indexers c' = ts_indexers c \<and> (\<forall>n' v. keyset c' n' v = (if n' = n \<and> v \<in> set vs then f (keyset c n' v) else keyset c n' v))"
  shows "\<exists>c'. foreach body ixs c = Some c' \<and> ts_items c' = ts_items c \<and> ts_indexers c' = ts_indexers c \<and>
    (\<forall>n v. keyset c' n v = on_values f (map_of ixs n) m v (keyset c n v))"
  using assms(1,2)
proof (induction ixs arbitrary: c)
  case (Cons ng ixs)
  obtain n g where ng: "ng = (n, g)" by (cases ng)
  with Cons.prems(2) obtain vs where vs: "g m = Inr vs" by (cases "g m") auto
  from step [where g = g and n = n and c = c, OF vs] obtain c1 where c1: "body (n, g) c = Some c1" "ts_items c1 = ts_items c" "ts_indexers c1 = ts_indexers c"
    "\<forall>n' v. keyset c1 n' v = (if n' = n \<and> v \<in> set vs then f (keyset c n' v) else keyset c n' v)" by blast
  from Cons.prems have "distinct (map fst ixs)" "\<forall>(n, g)\<in>set ixs. \<not> isl (g m)" by auto
  from Cons.IH [OF this] obtain c2 where c2: "foreach body ixs c1 = Some c2" "ts_items c2 = ts_items c1" "ts_indexers c2 = ts_indexers c1"
    "\<forall>n v. keyset c2 n v = on_values f (map_of ixs n) m v (keyset c1 n v)" by blast
  have "map_of ixs n = None" using Cons.prems(1) ng by (simp add: map_of_eq_None_iff)
  with c1 c2 vs ng show ?case by (auto simp: on_values_def)
qed (simp add: on_values_def)

definition indexers_ok :: "'o thread_safe_map \<Rightarrow> bool" where
  "indexers_ok c \<longleftrightarrow> distinct (map fst (ts_indexers c)) \<and> (\<forall>(n, g)\<in>set (ts_indexers c). \<forall>m. \<not> isl (g m))"

lemma deleteFromIndices_reindexed:
  assumes "indexers_ok c"
  shows "\<exists>c'. deleteFromIndices meta obj k c = Some c' \<and> reindexed (removeAll k) (meta obj) c c'"
  unfolding deleteFromIndices_def reindexed_def
proof (rule foreach_indexers)
  fix n and g :: index_func and c1 :: "'a thread_safe_map" and vs assume vs: "g (meta obj) = Inr vs"
  show "\<exists>c'. (case (n, g) of (name, indexFunc) \<Rightarrow> \<lambda>c. case indexFunc (meta obj) of Inl e \<Rightarrow> None
      | Inr indexValues \<Rightarrow> (case map_of (ts_indices c) name of None \<Rightarrow> Some c
          | Some index \<Rightarrow> let index = fold (\<lambda>indexValue index. case map_of index indexValue of None \<Rightarrow> index
              | Some ks \<Rightarrow> AList.update indexValue (removeAll k ks) index) indexValues index
            in Some (c\<lparr>ts_indices := AList.update name index (ts_indices c)\<rparr>))) c1 = Some c' \<and>
      ts_items c' = ts_items c1 \<and> ts_indexers c' = ts_indexers c1 \<and>
      (\<forall>n' v. keyset c' n' v = (if n' = n \<and> v \<in> set vs then removeAll k (keyset c1 n' v) else keyset c1 n' v))"
  proof (cases "map_of (ts_indices c1) n")
    case None
    then have "go_get (ts_indices c1) n = []" by (simp add: go_get_def)
    with None vs show ?thesis by (simp add: keyset_def go_get_def)
  next
    case (Some index)
    then have "go_get (ts_indices c1) n = index" by (simp add: go_get_def)
    with Some vs show ?thesis by (simp add: keyset_def go_get_fold_delete)
  qed
qed (use assms in \<open>auto simp: indexers_ok_def\<close>)

lemma insertIntoIndices_reindexed:
  assumes "indexers_ok c"
  shows "\<exists>c'. updateIndices meta None obj k c = Some c' \<and> reindexed (List.insert k) (meta obj) c c'"
  unfolding updateIndices_def reindexed_def option.case bind.bind_lunit
proof (rule foreach_indexers)
  fix n and g :: index_func and c1 :: "'a thread_safe_map" and vs assume "g (meta obj) = Inr vs"
  then show "\<exists>c'. (case (n, g) of (name, indexFunc) \<Rightarrow> \<lambda>c. case indexFunc (meta obj) of Inl e \<Rightarrow> None
      | Inr indexValues \<Rightarrow> let index = fold (\<lambda>indexValue index. AList.update indexValue (List.insert k (go_get index indexValue)) index)
              indexValues (go_get (ts_indices c) name)
          in Some (c\<lparr>ts_indices := AList.update name index (ts_indices c)\<rparr>)) c1 = Some c' \<and>
      ts_items c' = ts_items c1 \<and> ts_indexers c' = ts_indexers c1 \<and>
      (\<forall>n' v. keyset c' n' v = (if n' = n \<and> v \<in> set vs then List.insert k (keyset c1 n' v) else keyset c1 n' v))"
    by (simp add: keyset_def go_get_fold_insert)
qed (use assms in \<open>auto simp: indexers_ok_def\<close>)

text \<open>The value that an index function gives an object.\<close>

definition indexed_under :: "index_func \<Rightarrow> object_meta \<Rightarrow> string \<Rightarrow> bool" where
  "indexed_under g m v \<longleftrightarrow> (case g m of Inl _ \<Rightarrow> False | Inr vs \<Rightarrow> v \<in> set vs)"

definition ts_inv :: "('o \<Rightarrow> object_meta) \<Rightarrow> 'o thread_safe_map \<Rightarrow> bool" where
  "ts_inv meta c \<longleftrightarrow> indexers_ok c \<and> distinct (map fst (ts_items c)) \<and>
     (\<forall>(k, obj)\<in>set (ts_items c). k = MetaNamespaceKeyFunc (meta obj)) \<and>
     (\<forall>n g v. map_of (ts_indexers c) n = Some g \<longrightarrow> distinct (keyset c n v) \<and>
        set (keyset c n v) = {k. \<exists>obj. map_of (ts_items c) k = Some obj \<and> indexed_under g (meta obj) v})"

lemma ts_inv_new: "indexers_ok (NewIndexer ixs) \<Longrightarrow> ts_inv meta (NewIndexer ixs)"
  by (simp add: ts_inv_def NewIndexer_def NewThreadSafeStore_def keyset_def go_get_def indexers_ok_def)

lemma ts_inv_keys: "ts_inv meta c \<Longrightarrow> map_of (ts_items c) k = Some obj \<Longrightarrow> k = MetaNamespaceKeyFunc (meta obj)"
  by (auto simp: ts_inv_def dest: map_of_SomeD)

lemma set_on_values:
  "set (on_values (removeAll k) (Some g) m v ks) = set ks - (if indexed_under g m v then {k} else {})"
  "set (on_values (List.insert k) (Some g) m v ks) = set ks \<union> (if indexed_under g m v then {k} else {})"
  "distinct ks \<Longrightarrow> distinct (on_values (removeAll k) (Some g) m v ks)"
  "distinct ks \<Longrightarrow> distinct (on_values (List.insert k) (Some g) m v ks)"
  by (auto simp: on_values_def indexed_under_def distinct_removeAll split: sum.split)

text \<open>Taking an object out of its sets leaves the sets of the other objects.\<close>

lemma delete_reindexes:
  assumes inv: "ts_inv meta c" and "map_of (ts_items c) k = Some obj"
    and d: "ts_indexers d = ts_indexers c" "\<And>n v. keyset d n v = keyset c n v"
  shows "\<exists>c'. deleteFromIndices meta obj k d = Some c' \<and> ts_items c' = ts_items d \<and> ts_indexers c' = ts_indexers c \<and>
    (\<forall>n g v. map_of (ts_indexers c) n = Some g \<longrightarrow> distinct (keyset c' n v) \<and>
       set (keyset c' n v) = {k'. k' \<noteq> k \<and> (\<exists>o'. map_of (ts_items c) k' = Some o' \<and> indexed_under g (meta o') v)})"
proof -
  from inv d(1) have "indexers_ok d" by (simp add: ts_inv_def indexers_ok_def)
  from deleteFromIndices_reindexed [OF this, of meta obj k] obtain c' where
    c': "deleteFromIndices meta obj k d = Some c'" "reindexed (removeAll k) (meta obj) d c'" by blast
  have "distinct (keyset c' n v) \<and>
      set (keyset c' n v) = {k'. k' \<noteq> k \<and> (\<exists>o'. map_of (ts_items c) k' = Some o' \<and> indexed_under g (meta o') v)}"
    if g: "map_of (ts_indexers c) n = Some g" for n g v
  proof -
    have k: "keyset c' n v = on_values (removeAll k) (Some g) (meta obj) v (keyset c n v)"
      using c'(2) g d by (simp add: reindexed_def)
    from inv g have "distinct (keyset c n v)"
      "set (keyset c n v) = {k. \<exists>obj. map_of (ts_items c) k = Some obj \<and> indexed_under g (meta obj) v}"
      by (simp_all add: ts_inv_def)
    with assms(2) show ?thesis unfolding k by (auto simp: set_on_values)
  qed
  with c' d(1) show ?thesis by (auto simp: reindexed_def)
qed

lemma ts_Add_inv:
  assumes inv: "ts_inv meta c"
  shows "\<exists>c'. ts_Add meta (MetaNamespaceKeyFunc (meta obj)) obj c = Some c' \<and> ts_inv meta c' \<and> ts_indexers c' = ts_indexers c \<and>
    map_of (ts_items c') = (map_of (ts_items c))(MetaNamespaceKeyFunc (meta obj) \<mapsto> obj)"
proof -
  let ?k = "MetaNamespaceKeyFunc (meta obj)"
  let ?c = "c\<lparr>ts_items := AList.update ?k obj (ts_items c)\<rparr>"
  obtain c1 where c1: "(case map_of (ts_items c) ?k of None \<Rightarrow> Some ?c | Some old \<Rightarrow> deleteFromIndices meta old ?k ?c) = Some c1"
    "ts_items c1 = AList.update ?k obj (ts_items c)" "ts_indexers c1 = ts_indexers c"
    "\<And>n g v. map_of (ts_indexers c) n = Some g \<Longrightarrow> distinct (keyset c1 n v) \<and>
       set (keyset c1 n v) = {k'. k' \<noteq> ?k \<and> (\<exists>o'. map_of (ts_items c) k' = Some o' \<and> indexed_under g (meta o') v)}"
  proof (cases "map_of (ts_items c) ?k")
    case None
    moreover have "keyset ?c n v = keyset c n v" for n v by (simp add: keyset_def)
    ultimately show thesis using inv by (intro that [of ?c]) (auto simp: ts_inv_def)
  next
    case (Some old)
    have "keyset ?c n v = keyset c n v" for n v by (simp add: keyset_def)
    from delete_reindexes [OF inv Some, of ?c, OF _ this] Some show thesis by (auto intro: that)
  qed
  from inv c1(3) have ok: "indexers_ok c1" by (simp add: ts_inv_def indexers_ok_def)
  from insertIntoIndices_reindexed [OF this, of meta obj ?k] obtain c2 where
    c2: "updateIndices meta None obj ?k c1 = Some c2" "reindexed (List.insert ?k) (meta obj) c1 c2" by blast
  have items: "ts_items c2 = AList.update ?k obj (ts_items c)" "ts_indexers c2 = ts_indexers c"
    using c2(2) c1 by (simp_all add: reindexed_def)
  have "distinct (keyset c2 n v) \<and>
      set (keyset c2 n v) = {k. \<exists>o'. map_of (ts_items c2) k = Some o' \<and> indexed_under g (meta o') v}"
    if g: "map_of (ts_indexers c2) n = Some g" for n g v
  proof -
    have g1: "map_of (ts_indexers c) n = Some g" using g items by simp
    have k: "keyset c2 n v = on_values (List.insert ?k) (Some g) (meta obj) v (keyset c1 n v)"
      using c2(2) g1 c1(3) by (simp add: reindexed_def)
    show ?thesis unfolding k items using c1(4) [OF g1, of v] by (auto simp: set_on_values update_conv' split: if_split_asm)
  qed
  moreover have "distinct (map fst (ts_items c2))" unfolding items using inv by (simp add: ts_inv_def distinct_update)
  moreover have "k = MetaNamespaceKeyFunc (meta ob)" if "(k, ob) \<in> set (ts_items c2)" for k ob
  proof -
    have "map_of (ts_items c2) k = Some ob" using that \<open>distinct (map fst (ts_items c2))\<close> by simp
    then show ?thesis using ts_inv_keys [OF inv, of k ob] by (auto simp: items update_conv' split: if_split_asm)
  qed
  ultimately have "ts_inv meta c2" using ok items c1(3) by (auto simp: ts_inv_def indexers_ok_def)
  moreover have "ts_Add meta ?k obj c = Some c2"
    using c1(1) c2(1) by (simp add: ts_Add_def updateIndices_def)
  ultimately show ?thesis using items by (auto simp: update_conv')
qed

lemma ts_Update_Add: "ts_Update = ts_Add"
  by (intro ext) (simp add: ts_Update_def ts_Add_def)

lemma ts_Delete_inv:
  assumes inv: "ts_inv meta c"
  shows "\<exists>c'. ts_Delete meta k c = Some c' \<and> ts_inv meta c' \<and> ts_indexers c' = ts_indexers c \<and>
    map_of (ts_items c') = (map_of (ts_items c))(k := None)"
proof (cases "map_of (ts_items c) k")
  case None
  with inv show ?thesis by (auto simp: ts_Delete_def)
next
  case (Some obj)
  from delete_reindexes [OF inv Some refl refl] obtain c1 where
    c1: "deleteFromIndices meta obj k c = Some c1" "ts_items c1 = ts_items c" "ts_indexers c1 = ts_indexers c"
    "\<forall>n g v. map_of (ts_indexers c) n = Some g \<longrightarrow> distinct (keyset c1 n v) \<and>
       set (keyset c1 n v) = {k'. k' \<noteq> k \<and> (\<exists>o'. map_of (ts_items c) k' = Some o' \<and> indexed_under g (meta o') v)}" by blast
  let ?c = "c1\<lparr>ts_items := AList.delete k (ts_items c1)\<rparr>"
  have "keyset ?c n v = keyset c1 n v" for n v by (simp add: keyset_def)
  moreover have "k' = MetaNamespaceKeyFunc (meta o')" if "(k', o') \<in> set (AList.delete k (ts_items c))" for k' o'
    using that inv by (auto simp: AList.delete_eq ts_inv_def)
  ultimately have "ts_inv meta ?c"
    using c1 inv by (auto simp: ts_inv_def indexers_ok_def delete_conv' distinct_delete split: if_split_asm)
  with Some c1 show ?thesis by (intro exI [of _ ?c]) (simp add: ts_Delete_def delete_conv')
qed

section \<open>What the handlers are told\<close>

text \<open>A handler that keeps the objects it is told of; none if it is told something that cannot be.\<close>

definition mirror :: "('o \<Rightarrow> object_meta) \<Rightarrow> 'o notification \<Rightarrow> (string \<rightharpoonup> 'o) \<Rightarrow> (string \<rightharpoonup> 'o) option" where
  "mirror meta n m =
     (case n of
        addNotification obj \<Rightarrow>
          if m (MetaNamespaceKeyFunc (meta obj)) = None then Some (m(MetaNamespaceKeyFunc (meta obj) \<mapsto> obj)) else None
      | updateNotification old obj \<Rightarrow>
          if MetaNamespaceKeyFunc (meta old) = MetaNamespaceKeyFunc (meta obj) \<and> m (MetaNamespaceKeyFunc (meta obj)) = Some old
          then Some (m(MetaNamespaceKeyFunc (meta obj) \<mapsto> obj)) else None
      | deleteNotification obj \<Rightarrow> Some (m(DeletionHandlingMetaNamespaceKeyFunc meta obj := None)))"

lemma set_object_step:
  assumes inv: "ts_inv meta c"
  shows "\<exists>c' n. set_object meta obj b (c, sent) = Some (c', sent @ [(n, b)]) \<and> ts_inv meta c' \<and>
    ts_indexers c' = ts_indexers c \<and> mirror meta n (map_of (ts_items c)) = Some (map_of (ts_items c'))"
proof -
  let ?k = "MetaNamespaceKeyFunc (meta obj)"
  from ts_Add_inv [OF inv, of obj] obtain c' where c': "ts_Add meta ?k obj c = Some c'" "ts_inv meta c'"
    "ts_indexers c' = ts_indexers c" "map_of (ts_items c') = (map_of (ts_items c))(?k \<mapsto> obj)" by blast
  show ?thesis
  proof (cases "map_of (ts_items c) ?k")
    case None
    with c' show ?thesis by (intro exI [of _ c'] exI [of _ "addNotification obj"]) (simp add: mirror_def set_object_def)
  next
    case (Some old)
    with c' ts_inv_keys [OF inv Some] show ?thesis
      by (intro exI [of _ c'] exI [of _ "updateNotification old obj"]) (simp add: mirror_def set_object_def ts_Update_Add)
  qed
qed

lemma handle_delta_step:
  assumes inv: "ts_inv meta c"
  shows "\<exists>c' n b. handle_delta meta d (c, sent) = Some (c', sent @ [(n, b)]) \<and> ts_inv meta c' \<and>
    ts_indexers c' = ts_indexers c \<and> mirror meta n (map_of (ts_items c)) = Some (map_of (ts_items c'))"
proof (cases d)
  case (DeltaDeleted obj)
  from ts_Delete_inv [OF inv, of "DeletionHandlingMetaNamespaceKeyFunc meta obj"] show ?thesis
    unfolding DeltaDeleted by (auto simp: handle_delta_def mirror_def)
qed (use set_object_step [OF inv] in \<open>simp_all add: handle_delta_def\<close>, meson+)

lemma handle_deltas:
  assumes "ts_inv meta c"
  shows "\<exists>c' new. foreach (handle_delta meta) ds (c, sent) = Some (c', sent @ new) \<and> ts_inv meta c' \<and>
    ts_indexers c' = ts_indexers c \<and> length new = length ds \<and>
    foreach (mirror meta) (map fst new) (map_of (ts_items c)) = Some (map_of (ts_items c'))"
  using assms
proof (induction ds arbitrary: c sent)
  case (Cons d ds)
  from handle_delta_step [OF Cons.prems, of d sent] obtain c1 n b where
    1: "handle_delta meta d (c, sent) = Some (c1, sent @ [(n, b)])" "ts_inv meta c1" "ts_indexers c1 = ts_indexers c"
    "mirror meta n (map_of (ts_items c)) = Some (map_of (ts_items c1))" by blast
  from Cons.IH [OF 1(2), of "sent @ [(n, b)]"] obtain c2 new where
    2: "foreach (handle_delta meta) ds (c1, sent @ [(n, b)]) = Some (c2, (sent @ [(n, b)]) @ new)" "ts_inv meta c2"
    "ts_indexers c2 = ts_indexers c1" "length new = length ds"
    "foreach (mirror meta) (map fst new) (map_of (ts_items c1)) = Some (map_of (ts_items c2))" by blast
  with 1 show ?case by (intro exI [of _ c2] exI [of _ "(n, b) # new"]) simp
qed simp

lemma deltas_mirrored:
  assumes "ts_inv meta c"
  shows "\<exists>c' sent. HandleDeltas meta ds c = Some (c', sent) \<and> ts_inv meta c' \<and> ts_indexers c' = ts_indexers c \<and>
    length sent = length ds \<and> foreach (mirror meta) (map fst sent) (map_of (ts_items c)) = Some (map_of (ts_items c'))"
  using handle_deltas [OF assms, of ds "[]"] by (simp add: HandleDeltas_def)

section \<open>What the listers list\<close>

lemma foreach_select:
  assumes "\<And>x ret. body (Some x) (Inr ret) = Some (Inr (if P x then ret @ [x] else ret))"
  shows "foreach body (map Some xs) (Inr acc) = Some (Inr (acc @ filter P xs))"
  by (induction xs arbitrary: acc) (simp_all add: assms)

lemma append_selected_objs:
  "append_selected meta sel (map Some xs) = Some (Inr (filter (\<lambda>m. Selector_Matches sel (mt_Labels (meta m))) xs))"
  unfolding append_selected_def
  by (rule foreach_select [where P = "\<lambda>m. Selector_Matches sel (mt_Labels (meta m))" and acc = "[]", simplified])
    (simp add: Selector_Empty_Matches)

lemma store_ListAll_eq:
  "store_ListAll meta c sel = Some (ListAll (\<lambda>m. mt_Labels (meta m)) (ts_List c) sel)"
  by (simp add: store_ListAll_def append_selected_objs ListAll_eq)

text \<open>The objects of a namespace, through the index.\<close>

lemma namespace_index:
  assumes inv: "ts_inv meta c" and "map_of (ts_indexers c) NamespaceIndex = Some MetaNamespaceIndexFunc"
  shows "\<exists>xs. ts_Index NamespaceIndex \<lparr>mt_Namespace = ns, mt_Name = n, mt_Labels = l\<rparr> c = Inr (map Some xs) \<and>
    mset xs = mset (filter (\<lambda>m. mt_Namespace (meta m) = ns) (ts_List c))"
proof -
  let ?ks = "keyset c NamespaceIndex ns" and ?in = "filter (\<lambda>(k, obj). mt_Namespace (meta obj) = ns) (ts_items c)"
  from inv assms(2) have ks: "distinct ?ks"
    "set ?ks = {k. \<exists>obj. map_of (ts_items c) k = Some obj \<and> indexed_under MetaNamespaceIndexFunc (meta obj) ns}"
    by (simp_all add: ts_inv_def)
  have d: "distinct (map fst (ts_items c))" using inv by (simp add: ts_inv_def)
  have get: "map (map_of (ts_items c)) (map fst ys) = map Some (map snd ys)" if "set ys \<subseteq> set (ts_items c)" for ys
    using that map_of_is_SomeI [OF d] by (induction ys) auto
  have "set ?ks = set (map fst ?in)"
    using d by (force simp: ks(2) indexed_under_def MetaNamespaceIndexFunc_def)
  moreover have "distinct (map fst ?in)" using d by (simp add: distinct_map_filter)
  ultimately have "mset ?ks = mset (map fst ?in)" using ks(1) set_eq_iff_mset_eq_distinct by blast
  then have "mset (map (map_of (ts_items c)) ?ks) = mset (map (map_of (ts_items c)) (map fst ?in))" by (metis mset_map)
  also have "map (map_of (ts_items c)) (map fst ?in) = map Some (map snd ?in)" by (rule get) auto
  finally have m: "mset (map (map_of (ts_items c)) ?ks) = mset (map Some (map snd ?in))" .
  have objs: "x \<noteq> None" if "x \<in> set (map (map_of (ts_items c)) ?ks)" for x using that mset_eq_setD [OF m] by auto
  have "map Some (map the (map (map_of (ts_items c)) ?ks)) = map (map_of (ts_items c)) ?ks"
    unfolding map_map using objs by (intro map_cong) auto
  moreover have "mset (map the (map (map_of (ts_items c)) ?ks)) = mset (map the (map Some (map snd ?in)))"
    using m by (metis mset_map)
  moreover have "map the (map Some (map snd ?in)) = filter (\<lambda>m. mt_Namespace (meta m) = ns) (ts_List c)"
    by (auto simp: ts_List_def filter_map comp_def intro!: arg_cong [where f = "map snd"] filter_cong)
  moreover have "ts_Index NamespaceIndex \<lparr>mt_Namespace = ns, mt_Name = n, mt_Labels = l\<rparr> c = Inr (map (map_of (ts_items c)) ?ks)"
    using assms(2) by (simp add: ts_Index_def MetaNamespaceIndexFunc_def keyset_def)
  ultimately show ?thesis by (intro exI [of _ "map the (map (map_of (ts_items c)) ?ks)"]) metis
qed

lemma index_ListAllByNamespace_eq:
  assumes inv: "ts_inv meta c" and ix: "map_of (ts_indexers c) NamespaceIndex \<in> {None, Some MetaNamespaceIndexFunc}"
  shows "\<exists>xs. index_ListAllByNamespace meta c ns sel = Some (Inr xs) \<and>
    mset xs = mset (filter (\<lambda>m. (ns = '''' \<or> mt_Namespace (meta m) = ns) \<and> Selector_Matches sel (mt_Labels (meta m))) (ts_List c))"
proof (cases "ns = ''''")
  case True
  then show ?thesis by (simp add: index_ListAllByNamespace_def append_selected_objs)
next
  case ns: False
  show ?thesis
  proof (cases "map_of (ts_indexers c) NamespaceIndex")
    case None
    with ns show ?thesis by (simp add: index_ListAllByNamespace_def ts_Index_def)
  next
    case (Some g)
    with ix have "map_of (ts_indexers c) NamespaceIndex = Some MetaNamespaceIndexFunc" by simp
    from namespace_index [OF inv this, of ns "''''" "[]"] obtain xs where
      xs: "ts_Index NamespaceIndex \<lparr>mt_Namespace = ns, mt_Name = '''', mt_Labels = []\<rparr> c = Inr (map Some xs)"
      "mset xs = mset (filter (\<lambda>m. mt_Namespace (meta m) = ns) (ts_List c))" by blast
    have "mset (filter (\<lambda>m. Selector_Matches sel (mt_Labels (meta m))) xs) =
        mset (filter (\<lambda>m. Selector_Matches sel (mt_Labels (meta m))) (filter (\<lambda>m. mt_Namespace (meta m) = ns) (ts_List c)))"
      using xs(2) by (metis mset_filter)
    with ns xs(1) show ?thesis by (simp add: index_ListAllByNamespace_def append_selected_objs conj_commute)
  qed
qed

section \<open>The caches of a daemon\<close>

definition pod_meta :: "Pod \<Rightarrow> object_meta" where
  "pod_meta p = \<lparr>mt_Namespace = pod_Namespace p, mt_Name = pod_Name p, mt_Labels = pod_Labels p\<rparr>"

definition namespace_meta :: "Namespace \<Rightarrow> object_meta" where
  "namespace_meta n = \<lparr>mt_Namespace = '''', mt_Name = ns_Name n, mt_Labels = ns_Labels n\<rparr>"

definition netpol_meta :: "NetworkPolicy \<Rightarrow> object_meta" where
  "netpol_meta n = \<lparr>mt_Namespace = np_Namespace n, mt_Name = np_Name n, mt_Labels = np_Labels n\<rparr>"

lemmas metas = pod_meta_def namespace_meta_def netpol_meta_def vswitch_meta_def

text \<open>The index that every informer of the binaries has.\<close>

definition namespace_indexers :: "(string \<times> index_func) list" where
  "namespace_indexers = [(NamespaceIndex, MetaNamespaceIndexFunc)]"

record caches =
  pod_cache :: "Pod thread_safe_map"
  namespace_cache :: "Namespace thread_safe_map"
  netpol_cache :: "NetworkPolicy thread_safe_map"
  vswitch_cache :: "VSwitchConfig thread_safe_map"

definition contents :: "caches \<Rightarrow> store" where
  "contents cs = \<lparr>st_pods = ts_List (pod_cache cs), st_namespaces = ts_List (namespace_cache cs),
     st_netpols = ts_List (netpol_cache cs), st_vswitches = ts_List (vswitch_cache cs)\<rparr>"

text \<open>A panic of a lister shows as an error that no lister returns.\<close>

definition panic_error :: "(err + 'a) option \<Rightarrow> err + 'a" where
  "panic_error r = (case r of None \<Rightarrow> Inl (ErrorMsg ''panic'') | Some r \<Rightarrow> r)"

definition indexed_listers :: "caches \<Rightarrow> listers" where
  "indexed_listers cs =
     \<lparr>podLister_List = (\<lambda>sel. panic_error (store_ListAll pod_meta (pod_cache cs) sel)),
      podLister_Pods_List = (\<lambda>ns sel. panic_error (index_ListAllByNamespace pod_meta (pod_cache cs) ns sel)),
      nsLister_List = (\<lambda>sel. panic_error (store_ListAll namespace_meta (namespace_cache cs) sel)),
      netPolLister_List = (\<lambda>sel. panic_error (store_ListAll netpol_meta (netpol_cache cs) sel)),
      vswitchLister_List = (\<lambda>sel. panic_error (lister_List (NewVSwitchConfigLister (vswitch_cache cs)) sel))\<rparr>"

text \<open>A cache that deltas have filled.\<close>

definition filled :: "('o \<Rightarrow> object_meta) \<Rightarrow> 'o thread_safe_map \<Rightarrow> bool" where
  "filled meta c \<longleftrightarrow> (\<exists>ds sent. HandleDeltas meta ds (NewIndexer namespace_indexers) = Some (c, sent))"

lemma namespace_indexers_ok: "indexers_ok (NewIndexer namespace_indexers)"
  by (simp add: indexers_ok_def NewIndexer_def NewThreadSafeStore_def namespace_indexers_def MetaNamespaceIndexFunc_def)

lemma filled_inv:
  assumes "filled meta c"
  shows "ts_inv meta c" "map_of (ts_indexers c) NamespaceIndex = Some MetaNamespaceIndexFunc"
proof -
  from assms obtain ds sent where d: "HandleDeltas meta ds (NewIndexer namespace_indexers) = Some (c, sent)"
    unfolding filled_def by blast
  from deltas_mirrored [OF ts_inv_new [OF namespace_indexers_ok], of meta ds] d
  show "ts_inv meta c" "map_of (ts_indexers c) NamespaceIndex = Some MetaNamespaceIndexFunc"
    by (auto simp: NewIndexer_def NewThreadSafeStore_def namespace_indexers_def)
qed

lemma ListAll_contract: "panic_error (store_ListAll meta c sel) = Inr (filter (\<lambda>m. Selector_Matches sel (mt_Labels (meta m))) (ts_List c))"
  by (simp add: store_ListAll_eq panic_error_def ListAll_eq)

lemma indexed_lister_contract:
  assumes "filled pod_meta (pod_cache cs)"
  shows "lister_contract (indexed_listers cs) (contents cs)"
proof unfold_locales
  fix ns sel
  from index_ListAllByNamespace_eq [OF filled_inv(1) [OF assms], of ns sel] filled_inv(2) [OF assms] obtain xs where
    xs: "index_ListAllByNamespace pod_meta (pod_cache cs) ns sel = Some (Inr xs)"
    "mset xs = mset (filter (\<lambda>p. (ns = '''' \<or> pod_Namespace p = ns) \<and> Selector_Matches sel (pod_Labels p)) (ts_List (pod_cache cs)))"
    by (auto simp: metas)
  then show "\<exists>ps. podLister_Pods_List (indexed_listers cs) ns sel = Inr ps \<and>
      set ps = {p \<in> set (st_pods (contents cs)). (ns = [] \<or> pod_Namespace p = ns) \<and> Selector_Matches sel (pod_Labels p)}"
    using mset_eq_setD [OF xs(2)] by (auto simp: indexed_listers_def contents_def panic_error_def)
qed (auto simp: indexed_listers_def contents_def ListAll_contract lister_List_def NewVSwitchConfigLister_def metas)

lemma lister_Get_eq:
  assumes "filled vswitch_meta c"
  shows "lister_Get (NewVSwitchConfigLister c) name = vswitchLister_Get (ts_List c) name"
proof -
  have "find (\<lambda>v. vs_Name v = name) (map snd xs) = map_of xs name"
    if "\<forall>(k, v)\<in>set xs. k = vs_Name v" for xs :: "(string \<times> VSwitchConfig) list"
    using that by (induction xs) auto
  moreover have "\<forall>(k, v)\<in>set (ts_items c). k = vs_Name v"
    using filled_inv(1) [OF assms] by (auto simp: ts_inv_def MetaNamespaceKeyFunc_def metas)
  ultimately show ?thesis by (simp add: lister_Get_def NewVSwitchConfigLister_def vswitchLister_Get_def ts_List_def)
qed

lemma SplitMetaNamespaceKey_key:
  assumes "CHR ''/'' \<notin> set (mt_Namespace m)" "CHR ''/'' \<notin> set (mt_Name m)"
  shows "SplitMetaNamespaceKey (MetaNamespaceKeyFunc m) = Inr (mt_Namespace m, mt_Name m)"
  using assms by (simp add: SplitMetaNamespaceKey_def MetaNamespaceKeyFunc_def Split_append Split_no_sep)

end
