(* ===== verification/Registration.thy ===== *)
theory Registration
  imports FakeClient
begin

text \<open>
  How the API types get into the schemes of the clients: \<^verbatim>\<open>apis/kvswitch/v1alpha1/register.go\<close>, and the \<^verbatim>\<open>register.go\<close> of the
  client and of the fake client below \<^verbatim>\<open>apis/generated/clientset/versioned\<close>, over the vendored \<^verbatim>\<open>runtime.Scheme\<close> and
  \<^verbatim>\<open>metav1.AddToGroupVersion\<close>.  What \<^verbatim>\<open>reflect\<close> knows of a type is its package and its name; every object that is registered is a
  pointer to a struct.  Registering a kind twice for different types is a panic.  Conversions and defaults are left out.
  \<open>resources_of\<close> is how the fake client's tracker finds the resource of an object that it is created with.

  \<open>scheme_inv\<close>: the two directions of a scheme agree; \<open>known_types_added\<close>: what a registration adds;
  \<open>clientsets_compose\<close>: a client set registers its types in a scheme that others have filled, and takes nothing away;
  \<open>preloaded_resource\<close>: the fake client looks for its objects where its tracker has put them.
\<close>

section \<open>Schemes\<close>

record GVK =
  gvk_Group :: string
  gvk_Version :: string
  gvk_Kind :: string

datatype go_type = Go_type (PkgPath: string) (type_Name: string)

record scheme =
  gvkToType :: "GVK \<rightharpoonup> go_type"
  typeToGVK :: "go_type \<Rightarrow> GVK list"
  unversionedTypes :: "go_type \<rightharpoonup> GVK"
  unversionedKinds :: "string \<rightharpoonup> go_type"
  observedVersions :: "(string \<times> string) list"

definition NewScheme :: scheme where
  "NewScheme = \<lparr>gvkToType = Map.empty, typeToGVK = (\<lambda>t. []), unversionedTypes = Map.empty, unversionedKinds = Map.empty,
     observedVersions = []\<rparr>"

definition WithKind :: "string \<times> string \<Rightarrow> string \<Rightarrow> GVK" where
  "WithKind gv kind = \<lparr>gvk_Group = fst gv, gvk_Version = snd gv, gvk_Kind = kind\<rparr>"

definition APIVersionInternal :: string where
  "APIVersionInternal = ''__internal''"

definition addObservedVersion :: "string \<times> string \<Rightarrow> scheme \<Rightarrow> scheme" where
  "addObservedVersion version s =
     (if snd version = '''' \<or> snd version = APIVersionInternal then s
      else if version \<in> set (observedVersions s) then s
      else s\<lparr>observedVersions := observedVersions s @ [version]\<rparr>)"

definition AddKnownTypeWithName :: "GVK \<Rightarrow> go_type \<Rightarrow> scheme \<Rightarrow> scheme option" where
  "AddKnownTypeWithName gvk t s =
     (let s = addObservedVersion (gvk_Group gvk, gvk_Version gvk) s in
      if gvk_Version gvk = '''' then None
      else if (case gvkToType s gvk of None \<Rightarrow> False | Some oldT \<Rightarrow> oldT \<noteq> t) then None
      else
        (let s = s\<lparr>gvkToType := (gvkToType s)(gvk \<mapsto> t)\<rparr> in
         if gvk \<in> set (typeToGVK s t) then Some s
         else Some (s\<lparr>typeToGVK := (typeToGVK s)(t := typeToGVK s t @ [gvk])\<rparr>)))"

definition AddKnownTypes :: "string \<times> string \<Rightarrow> go_type list \<Rightarrow> scheme \<Rightarrow> scheme option" where
  "AddKnownTypes gv types s =
     foreach (\<lambda>t s. AddKnownTypeWithName (WithKind gv (type_Name t)) t s) types (addObservedVersion gv s)"

definition AddUnversionedTypes :: "string \<times> string \<Rightarrow> go_type list \<Rightarrow> scheme \<Rightarrow> scheme option" where
  "AddUnversionedTypes version types s =
     do { s \<leftarrow> AddKnownTypes version types (addObservedVersion version s);
       foreach (\<lambda>t s.
         let gvk = WithKind version (type_Name t);
             s = s\<lparr>unversionedTypes := (unversionedTypes s)(t \<mapsto> gvk)\<rparr>
         in if (case unversionedKinds s (gvk_Kind gvk) of None \<Rightarrow> False | Some old \<Rightarrow> t \<noteq> old) then None
            else Some (s\<lparr>unversionedKinds := (unversionedKinds s)(gvk_Kind gvk \<mapsto> t)\<rparr>)) types s }"

definition Recognizes :: "GVK \<Rightarrow> scheme \<Rightarrow> bool" where
  "Recognizes gvk s \<longleftrightarrow> gvkToType s gvk \<noteq> None"

definition ObjectKinds :: "go_type \<Rightarrow> scheme \<Rightarrow> err + (GVK list \<times> bool)" where
  "ObjectKinds t s =
     (if typeToGVK s t = [] then Inl (ErrorMsg ''no kind is registered for the type'')
      else Inr (typeToGVK s t, unversionedTypes s t \<noteq> None))"

definition scheme_New :: "GVK \<Rightarrow> scheme \<Rightarrow> err + go_type" where
  "scheme_New kind s =
     (case gvkToType s kind of
        Some t \<Rightarrow> Inr t
      | None \<Rightarrow>
          (case unversionedKinds s (gvk_Kind kind) of Some t \<Rightarrow> Inr t | None \<Rightarrow> Inl (ErrorMsg ''no kind is registered'')))"

section \<open>The types of the API machinery\<close>

definition metav1_type :: "string \<Rightarrow> go_type" where
  "metav1_type name = Go_type ''k8s.io/apimachinery/pkg/apis/meta/v1'' name"

definition WatchEventKind :: string where
  "WatchEventKind = ''WatchEvent''"

definition metav1_options :: "go_type list" where
  "metav1_options = map metav1_type [''ListOptions'', ''ExportOptions'', ''GetOptions'', ''DeleteOptions'', ''CreateOptions'',
     ''UpdateOptions'', ''PatchOptions'']"

definition metav1_unversioned :: "go_type list" where
  "metav1_unversioned = map metav1_type [''Status'', ''APIVersions'', ''APIGroupList'', ''APIGroup'', ''APIResourceList'']"

definition AddToGroupVersion :: "string \<times> string \<Rightarrow> scheme \<Rightarrow> scheme option" where
  "AddToGroupVersion groupVersion s =
     do { s \<leftarrow> AddKnownTypeWithName (WithKind groupVersion WatchEventKind) (metav1_type ''WatchEvent'') s;
       s \<leftarrow> AddKnownTypeWithName (WithKind (fst groupVersion, APIVersionInternal) WatchEventKind) (metav1_type ''InternalEvent'') s;
       s \<leftarrow> AddKnownTypes groupVersion metav1_options s;
       AddUnversionedTypes ('''', ''v1'') metav1_unversioned s }"

section \<open>The types of the repository\<close>

definition v1alpha1_Kind :: "string \<Rightarrow> string \<times> string" where
  "v1alpha1_Kind kind = (let gvk = WithKind SchemeGroupVersion kind in (gvk_Group gvk, gvk_Kind gvk))"

definition v1alpha1_Resource :: "string \<Rightarrow> string \<times> string" where
  "v1alpha1_Resource resource = (fst SchemeGroupVersion, resource)"

definition v1alpha1_type :: "string \<Rightarrow> go_type" where
  "v1alpha1_type name = Go_type ''github.com/k-vswitch/k-vswitch/apis/kvswitch/v1alpha1'' name"

text \<open>A function of a scheme builder returns an error, or panics.\<close>

definition addKnownTypes :: "scheme \<Rightarrow> (err option \<times> scheme) option" where
  "addKnownTypes s =
     do { s \<leftarrow> AddKnownTypes SchemeGroupVersion [v1alpha1_type ''VSwitchConfig'', v1alpha1_type ''VSwitchConfigList''] s;
       s \<leftarrow> AddToGroupVersion SchemeGroupVersion s;
       Some (None, s) }"

primrec AddToScheme :: "(scheme \<Rightarrow> (err option \<times> scheme) option) list \<Rightarrow> scheme \<Rightarrow> (err option \<times> scheme) option" where
  "AddToScheme [] s = Some (None, s)"
| "AddToScheme (f # sb) s =
     (case f s of
        None \<Rightarrow> None
      | Some (Some err, s) \<Rightarrow> Some (Some err, s)
      | Some (None, s) \<Rightarrow> AddToScheme sb s)"

definition SchemeBuilder :: "(scheme \<Rightarrow> (err option \<times> scheme) option) list" where
  "SchemeBuilder = [addKnownTypes]"

definition localSchemeBuilder :: "(scheme \<Rightarrow> (err option \<times> scheme) option) list" where
  "localSchemeBuilder = [AddToScheme SchemeBuilder]"

text \<open>\<^verbatim>\<open>init\<close> of the client's scheme; \<^verbatim>\<open>Must\<close> panics on an error.\<close>

definition scheme_init :: "scheme \<Rightarrow> scheme option" where
  "scheme_init s =
     do { s \<leftarrow> AddToGroupVersion ('''', ''v1'') s;
       (err, s) \<leftarrow> AddToScheme localSchemeBuilder s;
       if err = None then Some s else None }"

text \<open>The fake client set has a scheme of its own, filled in the same way.\<close>

definition fake_localSchemeBuilder :: "(scheme \<Rightarrow> (err option \<times> scheme) option) list" where
  "fake_localSchemeBuilder = [AddToScheme SchemeBuilder]"

definition fake_scheme_init :: "scheme \<Rightarrow> scheme option" where
  "fake_scheme_init s =
     do { s \<leftarrow> AddToGroupVersion ('''', ''v1'') s;
       (err, s) \<leftarrow> AddToScheme fake_localSchemeBuilder s;
       if err = None then Some s else None }"

section \<open>The two directions agree\<close>

definition scheme_inv :: "scheme \<Rightarrow> bool" where
  "scheme_inv s \<longleftrightarrow> (\<forall>gvk t. gvkToType s gvk = Some t \<longleftrightarrow> gvk \<in> set (typeToGVK s t)) \<and> (\<forall>t. distinct (typeToGVK s t))"

lemma observed_fields [simp]:
  "gvkToType (addObservedVersion v s) = gvkToType s" "typeToGVK (addObservedVersion v s) = typeToGVK s"
  "unversionedTypes (addObservedVersion v s) = unversionedTypes s" "unversionedKinds (addObservedVersion v s) = unversionedKinds s"
  by (simp_all add: addObservedVersion_def)

lemma NewScheme_inv: "scheme_inv NewScheme"
  by (simp add: scheme_inv_def NewScheme_def)

text \<open>A registration of a kind either finds it taken, or adds it.\<close>

lemma AddKnownTypeWithName_result:
  assumes "AddKnownTypeWithName gvk t s = Some s'"
  shows "gvkToType s' = (gvkToType s)(gvk \<mapsto> t)" "gvkToType s gvk \<in> {None, Some t}"
    "scheme_inv s \<Longrightarrow> scheme_inv s'" "unversionedKinds s' = unversionedKinds s"
proof -
  from assms show "gvkToType s' = (gvkToType s)(gvk \<mapsto> t)" "gvkToType s gvk \<in> {None, Some t}" "unversionedKinds s' = unversionedKinds s"
    by (auto simp: AddKnownTypeWithName_def Let_def split: if_split_asm option.split_asm)
  assume inv: "scheme_inv s"
  have iff: "gvkToType s g = Some u \<longleftrightarrow> g \<in> set (typeToGVK s u)" and dist: "distinct (typeToGVK s u)" for g u
    using inv by (simp_all add: scheme_inv_def)
  show "scheme_inv s'"
  proof (cases "gvk \<in> set (typeToGVK s t)")
    case True
    then have "gvkToType s gvk = Some t" by (simp only: iff)
    with assms True have "s' = addObservedVersion (gvk_Group gvk, gvk_Version gvk) s\<lparr>gvkToType := (gvkToType s)(gvk \<mapsto> t)\<rparr>"
      by (simp add: AddKnownTypeWithName_def Let_def split: if_split_asm)
    moreover have "(gvkToType s)(gvk \<mapsto> t) = gvkToType s" using \<open>gvkToType s gvk = Some t\<close> by (simp add: fun_upd_idem)
    ultimately have "gvkToType s' = gvkToType s" "typeToGVK s' = typeToGVK s" by simp_all
    with inv show ?thesis by (simp add: scheme_inv_def)
  next
    case False
    with assms iff [of gvk t] have new: "gvkToType s gvk = None"
      by (auto simp: AddKnownTypeWithName_def Let_def split: if_split_asm option.split_asm)
    with assms False have s': "gvkToType s' = (gvkToType s)(gvk \<mapsto> t)" "typeToGVK s' = (typeToGVK s)(t := typeToGVK s t @ [gvk])"
      by (auto simp: AddKnownTypeWithName_def Let_def split: if_split_asm)
    have fresh: "gvk \<notin> set (typeToGVK s u)" for u using iff [of gvk u] new by simp
    show ?thesis unfolding scheme_inv_def s'
    proof (intro conjI allI)
      fix g u
      show "(((gvkToType s)(gvk \<mapsto> t)) g = Some u) \<longleftrightarrow> g \<in> set (((typeToGVK s)(t := typeToGVK s t @ [gvk])) u)"
        by (cases "u = t"; cases "g = gvk") (simp_all add: fresh iff)
      show "distinct (((typeToGVK s)(t := typeToGVK s t @ [gvk])) u)"
        by (cases "u = t") (simp_all add: dist fresh)
    qed
  qed
qed

lemma AddKnownTypeWithName_total:
  "gvk_Version gvk \<noteq> '''' \<Longrightarrow> gvkToType s gvk \<in> {None, Some t} \<Longrightarrow> \<exists>s'. AddKnownTypeWithName gvk t s = Some s'"
  by (auto simp: AddKnownTypeWithName_def Let_def)

text \<open>What a list of registrations adds: every type under its own name; whatever the scheme knew stays.\<close>

lemma known_types_added:
  assumes "AddKnownTypes gv types s = Some s'" "scheme_inv s"
  shows "scheme_inv s'" "gvkToType s \<subseteq>\<^sub>m gvkToType s'" "\<forall>t\<in>set types. gvkToType s' (WithKind gv (type_Name t)) = Some t"
    "unversionedKinds s' = unversionedKinds s"
proof -
  have "scheme_inv s' \<and> gvkToType s \<subseteq>\<^sub>m gvkToType s' \<and> (\<forall>t\<in>set types. gvkToType s' (WithKind gv (type_Name t)) = Some t) \<and>
      unversionedKinds s' = unversionedKinds s"
    if "foreach (\<lambda>t s. AddKnownTypeWithName (WithKind gv (type_Name t)) t s) types s = Some s'" "scheme_inv s" for s
    using that
  proof (induction types arbitrary: s)
    case (Cons t types)
    then obtain r where r: "AddKnownTypeWithName (WithKind gv (type_Name t)) t s = Some r"
      and rest: "foreach (\<lambda>t s. AddKnownTypeWithName (WithKind gv (type_Name t)) t s) types r = Some s'"
      by (auto split: bind_splits)
    note one = AddKnownTypeWithName_result [OF r]
    have "gvkToType s \<subseteq>\<^sub>m gvkToType r" using one(1,2) by (auto simp: map_le_def)
    moreover from Cons.IH [OF rest one(3) [OF Cons.prems(2)]] one(4)
    have "scheme_inv s'" "gvkToType r \<subseteq>\<^sub>m gvkToType s'" "\<forall>t\<in>set types. gvkToType s' (WithKind gv (type_Name t)) = Some t"
      "unversionedKinds s' = unversionedKinds s" by simp_all
    moreover have "gvkToType s' (WithKind gv (type_Name t)) = Some t"
      using \<open>gvkToType r \<subseteq>\<^sub>m gvkToType s'\<close> one(1) by (auto simp: map_le_def)
    ultimately show ?case by (auto intro: map_le_trans)
  qed simp
  from this [of "addObservedVersion gv s"] assms
  show "scheme_inv s'" "gvkToType s \<subseteq>\<^sub>m gvkToType s'" "\<forall>t\<in>set types. gvkToType s' (WithKind gv (type_Name t)) = Some t"
    "unversionedKinds s' = unversionedKinds s"
    by (simp_all add: AddKnownTypes_def scheme_inv_def)
qed

text \<open>Registration needs a version, and kinds that are free or hold the same types already; registering again changes nothing
  the scheme knows.\<close>

lemma AddKnownTypes_total:
  assumes "snd gv \<noteq> ''''" "\<forall>t\<in>set types. gvkToType s (WithKind gv (type_Name t)) \<in> {None, Some t}"
    "distinct (map type_Name types)"
  shows "\<exists>s'. AddKnownTypes gv types s = Some s'"
proof -
  have "\<exists>s'. foreach (\<lambda>t s. AddKnownTypeWithName (WithKind gv (type_Name t)) t s) types s = Some s'"
    if "\<forall>t\<in>set types. gvkToType s (WithKind gv (type_Name t)) \<in> {None, Some t}" "distinct (map type_Name types)" for s
    using that
  proof (induction types arbitrary: s)
    case (Cons t types)
    have "gvk_Version (WithKind gv (type_Name t)) \<noteq> ''''" using assms(1) by (simp add: WithKind_def)
    then obtain r where r: "AddKnownTypeWithName (WithKind gv (type_Name t)) t s = Some r"
      using AddKnownTypeWithName_total [of "WithKind gv (type_Name t)" s t] Cons.prems(1) by auto
    have "gvkToType r (WithKind gv (type_Name u)) \<in> {None, Some u}" if "u \<in> set types" for u
    proof -
      have "type_Name u \<noteq> type_Name t" using Cons.prems(2) that by (simp, metis imageI)
      then have "WithKind gv (type_Name u) \<noteq> WithKind gv (type_Name t)" by (simp add: WithKind_def)
      then show ?thesis using Cons.prems(1) that by (simp add: AddKnownTypeWithName_result(1) [OF r])
    qed
    then obtain s' where "foreach (\<lambda>t s. AddKnownTypeWithName (WithKind gv (type_Name t)) t s) types r = Some s'"
      using Cons.IH [of r] Cons.prems(2) by fastforce
    with r show ?case by simp
  qed simp
  from this [of "addObservedVersion gv s"] assms(2,3) show ?thesis by (simp add: AddKnownTypes_def)
qed

section \<open>Client sets compose\<close>

text \<open>Two schemes are compared by the types they know.\<close>

definition extends :: "scheme \<Rightarrow> scheme \<Rightarrow> bool" where
  "extends s s' \<longleftrightarrow> (scheme_inv s \<longrightarrow> scheme_inv s') \<and> gvkToType s \<subseteq>\<^sub>m gvkToType s'"

lemma extends_refl [simp, intro]: "extends s s"
  by (simp add: extends_def)

lemma extends_trans [trans]: "extends r s \<Longrightarrow> extends s t \<Longrightarrow> extends r t"
  unfolding extends_def by (blast intro: map_le_trans)

lemma AddKnownTypeWithName_extends:
  "AddKnownTypeWithName gvk t s = Some s' \<Longrightarrow> extends s s'"
  using AddKnownTypeWithName_result [of gvk t s s'] by (auto simp: extends_def map_le_def)

lemma foreach_extends:
  assumes "\<And>x s s'. body x s = Some s' \<Longrightarrow> extends s s'" "foreach body xs s = Some s'"
  shows "extends s s'"
  using assms(2)
proof (induction xs arbitrary: s)
  case (Cons x xs)
  then obtain r where "body x s = Some r" "foreach body xs r = Some s'" by (auto split: bind_splits)
  with assms(1) Cons.IH show ?case by (blast intro: extends_trans)
qed simp

lemma observed_extends: "extends s (addObservedVersion v s)"
  by (simp add: extends_def scheme_inv_def)

lemma AddKnownTypes_extends: "AddKnownTypes gv types s = Some s' \<Longrightarrow> extends s s'"
  unfolding AddKnownTypes_def
  by (rule extends_trans [OF observed_extends foreach_extends]) (auto intro: AddKnownTypeWithName_extends)

lemma AddUnversionedTypes_extends:
  assumes "AddUnversionedTypes gv types s = Some s'"
  shows "extends s s'"
proof -
  from assms obtain r where r: "AddKnownTypes gv types (addObservedVersion gv s) = Some r"
    and loop: "foreach (\<lambda>t s.
         let gvk = WithKind gv (type_Name t);
             s = s\<lparr>unversionedTypes := (unversionedTypes s)(t \<mapsto> gvk)\<rparr>
         in if (case unversionedKinds s (gvk_Kind gvk) of None \<Rightarrow> False | Some old \<Rightarrow> t \<noteq> old) then None
            else Some (s\<lparr>unversionedKinds := (unversionedKinds s)(gvk_Kind gvk \<mapsto> t)\<rparr>)) types r = Some s'"
    by (auto simp: AddUnversionedTypes_def split: bind_splits)
  from loop have "extends r s'"
    by (rule foreach_extends [rotated]) (auto simp: Let_def extends_def scheme_inv_def split: if_split_asm)
  with observed_extends AddKnownTypes_extends [OF r] show ?thesis by (blast intro: extends_trans)
qed

lemma AddToGroupVersion_extends: "AddToGroupVersion gv s = Some s' \<Longrightarrow> extends s s'"
  unfolding AddToGroupVersion_def
  by (auto split: bind_splits dest!: AddKnownTypeWithName_extends AddKnownTypes_extends AddUnversionedTypes_extends
        intro: extends_trans)

text \<open>\<^verbatim>\<open>AddToScheme\<close>, on any scheme that another client set has filled: unless it panics, it reports no error, the scheme knows the
  configuration types under their names, and everything that was registered before is still there.\<close>

theorem clientsets_compose:
  assumes "AddToScheme localSchemeBuilder s = Some (err, s')" "scheme_inv s"
  shows "err = None" "scheme_inv s'" "gvkToType s \<subseteq>\<^sub>m gvkToType s'"
    "k \<in> {''VSwitchConfig'', ''VSwitchConfigList''} \<Longrightarrow> scheme_New (WithKind SchemeGroupVersion k) s' = Inr (v1alpha1_type k)"
    "k \<in> {''VSwitchConfig'', ''VSwitchConfigList''} \<Longrightarrow> \<exists>gvks u. ObjectKinds (v1alpha1_type k) s' = Inr (gvks, u) \<and>
       WithKind SchemeGroupVersion k \<in> set gvks"
proof -
  from assms(1) obtain r where r: "AddKnownTypes SchemeGroupVersion [v1alpha1_type ''VSwitchConfig'', v1alpha1_type ''VSwitchConfigList''] s = Some r"
    and s': "AddToGroupVersion SchemeGroupVersion r = Some s'" and "err = None"
    by (auto simp: localSchemeBuilder_def SchemeBuilder_def addKnownTypes_def split: option.split_asm bind_splits)
  then show "err = None" by simp
  have ext: "extends s r" "extends r s'" using AddKnownTypes_extends [OF r] AddToGroupVersion_extends [OF s'] .
  with assms(2) show inv: "scheme_inv s'" and "gvkToType s \<subseteq>\<^sub>m gvkToType s'"
    unfolding extends_def by (blast, blast intro: map_le_trans)
  have known: "gvkToType s' (WithKind SchemeGroupVersion k) = Some (v1alpha1_type k)" if "k \<in> {''VSwitchConfig'', ''VSwitchConfigList''}"
  proof -
    have "gvkToType r (WithKind SchemeGroupVersion k) = Some (v1alpha1_type k)"
      using known_types_added(3) [OF r assms(2)] that by (auto simp: v1alpha1_type_def)
    with ext(2) show ?thesis unfolding extends_def map_le_def by (metis domI)
  qed
  show "scheme_New (WithKind SchemeGroupVersion k) s' = Inr (v1alpha1_type k)" if "k \<in> {''VSwitchConfig'', ''VSwitchConfigList''}"
    using known [OF that] by (simp add: scheme_New_def)
  show "\<exists>gvks u. ObjectKinds (v1alpha1_type k) s' = Inr (gvks, u) \<and> WithKind SchemeGroupVersion k \<in> set gvks"
    if "k \<in> {''VSwitchConfig'', ''VSwitchConfigList''}"
  proof -
    from known [OF that] inv have "WithKind SchemeGroupVersion k \<in> set (typeToGVK s' (v1alpha1_type k))"
      unfolding scheme_inv_def by blast
    then show ?thesis by (auto simp: ObjectKinds_def)
  qed
qed

section \<open>The schemes of the clients\<close>

text \<open>\<^verbatim>\<open>tracker.Add\<close>, which \<^verbatim>\<open>NewSimpleClientset\<close> calls, guesses the resources of an object from its registered kinds.\<close>

definition UnsafeGuessKindToResource :: "GVK \<Rightarrow> (string \<times> string \<times> string) \<times> (string \<times> string \<times> string)" where
  "UnsafeGuessKindToResource kind =
     (if gvk_Kind kind = '''' then (('''', '''', ''''), ('''', '''', ''''))
      else
        (let singularName = ToLower (gvk_Kind kind);
             WithResource = (\<lambda>r. (gvk_Group kind, gvk_Version kind, r))
         in (if HasSuffix singularName ''endpoints'' then WithResource singularName
             else if last singularName = CHR ''s'' then WithResource (singularName @ ''es'')
             else if last singularName = CHR ''y'' then WithResource (TrimSuffix singularName ''y'' @ ''ies'')
             else WithResource (singularName @ ''s''),
             WithResource singularName)))"

definition resources_of :: "scheme \<Rightarrow> go_type \<Rightarrow> err + (string \<times> string \<times> string) list" where
  "resources_of s t =
     (case ObjectKinds t s of
        Inl err \<Rightarrow> Inl err
      | Inr (gvks, _) \<Rightarrow>
          Inr (map (\<lambda>gvk. case fst (UnsafeGuessKindToResource gvk) of
            (g, v, r) \<Rightarrow> (g, if v = APIVersionInternal then '''' else v, r)) gvks))"

definition vswitchconfigsResource :: "string \<times> string \<times> string" where
  "vswitchconfigsResource = (''kvswitch.io'', ''v1alpha1'', ''vswitchconfigs'')"

lemma guessed_resource: "fst (UnsafeGuessKindToResource (WithKind SchemeGroupVersion ''VSwitchConfig'')) = vswitchconfigsResource"
  by code_simp

text \<open>Both schemes know the types under exactly their one kind.\<close>

definition knows_configs :: "scheme option \<Rightarrow> bool" where
  "knows_configs r = (case r of None \<Rightarrow> False | Some s \<Rightarrow>
     list_all (\<lambda>k. scheme_New (WithKind SchemeGroupVersion k) s = Inr (v1alpha1_type k) \<and>
       ObjectKinds (v1alpha1_type k) s = Inr ([WithKind SchemeGroupVersion k], False)) [''VSwitchConfig'', ''VSwitchConfigList''])"

lemma schemes_initialised: "knows_configs (scheme_init NewScheme)" "knows_configs (fake_scheme_init NewScheme)"
  by code_simp+

lemma preloaded_resource:
  assumes "fake_scheme_init NewScheme = Some s"
  shows "resources_of s (v1alpha1_type ''VSwitchConfig'') = Inr [vswitchconfigsResource]"
proof -
  have "ObjectKinds (v1alpha1_type ''VSwitchConfig'') s = Inr ([WithKind SchemeGroupVersion ''VSwitchConfig''], False)"
    using schemes_initialised(2) assms by (simp add: knows_configs_def)
  then show ?thesis
    using guessed_resource by (simp add: resources_of_def vswitchconfigsResource_def APIVersionInternal_def)
qed

end
