(* ===== verification/ApiExamples.thy ===== *)
theory ApiExamples
  imports NodeExamples VSwitchInformer DeepCopy Indexer Registration
begin

text \<open>
  A client's configuration, a controller, and a cache of one object on the heap, on which the properties of the API
  clients are instantiated.
\<close>

definition plain_env :: rest_env where
  "plain_env = \<lparr>url_path_of = (\<lambda>host. Inr ''/''), transport_for = (\<lambda>c. Inr True), serializers_for = (\<lambda>t. None),
     discovery_for = (\<lambda>c. None), DefaultUserAgent = ''k-vswitch''\<rparr>"

definition plain_config :: rest_config where
  "plain_config = \<lparr>Host = ''https://10.96.0.1:443'', APIPath = '''', GroupVersion = None, UserAgent = '''', ContentType = '''',
     Timeout = 0, QPS = 0, Burst = 0, RateLimiter = None\<rparr>"

lemma plain_client: "\<exists>c. clientset_NewForConfig plain_env plain_config = Inr c"
  by (simp add: clientset_NewForConfig_def v1alpha1_NewForConfig_def RESTClientFor_def setConfigDefaults_def plain_env_def
      plain_config_def)

definition vc1 :: vswitchConfig where
  "vc1 = NewVSwitchConfigController ''vxlan'' (cidr_text 10 0 0 0 16) (cidr_text 10 96 0 0 16)"

definition one_cached :: "unit heap" where
  "one_cached = [ConfigCell (zero_obj\<lparr>co_Meta := zero_meta\<lparr>om_Name := ''n1'', om_Labels := Some 1\<rparr>\<rparr>), StrMapCell [(''zone'', ''a'')]]"

end
