(* ===== verification/Spec2Isabelle.thy ===== *)
theory Spec2Isabelle
  imports ApiExamples
begin

text \<open>
  k-vswitch is a Kubernetes network built on Open vSwitch.  On every node a daemon (\<^verbatim>\<open>cmd/k-vswitchd\<close>)
  turns the cluster's objects into OpenFlow entries of one bridge; a cluster controller
  (\<^verbatim>\<open>cmd/k-vswitch-controller\<close>) keeps one \<^verbatim>\<open>VSwitchConfig\<close> per node, which tells the daemons the pod CIDR
  and the tunnel address of that node; the CNI plugin (\<^verbatim>\<open>cmd/k-vswitch-cni\<close>) attaches a pod to the bridge.  This development
  models the two controllers with their start, the set-up of a node, the plugin, the flow text, the OpenFlow connection,
  the generated clients and what they use of the vendored libraries, and proves what they promise.
  Paths are relative to \<^verbatim>\<open>src/\<close>.

  \<^bold>\<open>The parts.\<close>

  \<^item> \<^verbatim>\<open>Prelude\<close>: Go errors (\<open>err\<close>), loops (\<open>foreach\<close>), and code that only emits (\<open>collect\<close>, the locale
    \<open>output_sink\<close> and the collection \<open>emits\<close>).
  \<^item> \<^verbatim>\<open>GoStrings\<close>, \<^verbatim>\<open>GoNet\<close>, \<^verbatim>\<open>GoJson\<close>, \<^verbatim>\<open>GoExec\<close>: what the code uses of Go's \<^verbatim>\<open>strings\<close>, \<^verbatim>\<open>strconv\<close>, \<^verbatim>\<open>net\<close>, \<^verbatim>\<open>encoding/json\<close> and
    \<^verbatim>\<open>os/exec\<close>, with the vendored \<^verbatim>\<open>ip.NextIP\<close>.
  \<^item> \<^verbatim>\<open>FlowEntry\<close>, \<^verbatim>\<open>FlowsBuffer\<close>: \<^verbatim>\<open>flows/flows.go\<close> and \<^verbatim>\<open>flows/buffer.go\<close>.
  \<^item> \<^verbatim>\<open>Labels\<close>, \<^verbatim>\<open>KubeApi\<close>: label selectors with their validation, the API objects, \<^verbatim>\<open>IntValue\<close>, and the informers' listers
    (locale \<open>lister_contract\<close>).
  \<^item> \<^verbatim>\<open>PortCache\<close>: \<^verbatim>\<open>controllers/openflow/port_cache.go\<close> (locale \<open>keyed_cache\<close>).
  \<^item> \<^verbatim>\<open>OFController\<close>, \<^verbatim>\<open>NetPolicy\<close>, \<^verbatim>\<open>SyncFlows\<close>: \<^verbatim>\<open>controllers/openflow/controller.go\<close> and \<^verbatim>\<open>flows.go\<close>: the default flows,
    those of vswitch configurations, pods and network policies, \<^verbatim>\<open>syncFlows\<close> and the informer handlers.
  \<^item> \<^verbatim>\<open>PolicyFlows\<close>: the specification both halves of the policy code refine.  \<^verbatim>\<open>FlowTable\<close>, \<^verbatim>\<open>Verdict\<close>, \<^verbatim>\<open>Forwarding\<close>: the meaning
    of flow entries as OpenFlow 1.3 tables, and what the entries of a synchronisation do with a packet.
    \<^verbatim>\<open>Panics\<close>: exactly when the policy code panics.
  \<^item> \<^verbatim>\<open>OFSystem\<close>: events and resynchronisations as a step relation, and its invariants.
  \<^item> \<^verbatim>\<open>OFWire\<close>, \<^verbatim>\<open>OFConnect\<close>, \<^verbatim>\<open>OFSession\<close>: the vendored message codec as far as the session uses it, the send queue and the
    receiving loop of \<^verbatim>\<open>connection/\<close>, and the session of \<^verbatim>\<open>controller.go\<close>.  \<^verbatim>\<open>OFServer\<close>: their goroutines together, as a
    step relation.
  \<^item> \<^verbatim>\<open>VSwitchCfg\<close>: \<^verbatim>\<open>controllers/vswitchcfg/vswitchcfg.go\<close> (locale \<open>vswitch_getter\<close>).
  \<^item> \<^verbatim>\<open>GoIO\<close>, \<^verbatim>\<open>Host\<close>: programs that act on their host, as computations over the history of their calls, with
    what they call and the two predicates the proofs compose: \<open>performs\<close> (which calls) and \<open>follows\<close> (in which order).
  \<^item> \<^verbatim>\<open>InformerFactory\<close>: \<^verbatim>\<open>apis/generated/informers/externalversions/factory.go\<close>.  \<^verbatim>\<open>Daemon\<close>, \<^verbatim>\<open>ControllerMain\<close>: the
    \<^verbatim>\<open>main.go\<close> of the daemon and of the cluster controller.
  \<^item> \<^verbatim>\<open>GoAddr\<close>, \<^verbatim>\<open>CniHelpers\<close>: IP addresses, and what the plugin calls of the vendored CNI helpers (devices, masquerading, the
    addresses and routes of an interface).  \<^verbatim>\<open>CniConf\<close>, \<^verbatim>\<open>CniPlugin\<close>: \<^verbatim>\<open>cmd/k-vswitch-cni/plugin.go\<close>, its configuration
    and arguments, and the ADD and DEL.  \<^verbatim>\<open>CniRun\<close>: an ADD and a DEL as a whole, as the order of their milestones.
    \<^verbatim>\<open>PodNetwork\<close>: where the plugin meets the daemon.  \<^verbatim>\<open>Masquerade\<close>: what its rules make of the
    nat tables.
  \<^item> \<^verbatim>\<open>GoPath\<close>, \<^verbatim>\<open>RestRequest\<close>: paths and the request builder of the vendored REST client.  \<^verbatim>\<open>VSwitchClient\<close>: the typed client
    (\<^verbatim>\<open>apis/generated/clientset/versioned\<close>), down to the HTTP requests of its calls.  \<^verbatim>\<open>FakeClient\<close>: the fake client set and
    its object tracker (locale \<open>config_store\<close>).  \<^verbatim>\<open>VSwitchInformer\<close>: the rest of \<^verbatim>\<open>informers/externalversions\<close>, with the
    runs of a factory as a step relation.  \<^verbatim>\<open>DeepCopy\<close>: \<^verbatim>\<open>zz_generated.deepcopy.go\<close> over an explicit heap, and the
    configuration controller on that heap.
  \<^item> \<^verbatim>\<open>Indexer\<close>: the cache behind an informer (the vendored store with its indices, and \<^verbatim>\<open>HandleDeltas\<close>) and
    \<^verbatim>\<open>apis/generated/listers\<close> on it.  \<^verbatim>\<open>Registration\<close>: the \<^verbatim>\<open>register.go\<close> files, over the vendored scheme.
  \<^item> \<^verbatim>\<open>Examples\<close>, \<^verbatim>\<open>NodeExamples\<close>, \<^verbatim>\<open>ApiExamples\<close>: a cluster, hosts and clients on which the properties below are instantiated.

  \<^bold>\<open>How the code is read.\<close>  A returned error is \<open>Inl\<close>, a run-time panic \<open>None\<close>.  The controller's state is a record of the Go
  struct's fields without locks and interfaces; \<open>trace\<close> is a ghost, the commands it has started.  \<^verbatim>\<open>flowsLock\<close> makes a
  synchronisation one step and the cache's lock a lookup; what runs between them is in the step relation of \<^verbatim>\<open>OFSystem\<close>.
  The programs \<^verbatim>\<open>ovs-vsctl\<close> and \<^verbatim>\<open>ovs-ofctl\<close> are a parameter \<open>os\<close>, the API server and the listers are
  parameters, and how the switch reads the text of an address is the parameter \<open>nw\<close>; every property holds for all of them,
  and the witnesses instantiate \<open>nw\<close> with the dotted and CIDR notations.  The set-up and the plugin are programs in the
  state monad over the list of calls made so far; the answer to a call is a function of that list (record \<open>host\<close>), so
  every host is covered, and the order of the calls is what the properties speak of.  Where these programs exit, or the
  plugin panics, the result is the error.

  \<^bold>\<open>What is proved.\<close>  C1 to C5: what the installed tables do with a packet (verdict of the policies, local delivery, tunnels,
  termination).  C6 to C8: the policy code (refinement, panics, named ports).  C9 to C12: synchronisation (all or nothing, the
  invariant over all runs, repair, stability).  C13: the text of flows.  C14: addresses.  C15: label
  selectors.  C16 to C19: the connection (the answers of the server as a whole, the receiving loop).
  C20: the configuration controller.  C21 to C25: the set-up of a node (the plan it follows, the gateway it shares with
  the controller, the wait for the configuration, the CNI configuration, masquerading).  C26 to C35: the plugin (the pod's
  name, its port, what a failed ADD and a DEL release, the gateways, what a successful ADD and DEL have done and in which order,
  the pair of devices, what the container's interface is given, the rules of the nat tables).  C36 to C40: the API (the
  requests of the typed client, the configuration on its way from the cluster controller to the daemon, the caches of the
  informers, their start, the deep copies).
  Where the code has a flaw, the property states what it does: a policy port
  that is nil (C7) or named (C8), messages read together (C18), a length field that is too small (C19),
  caches that are not waited for (C21), a struct tag that is not
  closed (C24), rules that masquerade too much (C25), a DEL that stops (C29); a changed service CIDR reaches nobody
  (\<open>settled_config_quiet\<close> in \<^verbatim>\<open>VSwitchCfg\<close>); two addresses of one family, which C35
  excludes, make a DEL fail (\<open>two_networks_stuck\<close>).

  \<^bold>\<open>Bounds.\<close>  The pipeline has tables 0, 10, 20, 30, 60 and 100; resubmissions only go forward, so fuel 5 reaches the end of every
  path (C5).  \<^verbatim>\<open>handleConn\<close> takes the number of rounds as fuel; C17 takes as many as have been made.  The wait for the
  configuration terminates because every poll is followed by a sleep of five seconds on a monotonic clock: at most twelve
  polls fit into its minute (C23).  \<^verbatim>\<open>makeVeth\<close> makes at most ten attempts (C33).  Everything else is total.

  \<^bold>\<open>Not modelled.\<close>  The bytes of request bodies (the serialiser is a parameter; of the schemes it uses, conversions and defaults are
  left out), the queue of deltas in front of an informer's cache, the retries and rate limits of the vendored REST client, label selectors and strategic patches of the fake
  client (parameters); in the deep copies, what lies behind the maps and slices of an \<^verbatim>\<open>ObjectMeta\<close> is one cell.  The
  codecs of OpenFlow messages that the
  controller ignores (a parameter of \<open>ofp13_Parse\<close>).  Inside the plugin, netlink, \<^verbatim>\<open>iptables\<close>, the IPAM plugin and the waiting of
  \<^verbatim>\<open>SettleAddresses\<close> are calls of the host; what \<^verbatim>\<open>iptables\<close> answers is stated as \<open>iptables_ok\<close> where a property needs it.
  A \<^verbatim>\<open>null\<close> inside the lists an IPAM plugin returns is not represented; \<^verbatim>\<open>firstV4Addr\<close>, which nothing reads, is left out.
\<close>

section \<open>What the switch does with a packet\<close>











section \<open>Network policies\<close>

text \<open>C6: the ingress and the egress half of the code, written separately, emit the flows of one and the same
  specification seen from the two directions, change nothing but the buffer, and never report an error.\<close>

theorem policy_halves_refine:
  "flowsForIngressNetworkPolicy L np locals c =
     map_option (\<lambda>fs. (None, emit fs c)) (policy_flows IngressDir L np locals) \<and>
   flowsForEgressNetworkPolicy L np locals c =
     map_option (\<lambda>fs. (None, emit fs c)) (policy_flows EgressDir L np locals)"
  by (simp add: flowsForIngressNetworkPolicy_emits flowsForEgressNetworkPolicy_emits)

text \<open>C7: the process panics on a policy exactly when the policy selects a local pod and some rule whose ports are
  looked at (one without peers, or with a pod peer that has an address) lists a port without number or protocol.\<close>

theorem policy_panics_iff:
  "flowsForNetworkPolicy L np c = None \<longleftrightarrow> selected_ips L c np \<noteq> [] \<and> (\<exists>d. panics d L np)"
proof -
  have "flowsForNetworkPolicy L np c = None \<longleftrightarrow> sync_netPol L np c = None"
    by (cases "flowsForNetworkPolicy L np c") (auto simp: sync_netPol_def)
  then show ?thesis by (simp add: sync_netPol_emits netpol_result_None)
qed

text \<open>C8: a policy port given by name (any text that is no number) opens every TCP port: the flow of a rule without peers
  that is emitted for it matches all TCP packets to the pod.\<close>

theorem named_port_opens_all:
  assumes "Port port = Some i" "ios_Type i = StringType" "snd (Atoi (StrVal i)) = Some ErrSyntax"
    and "Protocol port = Some p" "ToLower p = ''tcp''" and "destIP \<noteq> []"
  shows "\<exists>f. ingress_port_any destIP port c = Some (add_flow f c) \<and>
    (\<forall>s t sp dp. flow_matches nw f (IP s t (TCP sp dp)) \<longleftrightarrow> nw destIP t)"
proof -
  have "IntValue (Port port) = Some 0"
    using assms(1-3) Atoi_syntax_zero by (simp add: IntValue_def)
  then have "ingress_port_any destIP port c = Some (add_flow (allow_tcp IngressDir destIP [] 0) c)"
    using assms(4,5) by (simp add: ingress_port_any_emits allow_port_def add_flow_emit)
  then show ?thesis
    by (auto simp: matches_policy_flow [OF assms(6)] port_match_def local_of_def field_def)
qed

theorem named_port_opens_all_witness:
  "\<exists>f. ingress_port_any (dotted 10 0 1 6) \<lparr>Protocol = Some ''TCP'',
      Port = Some \<lparr>ios_Type = StringType, IntVal = 0, StrVal = ''http''\<rparr>\<rparr> node1 = Some (add_flow f node1) \<and>
    flow_matches nw4 f (IP (v4 10 0 9 9) (v4 10 0 1 6) (TCP 40000 22))"
proof -
  let ?i = "\<lparr>ios_Type = StringType, IntVal = 0, StrVal = ''http''\<rparr>"
  let ?p = "\<lparr>Protocol = Some ''TCP'', Port = Some ?i\<rparr>"
  have lit: "snd (Atoi ''http'') = Some ErrSyntax" "ToLower ''TCP'' = ''tcp''" by code_simp+
  have "\<exists>f. ingress_port_any (dotted 10 0 1 6) ?p node1 = Some (add_flow f node1) \<and>
      (\<forall>s t sp dp. flow_matches nw4 f (IP s t (TCP sp dp)) \<longleftrightarrow> nw4 (dotted 10 0 1 6) t)"
    by (rule named_port_opens_all [of ?p ?i "''TCP''"]) (simp_all add: lit)
  then show ?thesis by (metis nw4_addr)
qed

section \<open>Synchronisation\<close>

text \<open>C9: what one synchronisation can do: an error before the bridge is touched, or one command with the whole of the
  desired flows, and success exactly when that command succeeds; the configuration stays as it is.\<close>

theorem sync_all_or_nothing:
  assumes "syncFlows env L c = Some (r, c')"
  shows "same_config c c' \<and> (\<exists>t. trace c' = trace c @ t \<and>
    (only_vsctl t \<and> r \<noteq> None \<or>
     (\<exists>fs k u. lists_ok L \<and> desired_flows env L c = Some (fs, k, u) \<and> portCache c' = k \<and>
        t = u @ [install c fs] \<and> only_vsctl u \<and>
        (r = None \<longleftrightarrow> \<not> isl (CombinedOutput env (install c fs))))))"
  by (rule syncFlows_outcomes [OF assms])

theorem sync_all_or_nothing_witness:
  "\<exists>c' fs u. syncFlows quiet_os (cache_listers cluster1) node1 = Some (None, c') \<and>
    trace c' = u @ [install node1 fs] \<and> only_vsctl u"
proof -
  obtain c' where s: "syncFlows quiet_os (cache_listers cluster1) node1 = Some (None, c')" using cluster1_syncs by blast
  have "trace node1 = []" by (simp add: node1_def)
  with sync_all_or_nothing [OF s] s show ?thesis by auto
qed





text \<open>C12: once the ports of the local pods are cached, a synchronisation runs no \<^verbatim>\<open>ovs-vsctl\<close>, and what it installs
  depends on nothing the operating system answers.\<close>

theorem resync_steady:
  assumes "podLister_List L Everything = Inr pods" and "all_cached c pods"
    and "syncFlows env L c = Some (None, c')" and "syncFlows env' L c = Some (None, c'')"
  shows "installed (trace c') = installed (trace c'') \<and> portCache c' = portCache c"
proof -
  from assms(3) obtain fs k u where 1: "desired_flows env L c = Some (fs, k, u)" "portCache c' = k"
    "installed (trace c') = Some (install c fs)" by (rule syncFlows_success)
  from assms(4) obtain gs k' u' where 2: "desired_flows env' L c = Some (gs, k', u')"
    "installed (trace c'') = Some (install c gs)" by (rule syncFlows_success)
  from resync_stable [OF assms(1,2) 1(1), of env'] 1 2 show ?thesis by simp
qed

theorem resync_steady_witness:
  "\<exists>c'. syncFlows quiet_os (cache_listers (cluster1\<lparr>st_pods := [web_pod]\<rparr>)) node1 = Some (None, c') \<and>
    portCache c' = portCache node1"
proof -
  let ?st = "cluster1\<lparr>st_pods := [web_pod]\<rparr>"
  have pods: "podLister_List (cache_listers ?st) Everything = Inr [web_pod]"
    by (simp add: cache_listers_def ListAll_eq)
  have cached: "all_cached node1 [web_pod]"
    by (simp add: all_cached_def node1_def web_pod_def portCacheKeyForPod_def)
  obtain c' where s: "syncFlows quiet_os (cache_listers ?st) node1 = Some (None, c')"
    using syncFlows_succeeds [OF cache_lists_ok quiet_rows_ok web_policies_ok] by (auto simp: quiet_os_def)
  from resync_steady [OF pods cached s s] s show ?thesis by blast
qed

section \<open>Flows and their text\<close>

text \<open>C13: the text handed to \<^verbatim>\<open>ovs-ofctl\<close> determines the flow: reading its tokens back yields the flow, for
  every flow whose fields hold no separator.\<close>

theorem flow_text_roundtrip:
  assumes "flow_wf f"
  shows "parse_flow (Flow_String f) = f"
  by (rule parse_flow_Flow_String [OF assms])

theorem flow_text_roundtrip_witness:
  "\<exists>f. f = WithActionResubmit 20 (WithIPDest ''10.0.1.6'' (WithTCPDestPort 5432 (WithProtocol ''tcp'' NewFlow))) \<and>
    parse_flow (Flow_String f) = f \<and> ipDest f = ''10.0.1.6''"
proof -
  let ?f = "WithActionResubmit 20 (WithIPDest ''10.0.1.6'' (WithTCPDestPort 5432 (WithProtocol ''tcp'' NewFlow)))"
  have "flow_wf ?f" by (simp add: flow_wf_def builder_defs int64_def plain_def)
  from flow_text_roundtrip [OF this] show ?thesis by (simp add: builder_defs)
qed

section \<open>Addresses\<close>

text \<open>C14: the gateway is the address after the network's first one, and a local address (for an IPv4 pod CIDR of at
  most 31 bits outside \<^verbatim>\<open>0.0.0.0/8\<close>).\<close>

theorem gateway_is_first_host:
  assumes "NewController env br brMAC cwMAC node (cidr_text a b d e n) cc = Inr ct"
    and "n < 32" and "16777216 \<le> network a b d e n"
  shows "gatewayIP ct = IP_String (addr4 (network a b d e n + 1)) \<and> isLocalIP ct (gatewayIP ct) = Inr True"
  by (rule gateway_v4 [OF assms])

theorem gateway_is_first_host_witness:
  "\<exists>ct. NewController one_port_os ''br'' ''m1'' ''m2'' ''n1'' (cidr_text 10 0 1 77 24) ''c'' = Inr ct \<and>
    gatewayIP ct = dotted 10 0 1 1"
proof -
  obtain ct where ct: "NewController one_port_os ''br'' ''m1'' ''m2'' ''n1'' (cidr_text 10 0 1 77 24) ''c'' = Inr ct"
    by (simp add: NewController_def ParseCIDR_v4 Let_def one_port_ofport)
  have "network 10 0 1 77 24 = 167772416" by (simp add: network_def be_val_Cons)
  with gateway_is_first_host [OF ct] have "gatewayIP ct = dotted 10 2560 655361 167772417"
    by (simp add: IP_String_addr4)
  moreover have "(2560 :: 8 word) = 0" "(655361 :: 8 word) = 1" "(167772417 :: 8 word) = 1" by simp_all
  ultimately show ?thesis using ct by simp
qed

section \<open>The port cache\<close>



section \<open>The OpenFlow connection\<close>

text \<open>C16: from wherever the server is, once there is a connection it can come to have written an answer to everything the
  session has received: first the hello, then, in the order of their arrival, a features request for each hello and an
  echo reply for each echo request.\<close>

theorem answers_written:
  assumes "server_reach other s" and "\<not> crashed s" and "conn (link s) = Some k"
  shows "\<exists>s'. (server_step other)\<^sup>*\<^sup>* s s' \<and> received s' = received s \<and> queue (link s') = [] \<and>
    map (message_type \<circ> snd) (written (link s')) =
      Some OFPT_HELLO # map Some (List.map_filter answer (map snd (received s)))"
proof -
  from server_drains [OF assms] obtain s' where s': "(server_step other)\<^sup>*\<^sup>* s s'" "only_link s s'" "queue (link s') = []"
    "map snd (written (link s')) = outbox (sess s)" by blast
  have "map message_type (outbox (sess s)) = Some OFPT_HELLO # map Some (List.map_filter answer (map snd (received s)))"
    using server_reach_inv [OF assms(1)] by (simp add: server_inv_def session_inv_def)
  with s' show ?thesis by (intro exI [of _ s']) (simp add: only_link_def flip: s'(4))
qed

theorem answers_written_witness:
  "\<exists>s s'. session1 = Some s \<and> (server_step no_codec)\<^sup>*\<^sup>* s s' \<and>
    map (message_type \<circ> snd) (written (link s')) = [Some OFPT_HELLO, Some OFPT_FEATURES_REQUEST, Some OFPT_ECHO_REPLY]"
proof -
  obtain s where s: "session1 = Some s" "\<not> crashed s" "conn (link s) = Some 0"
    "List.map_filter answer (map snd (received s)) = [OFPT_FEATURES_REQUEST, OFPT_ECHO_REPLY]" using session1 by blast
  from answers_written [OF session1_reach [OF s(1,2)] s(2,3)] obtain s' where
    s': "(server_step no_codec)\<^sup>*\<^sup>* s s'" "map (message_type \<circ> snd) (written (link s')) =
      Some OFPT_HELLO # map Some (List.map_filter answer (map snd (received s)))" by (elim exE conjE) (rule that)
  show ?thesis by (intro exI conjI) (rule s(1), rule s'(1), rule s'(2) [unfolded s(4) list.map])
qed

text \<open>C17: however its goroutines interleave, the session receives of each connection, in order, the parses of what
  \<^verbatim>\<open>handleConn\<close> has read from it, which are the messages themselves when each read returns a whole one; what has been
  written are the first answers to what it has received of all connections; and the queue is never read while empty.\<close>

theorem session_serves:
  assumes "server_reach other s"
  shows "proc (link s) \<noteq> PPanic \<and>
    (\<exists>rest. map (message_type \<circ> snd) (written (link s)) @ rest =
      Some OFPT_HELLO # map Some (List.map_filter answer (map snd (received s)))) \<and>
    (\<forall>i<length (readers s). let r = readers s ! i in
      \<exists>n. list_all2 (parsed other) (handleConn n (rd_input r))
            (received_from i s @ (case rd_pending r of None \<Rightarrow> [] | Some m \<Rightarrow> [m])) \<and>
          (list_all whole_message (rd_input r) \<longrightarrow> handleConn n (rd_input r) = take n (rd_input r)))"
  using server_sent [OF assms] server_received [OF assms] handleConn_take unfolding Let_def by blast

theorem session_serves_witness:
  "\<exists>s. session1 = Some s \<and> list_all2 (parsed no_codec) [hello_bytes, echo_bytes] (map snd (received s))"
proof -
  obtain s where s: "session1 = Some s" "\<not> crashed s" "length (readers s) = 1" "rd_pending (readers s ! 0) = None"
    "rd_input (readers s ! 0) = [hello_bytes, echo_bytes]" "received_from 0 s = map snd (received s)"
    "length (received s) = 2" using session1 by blast
  from session_serves [OF session1_reach [OF s(1,2)]] s(3-6) whole_bytes obtain n where
    n: "list_all2 (parsed no_codec) (take n [hello_bytes, echo_bytes]) (map snd (received s))"
    by (auto simp: Let_def)
  then have "length (take n [hello_bytes, echo_bytes]) = length (received s)" by (auto dest: list_all2_lengthD)
  with s(7) have "take n [hello_bytes, echo_bytes] = [hello_bytes, echo_bytes]" by (intro take_all) simp
  with n s(1) show ?thesis by auto
qed

text \<open>C18: when a read returns a whole message and the beginning of what follows, what follows is lost: each round of
  \<^verbatim>\<open>handleConn\<close> makes a new buffered reader.\<close>

theorem receive_drops_coalesced:
  assumes "whole_message m" and "length (m @ m') \<le> 4096"
  shows "handleConn (Suc n) ((m @ m') # chs) = m # handleConn n chs"
  by (rule handleConn_coalesced [OF assms])

theorem receive_drops_coalesced_witness:
  "handleConn 2 [[4, 0, 0, 8, 0, 0, 0, 1] @ [4, 2, 0, 8, 0, 0, 0, 2]] = [[4, 0, 0, 8, 0, 0, 0, 1]]"
proof -
  have "whole_message [4, 0, 0, 8, 0, 0, 0, 1]"
    by (simp add: whole_message_def MessageLength_def get_be_def be_val_Cons)
  then have "handleConn (Suc 1) [[4, 0, 0, 8, 0, 0, 0, 1] @ [4, 2, 0, 8, 0, 0, 0, 2]] =
      [4, 0, 0, 8, 0, 0, 0, 1] # handleConn 1 []"
    by (rule receive_drops_coalesced) simp
  moreover have "handleConn 1 [] = []" by (simp add: handleConn_round_def Peek.simps)
  ultimately show ?thesis by (simp add: numeral_2_eq_2)
qed

text \<open>C19: a switch that sends a header whose length field is below the header's own size, with a type the parser knows,
  ends the daemon: the parser reads past the end of its buffer, and after the panic nothing runs.\<close>

theorem short_length_crashes:
  assumes "i < length (readers s)" "rd_open (readers s ! i)" "rd_pending (readers s ! i) = None"
    and "rd_chunks (readers s ! i) = ch # chs" "8 \<le> length ch" "length ch \<le> 4096"
    and "MessageLength ch = Some n" "n < 8" "ch ! 1 \<in> known_types"
  shows "handleConn_step other i s = Some (s\<lparr>crashed := True\<rparr>) \<and> (\<forall>s'. \<not> server_step other (s\<lparr>crashed := True\<rparr>) s')"
  using short_message_crashes [OF assms] crashed_stuck [of "s\<lparr>crashed := True\<rparr>"] by simp

theorem short_length_crashes_witness:
  "\<exists>s s'. start_server 1 node1 = Some s \<and>
    handleConn_step no_codec 0 (Serve (Inr [[4, 0, 0, 0, 0, 0, 0, 1]]) s) = Some s' \<and> crashed s'"
proof -
  obtain s where s: "start_server 1 node1 = Some s" "readers s = []"
    by (simp add: start_server_def Initialize_def session_Send_def NewOfpHello_def NewOfpHeader_def nextXid_def Let_def
        Send_def NewOFConnect_def)
  have "handleConn_step no_codec 0 (Serve (Inr [[4, 0, 0, 0, 0, 0, 0, 1]]) s) =
      Some ((Serve (Inr [[4, 0, 0, 0, 0, 0, 0, 1]]) s)\<lparr>crashed := True\<rparr>)"
    by (rule conjunct1 [OF short_length_crashes [of 0 _ "[4, 0, 0, 0, 0, 0, 0, 1]" "[]" 0]])
      (simp_all add: s(2) Serve_def MessageLength_def get_be_def be_val_Cons known_types_def OFPT_defs)
  with s(1) show ?thesis by auto
qed

section \<open>VSwitchConfigs\<close>

text \<open>C20: a node that has an overlay address and a pod CIDR, and no up-to-date configuration, gets one request, which
  writes an up-to-date one.\<close>

theorem outdated_config_written:
  assumes "nodeOverlayIP node = Inr oip" and "nodePodCIDR node = Inr pc"
    and "\<not> (\<exists>cfg\<in>set items. up_to_date v node cfg)"
  shows "\<exists>req cfg. VS_OnAdd v (vswitchLister_Get items) api (NodeObj node) = Some [req] \<and>
    written_config req = Some cfg \<and> up_to_date v node cfg \<and> ServiceCIDR (Spec cfg) = vc_serviceCIDR v"
  by (rule outdated_written [OF assms(1,2)]) (use assms(3) in blast)

theorem outdated_config_written_witness:
  "\<exists>req cfg. VS_OnAdd \<lparr>vc_overlayType = ''vxlan'', vc_clusterCIDR = ''c'', vc_serviceCIDR = ''s''\<rparr> (vswitchLister_Get [])
     (\<lambda>req. None) (NodeObj \<lparr>node_Name = ''n1'', node_PodCIDR = ''p'', Addresses = [\<lparr>addr_Type = ''InternalIP'', Address = ''i''\<rparr>]\<rparr>)
     = Some [req] \<and> written_config req = Some cfg \<and> OverlayIP (Spec cfg) = ''i''"
proof -
  let ?v = "\<lparr>vc_overlayType = ''vxlan'', vc_clusterCIDR = ''c'', vc_serviceCIDR = ''s''\<rparr>"
  let ?n = "\<lparr>node_Name = ''n1'', node_PodCIDR = ''p'', Addresses = [\<lparr>addr_Type = ''InternalIP'', Address = ''i''\<rparr>]\<rparr>"
  have n: "nodeOverlayIP ?n = Inr ''i''" "nodePodCIDR ?n = Inr ''p''"
    by (simp_all add: nodeOverlayIP_def nodePodCIDR_def Let_def)
  have "\<not> (\<exists>cfg\<in>set []. up_to_date ?v ?n cfg)" by simp
  from outdated_config_written [OF n this, of "\<lambda>req. None"] n show ?thesis by (auto simp: up_to_date_def)
qed

section \<open>The set-up of a node\<close>

text \<open>C21: what the daemon changes on its node is, in this order, the CNI configuration, the bridge and its ports, the
  address and the route, the controller target and the fail mode, the kernel settings, the \<^verbatim>\<open>iptables\<close> rules, and then
  the informers and goroutines; a start that fails has done a prefix of it, and one that succeeds all of it, for
  the configuration the API has for the node.  It waits for no informer cache before it starts the controller.\<close>

theorem startup_order:
  assumes "links_ok env ix" and "run_state (daemon_main env) [] = (r, h)"
  shows "\<exists>node cfg. prefix (changes h) (config_written node # setup_plan ix cfg @ start_plan) \<and>
    (isl r \<or> changes h = config_written node # setup_plan ix cfg @ start_plan \<and> node_PodCIDR node \<noteq> [] \<and>
      (\<exists>u. d_vswitch env u (node_Name node) = Inr cfg))"
  using daemon_run [OF assms] by blast

theorem startup_order_witness:
  "\<exists>s h node cfg. run_state (daemon_main good_host) [] = (Inr s, h) \<and>
    changes h = config_written node # setup_plan (\<lambda>n. 1) cfg @ start_plan"
proof -
  obtain s h where run: "run_state (daemon_main good_host) [] = (Inr s, h)" using good_daemon_runs by blast
  from startup_order [OF good_links run] show ?thesis using run by auto
qed

text \<open>C22: after a successful start the bridge carries, with the mask of the pod CIDR, the very address whose text the
  controller answers ARP for and delivers locally, and the cluster's route goes through the cluster-wide port to
  the network the controller forwards.\<close>

theorem bridge_address_is_gateway:
  assumes "links_ok env ix" and "run_state (daemon_main env) [] = (Inr s, h)"
  shows "\<exists>a i n j nt. SetAddress ''k-vswitch0'' a \<in> set (changes h) \<and>
    ParseCIDR (podCIDR (of_ctrl s)) = Inr (i, n) \<and> net_Mask a = net_Mask n \<and> IP_String (net_IP a) = gatewayIP (of_ctrl s) \<and>
    ParseCIDR (clusterCIDR (of_ctrl s)) = Inr (j, nt) \<and>
    SetRoute \<lparr>route_LinkIndex = ix ''cluster-wide'', route_Dst = nt\<rparr> \<in> set (changes h)"
proof -
  from daemon_run [OF assms] obtain node cfg h1 h2 h3 h4 where
    c: "changes h = config_written node # setup_plan ix cfg @ start_plan"
    and "run_state (main_setup env cfg) h1 = (Inr (), h2)" "run_state (main_start env node cfg) h3 = (Inr s, h4)" by auto
  from plan_addresses [OF this(3,2), of ix] show ?thesis unfolding c by (auto 0 3)
qed

theorem bridge_address_is_gateway_witness:
  "\<exists>s h a. run_state (daemon_main good_host) [] = (Inr s, h) \<and> SetAddress ''k-vswitch0'' a \<in> set (changes h) \<and>
    IP_String (net_IP a) = gatewayIP (of_ctrl s)"
proof -
  obtain s h where run: "run_state (daemon_main good_host) [] = (Inr s, h)" using good_daemon_runs by blast
  from bridge_address_is_gateway [OF good_links run] show ?thesis using run by blast
qed





text \<open>C25: the rules of a successful start masquerade a packet exactly when it comes from a local pod and leaves by
  another device than the bridge, or its destination is not local and not in both the cluster CIDR and the service
  CIDR.  So if the two CIDRs share no address, every packet to another host is masqueraded.\<close>

theorem masqueraded_packets:
  assumes "links_ok env ix" and "run_state (daemon_main env) [] = (Inr s, h)"
  shows "\<exists>cfg. (\<exists>u name. d_vswitch env u name = Inr cfg) \<and>
    (\<forall>p. masquerades nw (changes h) p \<longleftrightarrow>
       nw (PodCIDR (Spec cfg)) (pk_src p) \<and> pk_out p \<noteq> ''k-vswitch0'' \<or>
       \<not> pk_local p \<and> \<not> (nw (ClusterCIDR (Spec cfg)) (pk_dst p) \<and> nw (ServiceCIDR (Spec cfg)) (pk_dst p)))"
proof -
  from daemon_run [OF assms] obtain node cfg where
    c: "changes h = config_written node # setup_plan ix cfg @ start_plan" and "\<exists>u. d_vswitch env u (node_Name node) = Inr cfg"
    by auto
  with setup_masquerades [of nw node ix cfg] show ?thesis unfolding c by blast
qed

theorem masqueraded_packets_witness:
  "\<exists>s h. run_state (daemon_main good_host) [] = (Inr s, h) \<and>
    masquerades nw4 (changes h) \<lparr>pk_src = v4 192 168 0 1, pk_dst = v4 10 0 2 7, pk_in = '''', pk_out = ''cluster-wide'', pk_local = False\<rparr>"
proof -
  let ?p = "\<lparr>pk_src = v4 192 168 0 1, pk_dst = v4 10 0 2 7, pk_in = '''', pk_out = ''cluster-wide'', pk_local = False\<rparr>"
  obtain s h where run: "run_state (daemon_main good_host) [] = (Inr s, h)" using good_daemon_runs by blast
  from masqueraded_packets [OF good_links run, of nw4] obtain cfg u name where
    "d_vswitch good_host u name = Inr cfg" and
    m: "masquerades nw4 (changes h) ?p \<longleftrightarrow>
       nw4 (PodCIDR (Spec cfg)) (pk_src ?p) \<and> pk_out ?p \<noteq> ''k-vswitch0'' \<or>
       \<not> pk_local ?p \<and> \<not> (nw4 (ClusterCIDR (Spec cfg)) (pk_dst ?p) \<and> nw4 (ServiceCIDR (Spec cfg)) (pk_dst ?p))" by blast
  then have "cfg = vs1" by (simp add: good_host_def)
  then have "\<not> nw4 (ServiceCIDR (Spec cfg)) (pk_dst ?p)" by (simp add: vs1_def nw4_cidr be_val_Cons)
  with m run show ?thesis by auto
qed

section \<open>The CNI plugin\<close>

text \<open>C26: from the arguments of the kubelet, in any order and among any others, the plugin takes the pod's namespace
  and name.\<close>

theorem pod_args_parsed:
  assumes "''K8S_POD_NAMESPACE='' @ ns \<in> set as" and "''K8S_POD_NAME='' @ nm \<in> set as"
    and "\<forall>a\<in>set as. CHR '';'' \<notin> set a"
    and "\<forall>a\<in>set as. Contains a ''K8S_POD_NAMESPACE'' \<longrightarrow> a = ''K8S_POD_NAMESPACE='' @ ns"
    and "\<forall>a\<in>set as. Contains a ''K8S_POD_NAME'' \<and> \<not> Contains a ''K8S_POD_NAMESPACE'' \<longrightarrow> a = ''K8S_POD_NAME='' @ nm"
    and "\<not> Contains nm ''K8S_POD_NAMESPACE''"
  shows "getPodInfo (Join as '';'') = Inr (ns, nm)"
proof -
  have "as \<noteq> []" using assms(1) by auto
  then have split: "Split (Join as '';'') CHR '';'' = as" using assms(3) by (intro Split_Join) auto
  then have "Join as '';'' \<noteq> []" using assms(1) by auto
  moreover have "fold pod_arg as ('''', '''') = (ns, nm)"
  proof -
    have "fold pod_arg as ('''', '''') = ((if ''K8S_POD_NAMESPACE='' @ ns \<in> set as then ns else ''''),
        (if ''K8S_POD_NAME='' @ nm \<in> set as then nm else ''''))"
      by (rule fold_pod_arg [OF assms(4) [rule_format] assms(5) [rule_format, OF _ conjI] assms(6)])
    then show ?thesis by (simp only: assms(1,2) if_True)
  qed
  ultimately show ?thesis by (simp add: getPodInfo_def split)
qed

theorem pod_args_parsed_witness:
  "getPodInfo (Join [''IgnoreUnknown=1'', ''K8S_POD_NAME=web'', ''K8S_POD_NAMESPACE=default''] '';'') = Inr (''default'', ''web'')"
proof (rule pod_args_parsed)
  have c: "\<not> Contains ''IgnoreUnknown=1'' ''K8S_POD_NAMESPACE''" "\<not> Contains ''IgnoreUnknown=1'' ''K8S_POD_NAME''"
    "\<not> Contains ''K8S_POD_NAME=web'' ''K8S_POD_NAMESPACE''" "Contains ''K8S_POD_NAMESPACE=default'' ''K8S_POD_NAMESPACE''"
    by code_simp+
  show "\<forall>a\<in>set [''IgnoreUnknown=1'', ''K8S_POD_NAME=web'', ''K8S_POD_NAMESPACE=default''].
      Contains a ''K8S_POD_NAMESPACE'' \<longrightarrow> a = ''K8S_POD_NAMESPACE='' @ ''default''"
    using c by (simp del: Contains.simps)
  show "\<forall>a\<in>set [''IgnoreUnknown=1'', ''K8S_POD_NAME=web'', ''K8S_POD_NAMESPACE=default''].
      Contains a ''K8S_POD_NAME'' \<and> \<not> Contains a ''K8S_POD_NAMESPACE'' \<longrightarrow> a = ''K8S_POD_NAME='' @ ''web''"
    using c by (simp del: Contains.simps)
  show "\<not> Contains ''web'' ''K8S_POD_NAMESPACE''" by code_simp
qed simp_all

text \<open>C27: an ADD stores on the pod's port and interface every identifier by which a DEL, and the daemon, look for it.\<close>

theorem port_found_by_its_ids:
  assumes "port \<noteq> ''--''" and "bridge \<noteq> ''--''"
  shows "conditions (findPort_command netns ns name) \<subseteq> stored ''port'' port (addPort_command bridge port m netns ns name) \<and>
    (\<forall>r t c. findPort os ns name = Some (r, t) \<and> c \<in> set t \<longrightarrow>
       conditions c \<subseteq> stored ''port'' port (addPort_command bridge port m netns ns name))"
  using addPort_stores [OF assms] plugin_conditions daemon_conditions by blast

theorem port_found_by_its_ids_witness:
  "conditions (findPort_command ''/proc/7/ns/net'' ''default'' ''web'') \<subseteq>
    stored ''port'' ''veth0'' (addPort_command ''k-vswitch0'' ''veth0'' '''' ''/proc/7/ns/net'' ''default'' ''web'')"
  using port_found_by_its_ids [of "''veth0''" "''k-vswitch0''"] by simp

text \<open>C28: an ADD allocates at most one address.  If the IPAM plugin refuses it, the ADD fails and releases nothing; if it
  is allocated, either the result is printed and the address kept, or the ADD fails, prints nothing, and releases
  exactly this address, once.\<close>

theorem failed_add_releases:
  assumes "run_state (cmdAdd env a) [] = (r, h1 @ IpamAdd p d # h2)"
  shows "\<not> list_ex is_add h1 \<and> \<not> list_ex is_add h2 \<and> \<not> list_ex is_del h1 \<and>
    (case c_ipam env h1 p d of
       Inl e \<Rightarrow> isl r \<and> \<not> list_ex is_del h2
     | Inr x \<Rightarrow> list_ex is_print h2 \<and> \<not> list_ex is_del h2 \<or>
         isl r \<and> \<not> list_ex is_print h2 \<and> filter is_del h2 = [IpamDel p d])"
  using cmdAdd_allocated [OF assms] by blast

theorem failed_add_releases_witness:
  "\<exists>e h1 h2. run_state (cmdAdd no_device_host pod_args) [] = (Inl e, h1 @ IpamAdd ''host-local'' (StdinData pod_args) # h2) \<and>
    filter is_del h2 = [IpamDel ''host-local'' (StdinData pod_args)]"
proof -
  obtain e h1 h2 where run: "run_state (cmdAdd no_device_host pod_args) [] =
      (Inl e, h1 @ IpamAdd ''host-local'' (StdinData pod_args) # h2)" and "\<not> list_ex is_print h2"
    using no_device_add by blast
  moreover have "c_ipam no_device_host h1 p d = Inr ''10.0.1.5''" for p d by (simp add: pod_host_def)
  ultimately show ?thesis using failed_add_releases [OF run] by auto
qed

text \<open>C29: a DEL whose port is no longer found is an error, and does nothing else: the address is not released, and the
  device is not removed.\<close>

theorem del_stops_without_port:
  assumes "loadNetConf (StdinData a) = Inr (n, v)" and "getPodInfo (h_env env [] ''CNI_ARGS'') = Inr (ns, name)"
    and "Netns a \<noteq> ''''" and "h_text env [] (Exec (findPort_command (Netns a) ns name)) = Inr out"
    and "Unmarshal_Data out = Inr []"
  shows "run_state (cmdDel env a) [] =
    (Inl (ErrorMsg ''OVS port was not found''), [Exec (findPort_command (Netns a) ns name)])"
  by (rule cmdDel_no_port [OF assms])

theorem del_stops_without_port_witness:
  "run_state (cmdDel no_device_host pod_args) [] =
    (Inl (ErrorMsg ''OVS port was not found''), [Exec (findPort_command ''/var/run/netns/web'' ''default'' ''web'')])"
proof -
  have "Unmarshal_Data ''{\"data\":[]}'' = Inr []" by code_simp
  moreover have "h_env no_device_host [] ''CNI_ARGS'' = ''IgnoreUnknown=1;K8S_POD_NAMESPACE=default;K8S_POD_NAME=web''"
    "h_text no_device_host [] c = Inr ''{\"data\":[]}''" "Netns pod_args = ''/var/run/netns/web''" for c
    by (simp_all add: pod_host_def pod_args_def)
  ultimately show ?thesis
    using del_stops_without_port [OF pod_conf, of no_device_host "''default''" "''web''"] pod_info by simp
qed

text \<open>C30: the result that is configured is well formed: every address belongs to one of the two families and is assigned to the container,
  with a gateway if the plugin is one; the gateways of each family are those of its addresses, in their order; and
  routes are only added for a default gateway, at most one for each family, after which every family that has an
  address has a default route.\<close>

theorem gateways_well_formed:
  assumes "calcGateways result n = Inr (res, g4, g6)"
  shows "list_all known_ip (IPs result) \<and> IPs res = map (completed n) (IPs result) \<and>
    gws g4 = (if IsGW n then map gateway_net (filter is_v4 (IPs res)) else []) \<and>
    gws g6 = (if IsGW n then map gateway_net (filter (\<lambda>i. \<not> is_v4 i) (IPs res)) else []) \<and>
    (gws g4 \<noteq> [] \<longrightarrow> gw_family g4 = FAMILY_V4) \<and> (gws g6 \<noteq> [] \<longrightarrow> gw_family g6 = FAMILY_V6) \<and>
    (\<exists>new. Routes res = Routes result @ new \<and> (IsDefaultGW n \<or> new = []) \<and>
       list_all (\<lambda>r. default_route True r \<or> default_route False r) new \<and>
       length (filter (default_route True) new) \<le> 1 \<and> length (filter (default_route False) new) \<le> 1) \<and>
    (IsDefaultGW n \<longrightarrow> (\<forall>i\<in>set (IPs result). \<exists>r\<in>set (Routes res).
       IPNet_String (rt_Dst r) = (if is_v4 i then ''0.0.0.0/0'' else ''::/0'')))"
proof -
  from assms obtain ips routes where c: "calc_gateways n (IPs result) (Routes result) no_gw no_gw = Inr (ips, routes, g4, g6)"
    and res: "IPs res = ips" "Routes res = routes"
    by (auto simp: calcGateways_def split: sum.split_asm)
  have none: "gws no_gw = []" "\<not> defaultRouteFound no_gw" by (simp_all add: no_gw_def)
  from calc_gateways_addresses [OF c] calc_gateways_routes [OF c] show ?thesis
    unfolding res by (auto simp: none list_all_iff list_ex_iff filter_empty_conv split: if_split_asm)
qed

theorem gateways_well_formed_witness:
  "\<exists>res g4 g6. calcGateways ipam_result installed_conf = Inr (res, g4, g6) \<and>
    (\<exists>r\<in>set (Routes res). IPNet_String (rt_Dst r) = ''0.0.0.0/0'')"
proof -
  obtain res g4 g6 where c: "calcGateways ipam_result installed_conf = Inr (res, g4, g6)"
    using gateways_ok [of ipam_result] by (auto simp: ipam_result_def)
  have "is_v4 pod_ip" "pod_ip \<in> set (IPs ipam_result)" by (simp_all add: is_v4_def pod_ip_def ipam_result_def)
  moreover have "\<forall>i\<in>set (IPs ipam_result). \<exists>r\<in>set (Routes res).
      IPNet_String (rt_Dst r) = (if is_v4 i then ''0.0.0.0/0'' else ''::/0'')"
    using gateways_well_formed [OF c] conf_fields(3) by blast
  ultimately have "\<exists>r\<in>set (Routes res). IPNet_String (rt_Dst r) = ''0.0.0.0/0''" by (metis (full_types))
  with c show ?thesis by blast
qed

text \<open>C31: an ADD that succeeds has, in this order and nothing else of this kind, opened the namespace, added the port of the host's
  device with the pod's identifiers, allocated an address, printed the result and closed the namespace; and the result is
  the pod's: the bridge, the host's device, and the container's interface in its namespace, with the addresses that the IPAM plugin
  answered, all of them assigned to the interface, and the \<^verbatim>\<open>dns\<close> of the configuration.\<close>

theorem add_reports_pod:
  assumes links: "links_ok env ix" and conf: "loadNetConf (StdinData a) = Inr (n, v)" and ipam: "IPAM_Type n \<noteq> ''''"
    and run: "run_state (cmdAdd env a) h = (Inr (), h')"
  shows "\<exists>bridge host cont ns name h1 r answer res.
    filter milestone h' = filter milestone h @
      [GetNS (Netns a), Exec (addPort_command (BridgeName n) (if_Name host) (if_Mac cont) (Netns a) ns name),
       IpamAdd (IPAM_Type n) (StdinData a), PrintResult res v, CloseNS (Netns a)] \<and>
    c_ipam env h1 (IPAM_Type n) (StdinData a) = Inr r \<and> c_convert env r = Inr answer \<and> IPs answer \<noteq> [] \<and>
    Interfaces res = [bridge, host, cont] \<and> if_Name bridge = defaultBridgeName \<and>
    if_Name cont = IfName a \<and> if_Sandbox cont = Netns a \<and> if_Sandbox host = '''' \<and>
    IPs res = map (completed n) (IPs answer) \<and> res_DNS res = nc_DNS n \<and> res_CNIVersion res = v"
  by (rule cmdAdd_success [OF assms])

theorem add_reports_pod_witness:
  "\<exists>h (host :: Interface) (cont :: Interface) ns name res. run_state (cmdAdd good_pod_host pod_args) [] = (Inr (), h) \<and>
    filter milestone h = [GetNS ''/var/run/netns/web'',
      Exec (addPort_command ''k-vswitch0'' (if_Name host) (if_Mac cont) ''/var/run/netns/web'' ns name),
      IpamAdd ''host-local'' (StdinData pod_args), PrintResult res '''', CloseNS ''/var/run/netns/web''] \<and>
    if_Name cont = ''eth0''"
proof -
  obtain h where run: "run_state (cmdAdd good_pod_host pod_args) [] = (Inr (), h)" using good_add by blast
  have "IPAM_Type installed_conf \<noteq> ''''" by (simp add: conf_fields)
  from add_reports_pod [OF pod_host_links pod_conf this run] obtain host cont :: Interface and ns name res where
    "filter milestone h = filter milestone [] @ [GetNS (Netns pod_args),
       Exec (addPort_command (BridgeName installed_conf) (if_Name host) (if_Mac cont) (Netns pod_args) ns name),
       IpamAdd (IPAM_Type installed_conf) (StdinData pod_args), PrintResult res '''', CloseNS (Netns pod_args)]"
    "if_Name cont = IfName pod_args" by (elim exE conjE) (rule that, assumption+)
  moreover have "Netns pod_args = ''/var/run/netns/web''" "IfName pod_args = ''eth0''" by (simp_all add: pod_args_def)
  ultimately show ?thesis using run by (auto simp: conf_fields)
qed



text \<open>C33: when the plugin has made a pod's pair of devices, what it has done is one successful creation of the pair
  after at most nine others, with the container's end up and the host's end, under the random name that was created, moved
  to the host and up; the namespaces entered are left, and the interfaces it reports are these two.\<close>

theorem pod_devices_created:
  assumes "links_ok env ix" and "run_state (setupVeth env netns ifName) h = (Inr (hv, cv), h')"
  shows "\<exists>pre c l l'. h' = h @ EnterNS netns # pre @ [LinkAdd ifName (if_Name hv) 1500, LinkByName ifName, LinkSetUp c,
      LinkByName (if_Name hv), LinkSetNs l, EnterHostNS, LinkByName (if_Name hv), LinkSetUp l', LeaveHostNS,
      LeaveNS netns, LinkByName (if_Name hv)] \<and>
    length (filter is_link_add pre) < 10 \<and> (\<exists>e. if_Name hv = ''veth'' @ hexString e) \<and>
    if_Name cv = ifName \<and> if_Sandbox cv = netns \<and> if_Sandbox hv = '''' \<and>
    link_Name c = ifName \<and> link_Name l = if_Name hv \<and> link_Name l' = if_Name hv"
  by (rule setupVeth_success [OF assms])

theorem pod_devices_created_witness:
  "\<exists>hv cv h'. run_state (setupVeth no_device_host ''/ns'' ''eth0'') [] = (Inr (hv, cv), h') \<and>
    LinkAdd ''eth0'' (if_Name hv) 1500 \<in> set h' \<and> (\<exists>e. if_Name hv = ''veth'' @ hexString e) \<and> if_Sandbox cv = ''/ns''"
proof -
  have ok: "links_ok no_device_host (\<lambda>n. 1)" by (simp add: links_ok_def pod_host_def any_link_def)
  have "succeeds (setupVeth no_device_host ''/ns'' ''eth0'')" by (rule pod_host_first)
  then obtain x h' where "run_state (setupVeth no_device_host ''/ns'' ''eth0'') [] = (Inr x, h')" unfolding succeeds_def by blast
  then obtain hv cv where run: "run_state (setupVeth no_device_host ''/ns'' ''eth0'') [] = (Inr (hv, cv), h')" by (cases x) auto
  from pod_devices_created [OF ok run] run show ?thesis by auto
qed



text \<open>C35: for a pod with at most one address of each family, the rules that an ADD writes to the nat tables are the chain of
  the container with what it accepts and masquerades, and the jump to it for the pod's network; and the DEL
  removes them: the tables are those from before, whatever happened in between elsewhere.\<close>

theorem masquerade_undone:
  assumes "iptables_ok canon t0 env" and "canon_ok canon ipnets"
    and "mset ipnets = mset (map ipc_Address (IPs result))"
    and "distinct (map isV6 ipnets)" and "\<forall>n\<in>set ipnets. isV6 (Network n) = isV6 n"
    and "\<forall>v. fresh_chain (FormatChainName env (nc_Name netConf) (ContainerID a)) (tables canon t0 h v)"
    and "run_state (setup_masquerade env netConf a result) h = (r, h1)" and "list_all no_ipt u"
    and "run_state (teardown_masquerade env netConf a ipnets) (h1 @ u) = (r', h2)"
  shows "r = Inr () \<and> r' = Inr () \<and> tables canon t0 h2 = tables canon t0 h \<and>
    (\<forall>ipc\<in>set (IPs result). tables canon t0 h1 (isV6 (ipc_Address ipc)) =
       masqueraded canon (FormatChainName env (nc_Name netConf) (ContainerID a)) (FormatComment env (nc_Name netConf) (ContainerID a))
         (Network (ipc_Address ipc)) (tables canon t0 h (isV6 (ipc_Address ipc))))"
proof -
  let ?c = "FormatChainName env (nc_Name netConf) (ContainerID a)" and ?m = "FormatComment env (nc_Name netConf) (ContainerID a)"
  let ?nets = "map (\<lambda>ipc. Network (ipc_Address ipc)) (IPs result)"
  have sets: "set ipnets = ipc_Address ` set (IPs result)" using assms(3) by (metis set_map set_mset_mset)
  have v6: "isV6 (Network (ipc_Address ipc)) = isV6 (ipc_Address ipc)" if "ipc \<in> set (IPs result)" for ipc
    using assms(5) sets that by blast
  have "map isV6 ?nets = map isV6 (map ipc_Address (IPs result))" using v6 by simp
  moreover have "mset (map isV6 ipnets) = mset (map isV6 (map ipc_Address (IPs result)))" using assms(3) by (metis mset_map)
  ultimately have "distinct (map isV6 ?nets)" using assms(4) mset_eq_imp_distinct_iff by metis
  from setup_tables [OF assms(1,2) this _ FormatChainName_name(1) [of env "nc_Name netConf" "ContainerID a"], of h ?m] assms(6,7)
  have 1: "r = Inr ()" "\<forall>n\<in>set ?nets. tables canon t0 h1 (isV6 n) = masqueraded canon ?c ?m n (tables canon t0 h (isV6 n))"
    "\<forall>v. v \<notin> isV6 ` set ?nets \<longrightarrow> tables canon t0 h1 v = tables canon t0 h v"
    by (auto simp: setup_masquerade_def each_map)
  have now: "\<forall>n\<in>set ipnets. fresh_chain ?c (tables canon t0 h (isV6 n)) \<and>
      tables canon t0 (h1 @ u) (isV6 n) = masqueraded canon ?c ?m (Network n) (tables canon t0 h (isV6 n))"
    using 1(2) assms(6) v6 by (auto simp: tables_quiet [OF assms(8)] sets)
  from teardown_tables [OF assms(1,2) order_refl assms(4) now FormatChainName_name(1)] assms(9)
  have 2: "r' = Inr ()" "\<forall>v. tables canon t0 h2 v =
      (if v \<in> isV6 ` set ipnets then tables canon t0 h v else tables canon t0 (h1 @ u) v)"
    by (auto simp: teardown_masquerade_def)
  have "isV6 ` set ?nets = isV6 ` set ipnets" using v6 by (auto simp: sets image_image cong: image_cong_simp)
  with 1 2(2) have "tables canon t0 h2 = tables canon t0 h" by (auto simp: tables_quiet [OF assms(8)])
  with 1 2(1) v6 show ?thesis by auto
qed

theorem masquerade_undone_witness:
  "\<exists>h1 h2. run_state (setup_masquerade masq_host installed_conf pod_args ipam_result) [] = (Inr (), h1) \<and>
    length (tables keep_net empty_nat h1 False) = 2 \<and>
    run_state (teardown_masquerade masq_host installed_conf pod_args [ipc_Address pod_ip]) (h1 @ [LinkDel ''eth0'']) = (Inr (), h2) \<and>
    tables keep_net empty_nat h2 = empty_nat"
proof -
  obtain r h1 where 1: "run_state (setup_masquerade masq_host installed_conf pod_args ipam_result) [] = (r, h1)" by fastforce
  obtain r' h2 where 2: "run_state (teardown_masquerade masq_host installed_conf pod_args [ipc_Address pod_ip]) (h1 @ [LinkDel ''eth0'']) = (r', h2)"
    by fastforce
  have "mset [ipc_Address pod_ip] = mset (map ipc_Address (IPs ipam_result))" "distinct (map isV6 [ipc_Address pod_ip])"
    "\<forall>n\<in>set [ipc_Address pod_ip]. isV6 (Network n) = isV6 n" by (simp_all add: ipam_result_def pod_net)
  moreover have "\<forall>v. fresh_chain (FormatChainName masq_host (nc_Name installed_conf) (ContainerID pod_args)) (tables keep_net empty_nat [] v)"
    using FormatChainName_name(1) [of masq_host "nc_Name installed_conf" "ContainerID pod_args"]
    by (simp add: fresh_chain_def tables_def empty_nat_def referenced_def)
  moreover have "list_all no_ipt [LinkDel ''eth0'']" by (simp add: no_ipt_def)
  ultimately have "r = Inr () \<and> r' = Inr () \<and> tables keep_net empty_nat h2 = tables keep_net empty_nat [] \<and>
    (\<forall>ipc\<in>set (IPs ipam_result). tables keep_net empty_nat h1 (isV6 (ipc_Address ipc)) =
       masqueraded keep_net (FormatChainName masq_host (nc_Name installed_conf) (ContainerID pod_args))
         (FormatComment masq_host (nc_Name installed_conf) (ContainerID pod_args))
         (Network (ipc_Address ipc)) (tables keep_net empty_nat [] (isV6 (ipc_Address ipc))))"
    by (rule masquerade_undone [OF masq_ok keep_ok _ _ _ _ 1 _ 2])
  moreover have "tables keep_net empty_nat [] = empty_nat" "IPs ipam_result = [pod_ip]" by (simp_all add: tables_def ipam_result_def)
  ultimately show ?thesis using 1 2 by (simp add: pod_net masqueraded_def empty_nat_def on_chain_def)
qed

section \<open>The API\<close>





text \<open>C38: whatever deltas an informer's cache is given, it takes them all, and each tells the handlers one thing: what they are told, replayed,
  is what the cache holds, an addition only of what was not there and an update with what was.  The listers list exactly the
  objects of the cache that the selector selects, those of one namespace through an index that knows only keys.\<close>

theorem informer_cache_faithful:
  "\<exists>c sent. HandleDeltas meta ds (NewIndexer namespace_indexers) = Some (c, sent) \<and> length sent = length ds \<and>
    foreach (mirror meta) (map fst sent) Map.empty = Some (map_of (ts_items c)) \<and> distinct (map fst (ts_items c)) \<and>
    (\<forall>sel. store_ListAll meta c sel = Some (Inr (filter (\<lambda>m. Selector_Matches sel (mt_Labels (meta m))) (ts_List c)))) \<and>
    (\<forall>ns sel. \<exists>xs. index_ListAllByNamespace meta c ns sel = Some (Inr xs) \<and>
       mset xs = mset (filter (\<lambda>m. (ns = '''' \<or> mt_Namespace (meta m) = ns) \<and> Selector_Matches sel (mt_Labels (meta m))) (ts_List c)))"
proof -
  let ?new = "NewIndexer namespace_indexers :: 'a thread_safe_map"
  have "map_of (ts_items ?new) = Map.empty" by (simp add: NewIndexer_def NewThreadSafeStore_def)
  with deltas_mirrored [OF ts_inv_new [OF namespace_indexers_ok], of meta ds] obtain c sent where
    d: "HandleDeltas meta ds ?new = Some (c, sent)" "length sent = length ds"
    "foreach (mirror meta) (map fst sent) Map.empty = Some (map_of (ts_items c))" by auto
  from d(1) have "filled meta c" unfolding filled_def by blast
  note inv = filled_inv [OF this]
  from inv(1) have "distinct (map fst (ts_items c))" by (simp add: ts_inv_def)
  then show ?thesis
    using d index_ListAllByNamespace_eq [OF inv(1)] inv(2)
    by (intro exI [of _ c] exI [of _ sent]) (simp add: store_ListAll_def append_selected_objs)
qed

text \<open>C39: whatever informers a factory is asked for, and however often it is started, each is run at most once, and a
  start runs those that were not running, after which a wait looks at all of them.\<close>

theorem informers_run_once:
  assumes "factory_run f started" and "Start f = (new, f')"
  shows "distinct (started @ new) \<and> set (started @ new) = fst ` set (informers f') \<and>
    awaited f' = map fst (informers f') \<and> Start f' = ([], f')"
proof -
  have "factory_run f' (started @ new)" using assms by (rule run_start)
  from factory_inv [OF this] have inv: "distinct (started @ new)" "startedInformers f' = started @ new"
    "set (started @ new) \<subseteq> fst ` set (informers f')" by auto
  have aw: "awaited f' = map fst (informers f')" using awaited_Start [of f] assms(2) by (auto simp: Start_def Let_def)
  then have "fst ` set (informers f') \<subseteq> set (startedInformers f')" by (auto simp: awaited_def filter_id_conv)
  moreover from this have "filter (\<lambda>t. t \<notin> set (startedInformers f')) (map fst (informers f')) = []"
    by (auto simp: filter_empty_conv)
  then have "Start f' = ([], f')" by (simp add: Start_def Let_def)
  ultimately show ?thesis using inv aw by auto
qed

theorem informers_run_once_witness:
  "set (fst (Start (fst controller_informers))) = {''Pod'', ''Namespace'', ''NetworkPolicy''}"
proof -
  let ?f = "NewSharedInformerFactory 0 :: int factory"
  let ?ask = "\<lambda>t. \<lambda>f. snd (InformerFor t (\<lambda>resync. resync) f) :: int factory"
  have ask: "factory_run f started \<Longrightarrow> factory_run (?ask t f) started" for f t started
    by (rule run_ask) (auto intro: prod.collapse [symmetric])
  have "factory_run ?f []" by (rule run_new) (simp_all add: NewSharedInformerFactory_def NewSharedInformerFactoryWithOptions_def)
  then have "factory_run (?ask ''NetworkPolicy'' (?ask ''Namespace'' (?ask ''Pod'' ?f))) []" by (intro ask)
  then have "factory_run (fst controller_informers) []" by (simp add: controller_informers_def Let_def)
  from informers_run_once [OF this prod.collapse [symmetric]] show ?thesis
    by (auto simp: Start_def controller_informers_def Let_def InformerFor_def NewSharedInformerFactory_def
        NewSharedInformerFactoryWithOptions_def)
qed

text \<open>C40: on an explicit store, the controller's synchronisation makes the requests of its functional model on the
  values its cache points to, leaves the cache and everything reachable from it as it was, and passes to the API only
  objects that share nothing with it.\<close>

theorem cached_configs_untouched:
  assumes "cache_ok h get"
  shows "\<exists>err refs h'. heap_syncVSwitchConfig v get api node h = Some ((err, refs), h') \<and> (\<forall>a < length h. h' ! a = h ! a) \<and>
    cache_get h' get = cache_get h get \<and>
    syncVSwitchConfig v (cache_get h get) api node = (err, map (the \<circ> request_at h') refs) \<and>
    (\<forall>r\<in>set refs. length h \<le> ref_addr r \<and> (\<exists>obj. config_at h' (ref_addr r) = Some obj \<and> fresh_obj h obj))"
proof -
  from heap_sync_refines [OF assms, of v api node] obtain err refs h' where
    r: "heap_syncVSwitchConfig v get api node h = Some ((err, refs), h')" "prefix h h'"
    "fst (syncVSwitchConfig v (cache_get h get) api node) = err"
    "map Some (snd (syncVSwitchConfig v (cache_get h get) api node)) = map (request_at h') refs"
    "\<forall>r\<in>set refs. length h \<le> ref_addr r \<and> (\<exists>obj. config_at h' (ref_addr r) = Some obj \<and> fresh_obj h obj)" by blast
  have "snd (syncVSwitchConfig v (cache_get h get) api node) = map (the \<circ> request_at h') refs"
    using arg_cong [OF r(4), of "map the"] by (simp add: comp_def)
  with r(3) have "syncVSwitchConfig v (cache_get h get) api node = (err, map (the \<circ> request_at h') refs)"
    by (simp add: prod_eq_iff)
  then show ?thesis
    using r(1,5) cache_get_prefix [OF assms r(2)] prefix_nth [OF r(2)]
    by (intro exI [of _ err] exI [of _ refs] exI [of _ h'] conjI allI impI)
qed

theorem cached_configs_untouched_witness:
  "\<exists>err refs h'. heap_syncVSwitchConfig vc1 (\<lambda>n. Inr 0) (\<lambda>req. None) node_n1 one_cached = Some ((err, refs), h') \<and>
    (\<forall>a < 2. h' ! a = one_cached ! a)"
proof -
  have "cache_ok one_cached (\<lambda>n. Inr 0)"
    by (auto simp: cache_ok_def one_cached_def config_at_def deref_def valid_obj_def meta_refs_def valid_ref_def zero_meta_def zero_obj_def)
  from cached_configs_untouched [OF this, of vc1 "\<lambda>req. None" node_n1] obtain err refs h' where
    "heap_syncVSwitchConfig vc1 (\<lambda>n. Inr 0) (\<lambda>req. None) node_n1 one_cached = Some ((err, refs), h')"
    "\<forall>a < length one_cached. h' ! a = one_cached ! a" by (elim exE conjE)
  moreover have "length one_cached = 2" by (simp add: one_cached_def)
  ultimately show ?thesis by (intro exI [of _ err] exI [of _ refs] exI [of _ h'] conjI) simp_all
qed

end
